theory Spec2Isabelle
  imports Main "HOL-Library.Word"
begin

unbundle bit_operations_syntax

section \<open>Basic definitions (defs.hpp)\<close>

text \<open>
  A bitboard is a \<open>uint64_t\<close>; bit \<open>i\<close> stands for square \<open>i\<close>, with
  \<open>square = file + 8 * rank\<close>. Squares are C++ \<open>int\<close>s and are modelled as \<open>int\<close>;
  no square computation of the source comes near the 32-bit range.
\<close>

type_synonym Bitboard = "64 word"

datatype Color = White | Black

datatype PieceType = Pawn | Knight | Bishop | Rook | Queen | King

datatype Piece =
    WhitePawn | WhiteKnight | WhiteBishop | WhiteRook | WhiteQueen | WhiteKing
  | BlackPawn | BlackKnight | BlackBishop | BlackRook | BlackQueen | BlackKing
  | PieceNone

text \<open>The underlying value of a \<open>Color\<close>: \<open>White = 0\<close>, \<open>Black = 1\<close>.\<close>

fun colorIndex :: "Color \<Rightarrow> nat" where
  "colorIndex White = 0"
| "colorIndex Black = 1"

text \<open>\<open>operator~\<close> on \<open>Color\<close>.\<close>

fun notColor :: "Color \<Rightarrow> Color" where
  "notColor White = Black"
| "notColor Black = White"

text \<open>
  The underlying value of a \<open>Piece\<close>, which is also its index into the bitboard array
  and into the Zobrist table: 0..5 for White, 8..13 for Black, and \<open>None\<close> follows
  \<open>BlackKing\<close>, so it is 14.
\<close>

fun pieceIndex :: "Piece \<Rightarrow> nat" where
  "pieceIndex WhitePawn = 0"
| "pieceIndex WhiteKnight = 1"
| "pieceIndex WhiteBishop = 2"
| "pieceIndex WhiteRook = 3"
| "pieceIndex WhiteQueen = 4"
| "pieceIndex WhiteKing = 5"
| "pieceIndex BlackPawn = 8"
| "pieceIndex BlackKnight = 9"
| "pieceIndex BlackBishop = 10"
| "pieceIndex BlackRook = 11"
| "pieceIndex BlackQueen = 12"
| "pieceIndex BlackKing = 13"
| "pieceIndex PieceNone = 14"

text \<open>\<open>getPieceColor\<close>: \<open>Color(uint8_t(piece) >> 3)\<close>.\<close>

definition getPieceColor :: "Piece \<Rightarrow> Color" where
  "getPieceColor piece = (if drop_bit 3 (pieceIndex piece) = 0 then White else Black)"

text \<open>
  \<open>getPieceType\<close>: \<open>PieceType(uint8_t(piece) & 7)\<close>. For \<open>Piece::None\<close> the value is 6,
  which names no piece type: the model returns \<open>None\<close> there.
\<close>

definition getPieceType :: "Piece \<Rightarrow> PieceType option" where
  "getPieceType piece =
     (let v = pieceIndex piece AND 7 in
      if v = 0 then Some Pawn else if v = 1 then Some Knight
      else if v = 2 then Some Bishop else if v = 3 then Some Rook
      else if v = 4 then Some Queen else if v = 5 then Some King else None)"

text \<open>\<open>makePiece\<close>: \<open>Piece(uint8_t(pieceType) | (uint8_t(color) << 3))\<close>.\<close>

fun makePiece :: "PieceType \<Rightarrow> Color \<Rightarrow> Piece" where
  "makePiece Pawn White = WhitePawn"
| "makePiece Knight White = WhiteKnight"
| "makePiece Bishop White = WhiteBishop"
| "makePiece Rook White = WhiteRook"
| "makePiece Queen White = WhiteQueen"
| "makePiece King White = WhiteKing"
| "makePiece Pawn Black = BlackPawn"
| "makePiece Knight Black = BlackKnight"
| "makePiece Bishop Black = BlackBishop"
| "makePiece Rook Black = BlackRook"
| "makePiece Queen Black = BlackQueen"
| "makePiece King Black = BlackKing"

text \<open>\<open>Square::None\<close> follows \<open>H8 = 63\<close> in the enumeration.\<close>

definition SquareNone :: int where
  "SquareNone = 64"

definition fileOf :: "int \<Rightarrow> int" where
  "fileOf square = square AND 7"

definition rankOf :: "int \<Rightarrow> int" where
  "rankOf square = drop_bit 3 square"

text \<open>\<open>1ull << square\<close>.\<close>

definition spotOf :: "int \<Rightarrow> Bitboard" where
  "spotOf square = push_bit (nat square) 1"

section \<open>The board (board.hpp)\<close>

text \<open>
  \<open>bitboards\<close> has 14 entries indexed by \<open>pieceIndex\<close> (entries 6 and 7 are padding),
  \<open>m_colorOccupancy\<close> has 2 and \<open>mailbox\<close> has 64. The assertions of the source are
  compiled out unless \<open>DEBUG\<close> is defined; the primitives below are the release
  build, and what they require is a hypothesis of every theorem about them. Outside these
  requirements the source writes out of bounds, where the model's list update does
  nothing.
\<close>

record Board =
  bitboards :: "Bitboard list"
  m_colorOccupancy :: "Bitboard list"
  m_occupied :: Bitboard
  mailbox :: "Piece list"

definition emptyBoard :: Board where
  "emptyBoard = \<lparr> bitboards = replicate 14 0, m_colorOccupancy = replicate 2 0,
                  m_occupied = 0, mailbox = replicate 64 PieceNone \<rparr>"

definition pieceAt :: "Board \<Rightarrow> int \<Rightarrow> Piece" where
  "pieceAt b square = mailbox b ! nat square"

definition putPiece :: "Piece \<Rightarrow> int \<Rightarrow> Board \<Rightarrow> Board" where
  "putPiece piece square b =
     (let mask = spotOf square;
          ci = colorIndex (getPieceColor piece) in
      b\<lparr> bitboards := (bitboards b)[pieceIndex piece := bitboards b ! pieceIndex piece OR mask],
         m_occupied := m_occupied b OR mask,
         m_colorOccupancy := (m_colorOccupancy b)[ci := m_colorOccupancy b ! ci OR mask],
         mailbox := (mailbox b)[nat square := piece] \<rparr>)"

definition removePiece :: "int \<Rightarrow> Board \<Rightarrow> Board" where
  "removePiece square b =
     (let piece = mailbox b ! nat square;
          mask = spotOf square;
          ci = colorIndex (getPieceColor piece) in
      b\<lparr> bitboards := (bitboards b)[pieceIndex piece := bitboards b ! pieceIndex piece XOR mask],
         m_occupied := m_occupied b XOR mask,
         m_colorOccupancy := (m_colorOccupancy b)[ci := m_colorOccupancy b ! ci XOR mask],
         mailbox := (mailbox b)[nat square := PieceNone] \<rparr>)"

definition movePiece :: "int \<Rightarrow> int \<Rightarrow> Board \<Rightarrow> Board" where
  "movePiece from to b =
     (let piece = mailbox b ! nat from;
          mask = spotOf from OR spotOf to;
          ci = colorIndex (getPieceColor piece) in
      b\<lparr> bitboards := (bitboards b)[pieceIndex piece := bitboards b ! pieceIndex piece XOR mask],
         m_occupied := m_occupied b XOR mask,
         m_colorOccupancy := (m_colorOccupancy b)[ci := m_colorOccupancy b ! ci XOR mask],
         mailbox := ((mailbox b)[nat to := piece])[nat from := PieceNone] \<rparr>)"

subsection \<open>The summary invariant\<close>

definition whitePieces :: "Piece list" where
  "whitePieces = [WhitePawn, WhiteKnight, WhiteBishop, WhiteRook, WhiteQueen, WhiteKing]"

definition blackPieces :: "Piece list" where
  "blackPieces = [BlackPawn, BlackKnight, BlackBishop, BlackRook, BlackQueen, BlackKing]"

definition allPieces :: "Piece list" where
  "allPieces = whitePieces @ blackPieces"

text \<open>The union of the piece bitboards of the given pieces.\<close>

fun unionOf :: "Bitboard list \<Rightarrow> Piece list \<Rightarrow> Bitboard" where
  "unionOf bbs [] = 0"
| "unionOf bbs (p # ps) = bbs ! pieceIndex p OR unionOf bbs ps"

text \<open>
  The three derived summaries agree with the twelve piece bitboards: each occupancy is
  the union of its bitboards, and the mailbox names piece \<open>p\<close> on a square exactly when
  the bitboard of \<open>p\<close> has that square (so a square no bitboard has holds \<open>PieceNone\<close>).
\<close>

definition boardInv :: "Board \<Rightarrow> bool" where
  "boardInv b \<longleftrightarrow>
     length (bitboards b) = 14 \<and> length (m_colorOccupancy b) = 2 \<and> length (mailbox b) = 64 \<and>
     m_occupied b = unionOf (bitboards b) allPieces \<and>
     m_colorOccupancy b ! 0 = unionOf (bitboards b) whitePieces \<and>
     m_colorOccupancy b ! 1 = unionOf (bitboards b) blackPieces \<and>
     (\<forall>sq \<in> set [0..<64]. \<forall>p \<in> set allPieces.
        (mailbox b ! sq = p) = bit (bitboards b ! pieceIndex p) sq)"

subsection \<open>The summary invariant, square by square\<close>

text \<open>
  The same invariant read off the mailbox: a square that holds piece \<open>q\<close> is in the
  bitboard of \<open>q\<close> and in no other, and the occupancies hold exactly the squares whose
  mailbox entry is a piece (of the colour). It is equivalent to \<open>boardInv\<close>
  (\<open>boardInv_iff_mailboxInv\<close> below) and is what the proofs about the primitives use.
\<close>

definition mailboxInv :: "Board \<Rightarrow> bool" where
  "mailboxInv b \<longleftrightarrow>
     length (bitboards b) = 14 \<and> length (m_colorOccupancy b) = 2 \<and> length (mailbox b) = 64 \<and>
     (\<forall>n < 64. \<forall>q. q \<noteq> PieceNone \<longrightarrow> (mailbox b ! n = q) = bit (bitboards b ! pieceIndex q) n) \<and>
     (\<forall>n < 64. bit (m_occupied b) n = (mailbox b ! n \<noteq> PieceNone)) \<and>
     (\<forall>n < 64. bit (m_colorOccupancy b ! 0) n =
        (mailbox b ! n \<noteq> PieceNone \<and> getPieceColor (mailbox b ! n) = White)) \<and>
     (\<forall>n < 64. bit (m_colorOccupancy b ! 1) n =
        (mailbox b ! n \<noteq> PieceNone \<and> getPieceColor (mailbox b ! n) = Black))"

section \<open>Moves (move.hpp)\<close>

type_synonym Move = "16 word"

text \<open>
  \<open>MoveFlags\<close> is an \<open>enum class\<close> over \<open>int\<close>; the generator also builds flags by
  casting a computed number, so the flags are modelled by their values.
\<close>

definition QuietMove :: int where "QuietMove = 0"
definition DoublePawnPush :: int where "DoublePawnPush = 1"
definition KingCastle :: int where "KingCastle = 2"
definition QueenCastle :: int where "QueenCastle = 3"
definition Capture :: int where "Capture = 4"
definition EnPassantCapture :: int where "EnPassantCapture = 5"
definition KnightPromotion :: int where "KnightPromotion = 8"
definition BishopPromotion :: int where "BishopPromotion = 9"
definition RookPromotion :: int where "RookPromotion = 10"
definition QueenPromotion :: int where "QueenPromotion = 11"
definition KnightPromotionCapture :: int where "KnightPromotionCapture = 12"
definition BishopPromotionCapture :: int where "BishopPromotionCapture = 13"
definition RookPromotionCapture :: int where "RookPromotionCapture = 14"
definition QueenPromotionCapture :: int where "QueenPromotionCapture = 15"
definition Zero :: int where "Zero = 0"

named_theorems flag_defs \<open>the values of the move flags\<close>

declare QuietMove_def [flag_defs] DoublePawnPush_def [flag_defs] KingCastle_def [flag_defs]
  QueenCastle_def [flag_defs] Capture_def [flag_defs] EnPassantCapture_def [flag_defs]
  KnightPromotion_def [flag_defs] BishopPromotion_def [flag_defs] RookPromotion_def [flag_defs]
  QueenPromotion_def [flag_defs] KnightPromotionCapture_def [flag_defs]
  BishopPromotionCapture_def [flag_defs] RookPromotionCapture_def [flag_defs]
  QueenPromotionCapture_def [flag_defs] Zero_def [flag_defs]

text \<open>
  The constructor \<open>Move(from, to, flags)\<close> packs
  \<open>uint16_t((uint16_t(flags) << 12) | (from << 6) | to)\<close>: the operands are \<open>int\<close>s and
  the result is cut to 16 bits.
\<close>

definition Move :: "int \<Rightarrow> int \<Rightarrow> int \<Rightarrow> Move" where
  "Move from to flags = word_of_int (push_bit 12 (take_bit 16 flags) OR push_bit 6 from OR to)"

definition nullMove :: Move where
  "nullMove = 0"

definition getTo :: "Move \<Rightarrow> int" where
  "getTo m = uint (m AND 0x3F)"

definition getFrom :: "Move \<Rightarrow> int" where
  "getFrom m = uint (drop_bit 6 m AND 0x3F)"

definition getFlags :: "Move \<Rightarrow> int" where
  "getFlags m = uint (drop_bit 12 m)"

definition isCapture :: "Move \<Rightarrow> bool" where
  "isCapture m \<longleftrightarrow> m AND push_bit 12 4 \<noteq> 0"

definition isQuietMove :: "Move \<Rightarrow> bool" where
  "isQuietMove m \<longleftrightarrow> m AND push_bit 12 15 = push_bit 12 0"

definition isDoublePawnPush :: "Move \<Rightarrow> bool" where
  "isDoublePawnPush m \<longleftrightarrow> m AND push_bit 12 15 = push_bit 12 1"

definition isEnPassant :: "Move \<Rightarrow> bool" where
  "isEnPassant m \<longleftrightarrow> m AND push_bit 12 15 = push_bit 12 5"

definition isKingsideCastle :: "Move \<Rightarrow> bool" where
  "isKingsideCastle m \<longleftrightarrow> m AND push_bit 12 15 = push_bit 12 2"

definition isQueensideCastle :: "Move \<Rightarrow> bool" where
  "isQueensideCastle m \<longleftrightarrow> m AND push_bit 12 15 = push_bit 12 3"

definition isCastle :: "Move \<Rightarrow> bool" where
  "isCastle m \<longleftrightarrow> m AND push_bit 13 7 = push_bit 13 1"

definition isPromotion :: "Move \<Rightarrow> bool" where
  "isPromotion m \<longleftrightarrow> m AND push_bit 15 1 = push_bit 15 1"

definition isNull :: "Move \<Rightarrow> bool" where
  "isNull m \<longleftrightarrow> m = 0"

definition captureDestinationSquare :: "Color \<Rightarrow> Move \<Rightarrow> int" where
  "captureDestinationSquare c m =
     getTo m + (if isEnPassant m then (if c = White then - 8 else 8) else 0)"

definition capturedPiece :: "Color \<Rightarrow> Move \<Rightarrow> Piece \<Rightarrow> Piece" where
  "capturedPiece c m pieceDest =
     (if isEnPassant m then (if c = White then BlackPawn else WhitePawn) else pieceDest)"

definition doublePawnPushEnPassantSquare :: "Color \<Rightarrow> Move \<Rightarrow> int" where
  "doublePawnPushEnPassantSquare c m = getFrom m + (if c = White then 8 else - 8)"

text \<open>
  \<open>promotionPieceType\<close>: \<open>PieceType(((m_data >> 12) & 0b0011) + 0b0001)\<close>, one of
  Knight (1), Bishop (2), Rook (3), Queen (4).
\<close>

definition promotionPieceType :: "Move \<Rightarrow> PieceType" where
  "promotionPieceType m =
     (let v = uint (drop_bit 12 m AND 3) + 1 in
      if v = 1 then Knight else if v = 2 then Bishop else if v = 3 then Rook else Queen)"

definition promotionPiece :: "Color \<Rightarrow> Move \<Rightarrow> Piece" where
  "promotionPiece c m = makePiece (promotionPieceType m) c"

text \<open>
  The UCI text of a move (\<open>operator<<\<close>): origin, destination, and the promotion letter
  of a promotion.
\<close>

definition getSquareName :: "int \<Rightarrow> string" where
  "getSquareName square =
     [char_of (of_char CHR ''a'' + fileOf square), char_of (of_char CHR ''1'' + rankOf square)]"

definition moveString :: "Move \<Rightarrow> string" where
  "moveString m =
     getSquareName (getFrom m) @ getSquareName (getTo m) @
     (if isPromotion m then
        (case promotionPieceType m of
           Knight \<Rightarrow> ''n'' | Bishop \<Rightarrow> ''b'' | Rook \<Rightarrow> ''r'' | Queen \<Rightarrow> ''q'' | _ \<Rightarrow> [])
      else [])"

section \<open>The move list (movelist.hpp)\<close>

text \<open>
  \<open>StaticMoveList<MaxMoves>\<close>: an array of \<open>MaxMoves\<close> moves and a count. \<open>add\<close> is
  \<open>m_moves[m_count++] = move\<close> with no check; a write at an index that is not below the
  capacity is out of bounds, which the model returns as an error value.
\<close>

record StaticMoveList =
  m_moves :: "Move list"
  m_count :: nat

datatype error = OutOfBounds

definition MoveList_capacity :: nat where
  "MoveList_capacity = 218"

definition newMoveList :: StaticMoveList where
  "newMoveList = \<lparr> m_moves = replicate MoveList_capacity 0, m_count = 0 \<rparr>"

definition size_ml :: "StaticMoveList \<Rightarrow> nat" where
  "size_ml ml = m_count ml"

definition add :: "StaticMoveList \<Rightarrow> Move \<Rightarrow> error + StaticMoveList" where
  "add ml move =
     (if m_count ml < length (m_moves ml)
      then Inr (ml\<lparr> m_moves := (m_moves ml)[m_count ml := move], m_count := m_count ml + 1 \<rparr>)
      else Inl OutOfBounds)"

section \<open>The game state (game.hpp)\<close>

text \<open>
  \<open>CastlingFlags\<close> is a \<open>uint8_t\<close> bit set. \<open>m_history\<close> has 512 entries. The three
  counters are C++ \<open>int\<close>s.
\<close>

type_synonym CastlingFlags = "8 word"

record UndoInfo =
  u_halfMoveCounter :: int
  u_capturedPiece :: Piece
  u_castlingRights :: CastlingFlags
  u_enPassantSquare :: "8 word"

record Game =
  m_board :: Board
  m_turn :: Color
  m_history :: "64 word list"
  m_hash :: "64 word"
  m_castlingRights :: CastlingFlags
  m_enPassantSquare :: int
  m_halfMoveCounter :: int
  m_ply :: int

text \<open>
  The eight bitboards that the pawn block of \<open>legalMoves\<close> computes before it looks at
  the sink (see \<open>pawnMotion\<close> below); the record is declared here with the other records.
\<close>

record PawnMotion =
  pm_quiet :: Bitboard
  pm_doublePush :: Bitboard
  pm_leftCapture :: Bitboard
  pm_rightCapture :: Bitboard
  pm_quietPromotion :: Bitboard
  pm_leftCapturePromotion :: Bitboard
  pm_rightCapturePromotion :: Bitboard
  pm_pawnsUHV :: Bitboard

definition halfMoveCounter :: "Game \<Rightarrow> int" where
  "halfMoveCounter g = m_halfMoveCounter g"

definition draw50MoveRule :: "Game \<Rightarrow> bool" where
  "draw50MoveRule g \<longleftrightarrow> halfMoveCounter g > 99"

section \<open>Bit primitives (utils.hpp)\<close>

definition Rank1 :: Bitboard where "Rank1 = 0x00000000000000FF"
definition Rank2 :: Bitboard where "Rank2 = 0x000000000000FF00"
definition Rank4 :: Bitboard where "Rank4 = 0x00000000FF000000"
definition Rank5 :: Bitboard where "Rank5 = 0x000000FF00000000"
definition Rank7 :: Bitboard where "Rank7 = 0x00FF000000000000"
definition Rank8 :: Bitboard where "Rank8 = 0xFF00000000000000"

definition aFile :: Bitboard where "aFile = 0x0101010101010101"
definition bFile :: Bitboard where "bFile = 0x0202020202020202"
definition gFile :: Bitboard where "gFile = 0x4040404040404040"
definition hFile :: Bitboard where "hFile = 0x8080808080808080"

fun forward :: "Color \<Rightarrow> Bitboard \<Rightarrow> Bitboard" where
  "forward White bitboard = push_bit 8 bitboard"
| "forward Black bitboard = drop_bit 8 bitboard"

fun forwardSquare :: "Color \<Rightarrow> int \<Rightarrow> int" where
  "forwardSquare White square = square + 8"
| "forwardSquare Black square = square - 8"

fun doubleForward :: "Color \<Rightarrow> Bitboard \<Rightarrow> Bitboard" where
  "doubleForward White bitboard = push_bit 16 bitboard"
| "doubleForward Black bitboard = drop_bit 16 bitboard"

fun doubleForwardSquare :: "Color \<Rightarrow> int \<Rightarrow> int" where
  "doubleForwardSquare White square = square + 16"
| "doubleForwardSquare Black square = square - 16"

fun pawnStartingRank :: "Color \<Rightarrow> Bitboard" where
  "pawnStartingRank White = Rank2"
| "pawnStartingRank Black = Rank7"

text \<open>
  \<open>pawnLastRank\<close> is the rank a pawn stands on before its last step (the seventh for
  White): the generator intersects it with the origin squares of pawn moves.
\<close>

fun pawnLastRank :: "Color \<Rightarrow> Bitboard" where
  "pawnLastRank White = Rank7"
| "pawnLastRank Black = Rank2"

fun pawnEnPassantRank :: "Color \<Rightarrow> Bitboard" where
  "pawnEnPassantRank White = Rank5"
| "pawnEnPassantRank Black = Rank4"

text \<open>
  \<open>toSquare\<close> is \<open>__builtin_ctzll\<close>, the number of trailing zero bits. The builtin
  is undefined at 0; the model gives 64 there (what the \<open>tzcnt\<close> instruction does),
  and every theorem that depends on it is about boards where the argument is not 0.
\<close>

function toSquare :: "Bitboard \<Rightarrow> int" where
  "toSquare bitboard =
     (if bitboard = 0 then 64
      else if bit bitboard 0 then 0
      else 1 + toSquare (drop_bit 1 bitboard))"
  by pat_completeness auto
termination
proof (relation "measure unat")
  fix bitboard :: Bitboard
  assume "bitboard \<noteq> 0"
  then have "0 < unat bitboard" by (simp add: unat_gt_0)
  then have "unat bitboard div 2 < unat bitboard" by simp
  then show "(drop_bit 1 bitboard, bitboard) \<in> measure unat"
    by (simp add: drop_bit_eq_div unat_div)
qed simp

declare toSquare.simps [simp del]

text \<open>\<open>popcount\<close> is \<open>__builtin_popcountll\<close>, the number of set bits.\<close>

function popcount :: "Bitboard \<Rightarrow> nat" where
  "popcount bitboard =
     (if bitboard = 0 then 0
      else (if bit bitboard 0 then 1 else 0) + popcount (drop_bit 1 bitboard))"
  by pat_completeness auto
termination
proof (relation "measure unat")
  fix bitboard :: Bitboard
  assume "bitboard \<noteq> 0"
  then have "0 < unat bitboard" by (simp add: unat_gt_0)
  then have "unat bitboard div 2 < unat bitboard" by simp
  then show "(drop_bit 1 bitboard, bitboard) \<in> measure unat"
    by (simp add: drop_bit_eq_div unat_div)
qed simp

declare popcount.simps [simp del]

text \<open>
  \<open>popLSB\<close> returns the index of the lowest set bit and clears it in place
  (\<open>bitboard &= bitboard - 1\<close>); the model returns the index and the new bitboard.
\<close>

definition popLSB :: "Bitboard \<Rightarrow> int \<times> Bitboard" where
  "popLSB bitboard = (toSquare bitboard, bitboard AND (bitboard - 1))"

text \<open>
  Every loop of the source of the form
  \<open>while (bb != 0) { const int sq = popLSB(bb); body }\<close> is \<open>foldBits\<close>: the body
  is a function of the square and of the state the loop updates (the moves emitted so far,
  a counter, a mask).
\<close>

function foldBits :: "(int \<Rightarrow> 's \<Rightarrow> 's) \<Rightarrow> Bitboard \<Rightarrow> 's \<Rightarrow> 's" where
  "foldBits body bb s =
     (if bb = 0 then s
      else foldBits body (snd (popLSB bb)) (body (fst (popLSB bb)) s))"
  by pat_completeness auto
termination
proof (relation "measure (\<lambda>(body, bb, s). unat bb)")
  fix body :: "int \<Rightarrow> 's \<Rightarrow> 's" and bb :: Bitboard and s :: 's
  assume nz: "bb \<noteq> 0"
  have "bb AND (bb - 1) \<le> bb - 1" by (rule word_and_le1)
  moreover have "bb - 1 < bb" using nz leI less_eq_dec_triv_imp by blast
  ultimately have "bb AND (bb - 1) < bb" by simp
  then show "((body, snd (popLSB bb), body (fst (popLSB bb)) s), body, bb, s)
      \<in> measure (\<lambda>(body, bb, s). unat bb)"
    by (simp add: popLSB_def word_less_nat_alt)
qed simp

declare foldBits.simps [simp del]

fun kingsideCastleFlag :: "Color \<Rightarrow> CastlingFlags" where
  "kingsideCastleFlag White = 1"
| "kingsideCastleFlag Black = 4"

fun queensideCastleFlag :: "Color \<Rightarrow> CastlingFlags" where
  "queensideCastleFlag White = 2"
| "queensideCastleFlag Black = 8"

text \<open>\<open>operator~\<close> on \<open>CastlingFlags\<close> keeps the upper four bits clear.\<close>

definition notFlags :: "CastlingFlags \<Rightarrow> CastlingFlags" where
  "notFlags flag = NOT flag AND 15"

fun kingsideCastleRookFromSquare :: "Color \<Rightarrow> int" where
  "kingsideCastleRookFromSquare White = 7"
| "kingsideCastleRookFromSquare Black = 63"

fun queensideCastleRookFromSquare :: "Color \<Rightarrow> int" where
  "queensideCastleRookFromSquare White = 0"
| "queensideCastleRookFromSquare Black = 56"

fun kingsideCastleRookToSquare :: "Color \<Rightarrow> int" where
  "kingsideCastleRookToSquare White = 5"
| "kingsideCastleRookToSquare Black = 61"

fun queensideCastleRookToSquare :: "Color \<Rightarrow> int" where
  "queensideCastleRookToSquare White = 3"
| "queensideCastleRookToSquare Black = 59"

fun initialKingSquare :: "Color \<Rightarrow> int" where
  "initialKingSquare White = 4"
| "initialKingSquare Black = 60"

fun kingsideCastleKingToSquare :: "Color \<Rightarrow> int" where
  "kingsideCastleKingToSquare White = 6"
| "kingsideCastleKingToSquare Black = 62"

fun queensideCastleKingToSquare :: "Color \<Rightarrow> int" where
  "queensideCastleKingToSquare White = 2"
| "queensideCastleKingToSquare Black = 58"

definition squaresBetween :: "int \<Rightarrow> int \<Rightarrow> Bitboard" where
  "squaresBetween greaterSq lesserSq = push_bit (nat greaterSq) 1 - push_bit (nat lesserSq) 2"

definition squaresBetweenUnordered :: "int \<Rightarrow> int \<Rightarrow> Bitboard" where
  "squaresBetweenUnordered a b = (if a > b then squaresBetween a b else squaresBetween b a)"

section \<open>Attack tables (lookup.hpp)\<close>

text \<open>
  The knight and king tables are computed at compile time by the formulas below for the
  squares 0..63; the model applies the formula to the square looked up.
\<close>

definition knightAttack :: "int \<Rightarrow> Bitboard" where
  "knightAttack from =
     (let spot = spotOf from in
      push_bit 17 (spot AND NOT (Rank7 OR Rank8 OR hFile)) OR
      push_bit 15 (spot AND NOT (Rank7 OR Rank8 OR aFile)) OR
      drop_bit 17 (spot AND NOT (Rank1 OR Rank2 OR aFile)) OR
      drop_bit 15 (spot AND NOT (Rank1 OR Rank2 OR hFile)) OR
      push_bit 10 (spot AND NOT (Rank8 OR gFile OR hFile)) OR
      push_bit 6 (spot AND NOT (Rank8 OR aFile OR bFile)) OR
      drop_bit 10 (spot AND NOT (Rank1 OR aFile OR bFile)) OR
      drop_bit 6 (spot AND NOT (Rank1 OR gFile OR hFile)))"

definition kingAttack :: "int \<Rightarrow> Bitboard" where
  "kingAttack from =
     (let spot = spotOf from in
      push_bit 9 (spot AND NOT (Rank8 OR hFile)) OR
      push_bit 7 (spot AND NOT (Rank8 OR aFile)) OR
      drop_bit 9 (spot AND NOT (Rank1 OR aFile)) OR
      drop_bit 7 (spot AND NOT (Rank1 OR hFile)) OR
      push_bit 1 (spot AND NOT hFile) OR
      drop_bit 1 (spot AND NOT aFile) OR
      push_bit 8 (spot AND NOT Rank8) OR
      drop_bit 8 (spot AND NOT Rank1))"

definition rookBlocker :: "Bitboard list" where
  "rookBlocker = [
     0x000101010101017E, 0x000202020202027C, 0x000404040404047A, 0x0008080808080876,
     0x001010101010106E, 0x002020202020205E, 0x004040404040403E, 0x008080808080807E,
     0x0001010101017E00, 0x0002020202027C00, 0x0004040404047A00, 0x0008080808087600,
     0x0010101010106E00, 0x0020202020205E00, 0x0040404040403E00, 0x0080808080807E00,
     0x00010101017E0100, 0x00020202027C0200, 0x00040404047A0400, 0x0008080808760800,
     0x00101010106E1000, 0x00202020205E2000, 0x00404040403E4000, 0x00808080807E8000,
     0x000101017E010100, 0x000202027C020200, 0x000404047A040400, 0x0008080876080800,
     0x001010106E101000, 0x002020205E202000, 0x004040403E404000, 0x008080807E808000,
     0x0001017E01010100, 0x0002027C02020200, 0x0004047A04040400, 0x0008087608080800,
     0x0010106E10101000, 0x0020205E20202000, 0x0040403E40404000, 0x0080807E80808000,
     0x00017E0101010100, 0x00027C0202020200, 0x00047A0404040400, 0x0008760808080800,
     0x00106E1010101000, 0x00205E2020202000, 0x00403E4040404000, 0x00807E8080808000,
     0x007E010101010100, 0x007C020202020200, 0x007A040404040400, 0x0076080808080800,
     0x006E101010101000, 0x005E202020202000, 0x003E404040404000, 0x007E808080808000,
     0x7E01010101010100, 0x7C02020202020200, 0x7A04040404040400, 0x7608080808080800,
     0x6E10101010101000, 0x5E20202020202000, 0x3E40404040404000, 0x7E80808080808000]"

definition bishopBlocker :: "Bitboard list" where
  "bishopBlocker = [
     0x0040201008040200, 0x0000402010080400, 0x0000004020100A00, 0x0000000040221400,
     0x0000000002442800, 0x0000000204085000, 0x0000020408102000, 0x0002040810204000,
     0x0020100804020000, 0x0040201008040000, 0x00004020100A0000, 0x0000004022140000,
     0x0000000244280000, 0x0000020408500000, 0x0002040810200000, 0x0004081020400000,
     0x0010080402000200, 0x0020100804000400, 0x004020100A000A00, 0x0000402214001400,
     0x0000024428002800, 0x0002040850005000, 0x0004081020002000, 0x0008102040004000,
     0x0008040200020400, 0x0010080400040800, 0x0020100A000A1000, 0x0040221400142200,
     0x0002442800284400, 0x0004085000500800, 0x0008102000201000, 0x0010204000402000,
     0x0004020002040800, 0x0008040004081000, 0x00100A000A102000, 0x0022140014224000,
     0x0044280028440200, 0x0008500050080400, 0x0010200020100800, 0x0020400040201000,
     0x0002000204081000, 0x0004000408102000, 0x000A000A10204000, 0x0014001422400000,
     0x0028002844020000, 0x0050005008040200, 0x0020002010080400, 0x0040004020100800,
     0x0000020408102000, 0x0000040810204000, 0x00000A1020400000, 0x0000142240000000,
     0x0000284402000000, 0x0000500804020000, 0x0000201008040200, 0x0000402010080400,
     0x0002040810204000, 0x0004081020400000, 0x000A102040000000, 0x0014224000000000,
     0x0028440200000000, 0x0050080402000000, 0x0020100804020000, 0x0040201008040200]"

text \<open>
  The ray loops of \<open>detail::rookAttack\<close> and \<open>detail::bishopAttack\<close>:
  \<open>while (cur & ~(edge | occupied)) { cur <<= k; acc |= cur; }\<close> and the same with
  \<open>>>=\<close>. The shift \<open>k\<close> is one of 1, 7, 8, 9 in the source; the guard \<open>0 < k\<close> makes
  the functions total for every \<open>k\<close>.
\<close>

function rayLeft :: "nat \<Rightarrow> Bitboard \<Rightarrow> Bitboard \<Rightarrow> Bitboard \<Rightarrow> Bitboard" where
  "rayLeft k stop cur acc =
     (if 0 < k \<and> cur AND NOT stop \<noteq> 0
      then rayLeft k stop (push_bit k cur) (acc OR push_bit k cur)
      else acc)"
  by pat_completeness auto
termination
proof (relation "measure (\<lambda>(k, stop, cur, acc). unat (word_reverse cur))")
  fix k :: nat and stop cur acc :: Bitboard
  assume a: "0 < k \<and> cur AND NOT stop \<noteq> 0"
  then have nz: "cur \<noteq> 0" by auto
  have rev: "word_reverse (push_bit k cur) = drop_bit k (word_reverse cur)"
    by (rule bit_word_eqI) (auto simp: bit_simps add.commute)
  have "word_reverse cur \<noteq> 0"
  proof
    assume z: "word_reverse cur = 0"
    from z have "word_reverse (0 :: 64 word) = cur" by (rule word_rev_gal)
    moreover have "word_reverse (0 :: 64 word) = 0"
      by (rule bit_word_eqI) (simp add: bit_word_reverse_iff)
    ultimately show False using nz by simp
  qed
  then have "0 < unat (word_reverse cur)" by (simp add: unat_gt_0)
  moreover have "(2::nat) \<le> 2 ^ k" using a by (cases k) simp_all
  ultimately have "unat (word_reverse cur) div 2 ^ k < unat (word_reverse cur)"
    by (intro div_less_dividend) simp_all
  moreover have "unat (drop_bit k (word_reverse cur)) = drop_bit k (unat (word_reverse cur))"
    by (rule unat_drop_bit_eq)
  ultimately show "((k, stop, push_bit k cur, acc OR push_bit k cur), k, stop, cur, acc)
      \<in> measure (\<lambda>(k, stop, cur, acc). unat (word_reverse cur))"
    by (simp add: rev drop_bit_eq_div)
qed simp

declare rayLeft.simps [simp del]

function rayRight :: "nat \<Rightarrow> Bitboard \<Rightarrow> Bitboard \<Rightarrow> Bitboard \<Rightarrow> Bitboard" where
  "rayRight k stop cur acc =
     (if 0 < k \<and> cur AND NOT stop \<noteq> 0
      then rayRight k stop (drop_bit k cur) (acc OR drop_bit k cur)
      else acc)"
  by pat_completeness auto
termination
proof (relation "measure (\<lambda>(k, stop, cur, acc). unat cur)")
  fix k :: nat and stop cur acc :: Bitboard
  assume a: "0 < k \<and> cur AND NOT stop \<noteq> 0"
  then have nz: "cur \<noteq> 0" by auto
  then have "0 < unat cur" by (simp add: unat_gt_0)
  moreover have "(2::nat) \<le> 2 ^ k" using a by (cases k) simp_all
  ultimately have "unat cur div 2 ^ k < unat cur"
    by (intro div_less_dividend) simp_all
  moreover have "unat (drop_bit k cur) = drop_bit k (unat cur)"
    by (rule unat_drop_bit_eq)
  ultimately show "((k, stop, drop_bit k cur, acc OR drop_bit k cur), k, stop, cur, acc)
      \<in> measure (\<lambda>(k, stop, cur, acc). unat cur)"
    by (simp add: drop_bit_eq_div)
qed simp

declare rayRight.simps [simp del]

definition detail_rookAttack :: "int \<Rightarrow> Bitboard \<Rightarrow> Bitboard" where
  "detail_rookAttack from occupied =
     (let spot = spotOf from;
          mask = 0;
          mask = rayLeft 8 (Rank8 OR occupied) spot mask;
          mask = rayRight 8 (Rank1 OR occupied) spot mask;
          mask = rayLeft 1 (hFile OR occupied) spot mask;
          mask = rayRight 1 (aFile OR occupied) spot mask
      in mask AND NOT spot)"

definition detail_bishopAttack :: "int \<Rightarrow> Bitboard \<Rightarrow> Bitboard" where
  "detail_bishopAttack from occupied =
     (let spot = spotOf from;
          mask = 0;
          mask = rayLeft 9 (Rank8 OR hFile OR occupied) spot mask;
          mask = rayLeft 7 (Rank8 OR aFile OR occupied) spot mask;
          mask = rayRight 9 (Rank1 OR aFile OR occupied) spot mask;
          mask = rayRight 7 (Rank1 OR hFile OR occupied) spot mask
      in mask AND NOT spot)"

text \<open>
  \<open>_pext_u64\<close> and \<open>_pdep_u64\<close> are the BMI2 instructions: \<open>pext\<close> gathers the bits
  of the source selected by the mask into the low bits of the result, \<open>pdep\<close> scatters
  the low bits of the source to the positions the mask selects. Both go through the mask
  from its lowest bit.
\<close>

function pext :: "64 word \<Rightarrow> 64 word \<Rightarrow> 64 word" where
  "pext src msk =
     (if msk = 0 then 0
      else if bit msk 0
        then push_bit 1 (pext (drop_bit 1 src) (drop_bit 1 msk)) OR (src AND 1)
        else pext (drop_bit 1 src) (drop_bit 1 msk))"
  by pat_completeness auto
termination
proof (relation "measure (\<lambda>(src, msk). unat msk)")
  fix src msk :: "64 word"
  assume "msk \<noteq> 0"
  then have "0 < unat msk" by (simp add: unat_gt_0)
  then have "unat msk div 2 < unat msk" by simp
  then show "((drop_bit 1 src, drop_bit 1 msk), src, msk) \<in> measure (\<lambda>(src, msk). unat msk)"
    by (simp add: drop_bit_eq_div unat_div)
  then show "((drop_bit 1 src, drop_bit 1 msk), src, msk) \<in> measure (\<lambda>(src, msk). unat msk)" .
qed simp

declare pext.simps [simp del]

function pdep :: "64 word \<Rightarrow> 64 word \<Rightarrow> 64 word" where
  "pdep src msk =
     (if msk = 0 then 0
      else if bit msk 0
        then push_bit 1 (pdep (drop_bit 1 src) (drop_bit 1 msk)) OR (src AND 1)
        else push_bit 1 (pdep src (drop_bit 1 msk)))"
  by pat_completeness auto
termination
proof (relation "measure (\<lambda>(src, msk). unat msk)")
  fix src msk :: "64 word"
  assume "msk \<noteq> 0"
  then have "0 < unat msk" by (simp add: unat_gt_0)
  then have "unat msk div 2 < unat msk" by simp
  then show "((drop_bit 1 src, drop_bit 1 msk), src, msk) \<in> measure (\<lambda>(src, msk). unat msk)"
    by (simp add: drop_bit_eq_div unat_div)
  then show "((src, drop_bit 1 msk), src, msk) \<in> measure (\<lambda>(src, msk). unat msk)"
    by simp
qed simp

declare pdep.simps [simp del]

text \<open>
  The slider tables as \<open>lookup::init\<close> fills them:
  \<open>rookAttacks[i * 4096 + j] = detail::rookAttack(i, _pdep_u64(j, rookBlocker[i]))\<close> for
  \<open>i < 64\<close> and \<open>j < 4096\<close>, and likewise for bishops with 512. \<open>Game\<close>'s constructor
  calls \<open>lookup::init\<close> before anything else, so the tables are the filled ones.
\<close>

definition rookAttacks :: "nat \<Rightarrow> Bitboard" where
  "rookAttacks idx =
     (let i = idx div 4096; j = idx mod 4096 in
      detail_rookAttack (int i) (pdep (of_nat j) (rookBlocker ! i)))"

definition bishopAttacks :: "nat \<Rightarrow> Bitboard" where
  "bishopAttacks idx =
     (let i = idx div 512; j = idx mod 512 in
      detail_bishopAttack (int i) (pdep (of_nat j) (bishopBlocker ! i)))"

definition bishopAttack :: "int \<Rightarrow> Bitboard \<Rightarrow> Bitboard" where
  "bishopAttack from occupied =
     bishopAttacks (nat (push_bit 9 from) + unat (pext occupied (bishopBlocker ! nat from)))"

definition rookAttack :: "int \<Rightarrow> Bitboard \<Rightarrow> Bitboard" where
  "rookAttack from occupied =
     rookAttacks (nat (push_bit 12 from) + unat (pext occupied (rookBlocker ! nat from)))"

definition queenAttack :: "int \<Rightarrow> Bitboard \<Rightarrow> Bitboard" where
  "queenAttack from occupied = bishopAttack from occupied OR rookAttack from occupied"

section \<open>Zobrist keys (zobrist.hpp)\<close>

text \<open>
  \<open>PRNG::rand64\<close>: three xorshift steps on the seed, then the product with a constant,
  modulo \<open>2^64\<close>. The model returns the number and the new seed.
\<close>

definition rand64_seed :: "64 word \<Rightarrow> 64 word" where
  "rand64_seed seed =
     (let seed = seed XOR drop_bit 12 seed;
          seed = seed XOR push_bit 25 seed;
          seed = seed XOR drop_bit 27 seed
      in seed)"

definition rand64 :: "64 word \<Rightarrow> 64 word \<times> 64 word" where
  "rand64 seed = (rand64_seed seed * 2685821657736338717, rand64_seed seed)"

text \<open>\<open>n\<close> successive draws, as each \<open>for\<close> loop of \<open>zobrist::init\<close> makes them.\<close>

fun draws :: "nat \<Rightarrow> 64 word \<Rightarrow> 64 word list \<times> 64 word" where
  "draws 0 seed = ([], seed)"
| "draws (Suc n) seed =
     (case rand64 seed of (v, seed') \<Rightarrow>
        (case draws n seed' of (vs, seed'') \<Rightarrow> (v # vs, seed'')))"

record Zobrist =
  pieceSquareTable :: "64 word list list"
  enPassantTable :: "64 word list"
  castlingTable :: "64 word list"
  side :: "64 word"
  noPawns :: "64 word"

text \<open>
  The rows of \<open>pieceSquareTable[16][64]\<close> are filled in the order in which \<open>init\<close> lists
  the twelve pieces; the rows 6, 7, 14 and 15 keep the zeros of static storage.
\<close>

fun fillRows :: "Piece list \<Rightarrow> 64 word list list \<Rightarrow> 64 word \<Rightarrow> 64 word list list \<times> 64 word" where
  "fillRows [] table seed = (table, seed)"
| "fillRows (piece # pieces) table seed =
     (case draws 64 seed of (row, seed') \<Rightarrow>
        fillRows pieces (table[pieceIndex piece := row]) seed')"

definition zobrist_init :: Zobrist where
  "zobrist_init =
     (case fillRows allPieces (replicate 16 (replicate 64 0)) 1070372 of (pst, seed) \<Rightarrow>
      case draws 8 seed of (ep, seed) \<Rightarrow>
      case draws 16 seed of (cr, seed) \<Rightarrow>
      case rand64 seed of (sd, seed) \<Rightarrow>
      case rand64 seed of (np, seed) \<Rightarrow>
        \<lparr> pieceSquareTable = pst, enPassantTable = ep, castlingTable = cr,
          side = sd, noPawns = np \<rparr>)"

text \<open>\<open>zobrist::pieceSquareTable[(size_t)piece][square]\<close>.\<close>

definition pieceSquareKey :: "Piece \<Rightarrow> int \<Rightarrow> 64 word" where
  "pieceSquareKey piece square = pieceSquareTable zobrist_init ! pieceIndex piece ! nat square"

definition enPassantKey :: "int \<Rightarrow> 64 word" where
  "enPassantKey square = enPassantTable zobrist_init ! nat (fileOf square)"

definition castlingKey :: "CastlingFlags \<Rightarrow> 64 word" where
  "castlingKey cr = castlingTable zobrist_init ! unat cr"

section \<open>Game operations (game.hpp)\<close>

definition turn :: "Game \<Rightarrow> Color" where
  "turn g = m_turn g"

definition board :: "Game \<Rightarrow> Board" where
  "board g = m_board g"

definition castlingRights :: "Game \<Rightarrow> CastlingFlags" where
  "castlingRights g = m_castlingRights g"

definition enPassantSquare :: "Game \<Rightarrow> int" where
  "enPassantSquare g = m_enPassantSquare g"

definition ply :: "Game \<Rightarrow> int" where
  "ply g = m_ply g"

definition zobristHash :: "Game \<Rightarrow> 64 word" where
  "zobristHash g = m_history g ! nat (ply g)"

definition setupIncrementalState :: "Game \<Rightarrow> Game" where
  "setupIncrementalState g =
     (let hash = foldBits (\<lambda>square h. h XOR pieceSquareKey (pieceAt (m_board g) square) square)
                   (m_occupied (m_board g)) 0;
          hash = (if m_turn g = Black then hash XOR side zobrist_init else hash);
          hash = (if m_enPassantSquare g \<noteq> SquareNone
                  then hash XOR enPassantKey (m_enPassantSquare g) else hash);
          hash = hash XOR castlingKey (m_castlingRights g)
      in g\<lparr> m_hash := hash, m_history := (m_history g)[nat (m_ply g) := hash] \<rparr>)"

subsection \<open>Reading a FEN\<close>

text \<open>
  \<open>init\<close> walks a character pointer through the FEN, which has to be valid (the source
  says so and checks nothing). Each loop below runs to the next space and steps over it;
  a text that ends earlier makes the source read past its end, where the model stops.
\<close>

definition fenPieces :: "(char \<times> Piece) list" where
  "fenPieces =
     [(CHR ''P'', WhitePawn), (CHR ''N'', WhiteKnight), (CHR ''B'', WhiteBishop),
      (CHR ''R'', WhiteRook), (CHR ''Q'', WhiteQueen), (CHR ''K'', WhiteKing),
      (CHR ''p'', BlackPawn), (CHR ''n'', BlackKnight), (CHR ''b'', BlackBishop),
      (CHR ''r'', BlackRook), (CHR ''q'', BlackQueen), (CHR ''k'', BlackKing)]"

fun parsePlacement :: "int \<Rightarrow> int \<Rightarrow> Board \<Rightarrow> string \<Rightarrow> Board \<times> string" where
  "parsePlacement row col b [] = (b, [])"
| "parsePlacement row col b (c # cs) =
     (if c = CHR '' '' then (b, cs)
      else if c \<in> set ''12345678'' then parsePlacement row (col + (int (of_char c) - 48)) b cs
      else if c = CHR ''/'' then parsePlacement (row - 1) 0 b cs
      else (case map_of fenPieces c of
              Some piece \<Rightarrow> parsePlacement row (col + 1) (putPiece piece (col + row * 8) b) cs
            | None \<Rightarrow> parsePlacement row col b cs))"

fun parseCastling :: "CastlingFlags \<Rightarrow> string \<Rightarrow> CastlingFlags \<times> string" where
  "parseCastling cr [] = (cr, [])"
| "parseCastling cr (c # cs) =
     (if c = CHR '' '' then (cr, cs)
      else if c = CHR ''K'' then parseCastling (cr OR 1) cs
      else if c = CHR ''Q'' then parseCastling (cr OR 2) cs
      else if c = CHR ''k'' then parseCastling (cr OR 4) cs
      else if c = CHR ''q'' then parseCastling (cr OR 8) cs
      else parseCastling cr cs)"

fun parseNumber :: "int \<Rightarrow> string \<Rightarrow> int \<times> string" where
  "parseNumber n [] = (n, [])"
| "parseNumber n (c # cs) =
     (if c = CHR '' '' then (n, cs)
      else parseNumber (n * 10 + (int (of_char c) - 48)) cs)"

definition parseEnPassant :: "string \<Rightarrow> int \<times> string" where
  "parseEnPassant s =
     (case s of
        c # d # cs \<Rightarrow>
          (if c = CHR ''-'' then (SquareNone, cs)
           else ((int (of_char c) - 97) + (int (of_char d) - 49) * 8, drop 1 cs))
      | _ \<Rightarrow> (SquareNone, []))"

definition init :: "string \<Rightarrow> Game \<Rightarrow> Game" where
  "init fen g =
     (case parsePlacement 7 0 emptyBoard fen of (b, s) \<Rightarrow>
      let tn = (case s of c # _ \<Rightarrow> if c = CHR ''w'' then White else Black | [] \<Rightarrow> Black);
          s = drop 2 s in
      case parseCastling 0 s of (cr, s) \<Rightarrow>
      case parseEnPassant s of (ep, s) \<Rightarrow>
      case parseNumber 0 s of (hm, s) \<Rightarrow>
      case parseNumber 0 s of (fm, s) \<Rightarrow>
        setupIncrementalState
          (g\<lparr> m_board := b, m_turn := tn, m_castlingRights := cr, m_enPassantSquare := ep,
              m_halfMoveCounter := hm, m_ply := fm * 2 + int (colorIndex tn) \<rparr>))"

text \<open>
  The constructor \<open>Game(fen)\<close> initialises the tables and calls \<open>init\<close>. It leaves
  \<open>m_history\<close> as it finds it, apart from the slot \<open>init\<close> writes; the model starts
  from zeros.
\<close>

definition newGame :: "string \<Rightarrow> Game" where
  "newGame fen =
     init fen \<lparr> m_board = emptyBoard, m_turn = White, m_history = replicate 512 0, m_hash = 0,
                m_castlingRights = 0, m_enPassantSquare = SquareNone, m_halfMoveCounter = 0,
                m_ply = 0 \<rparr>"

definition QuickFEN_start :: string where
  "QuickFEN_start = ''rnbqkbnr/pppppppp/8/8/8/8/PPPPPPPP/RNBQKBNR w KQkq - 0 1''"

subsection \<open>Make and unmake\<close>

definition make :: "Color \<Rightarrow> Move \<Rightarrow> Game \<Rightarrow> UndoInfo \<times> Game" where
  "make c move g =
     (let from = getFrom move;
          to = getTo move;
          pieceFrom = pieceAt (m_board g) from;
          pieceTo = pieceAt (m_board g) to;
          undoInfo = \<lparr> u_halfMoveCounter = m_halfMoveCounter g,
                       u_capturedPiece = capturedPiece c move pieceTo,
                       u_castlingRights = m_castlingRights g,
                       u_enPassantSquare = word_of_int (m_enPassantSquare g) \<rparr>;
          hmc = m_halfMoveCounter g + 1;
          ply' = m_ply g + 1;
          hmc = (if pieceFrom = makePiece Pawn c \<or> isCapture move then 0 else hmc);
          hash = m_hash g XOR side zobrist_init;
          hash = (if m_enPassantSquare g \<noteq> SquareNone
                  then hash XOR enPassantKey (m_enPassantSquare g) else hash);
          ep = (if isDoublePawnPush move then doublePawnPushEnPassantSquare c move
                else SquareNone);
          hash = (if ep \<noteq> SquareNone then hash XOR enPassantKey ep else hash);
          hash = hash XOR castlingKey (m_castlingRights g);
          cr = m_castlingRights g;
          cr = (if pieceFrom = makePiece King c
                then cr AND notFlags (kingsideCastleFlag c OR queensideCastleFlag c)
                else if pieceFrom = makePiece Rook c
                then (if from = kingsideCastleRookFromSquare c
                      then cr AND notFlags (kingsideCastleFlag c)
                      else if from = queensideCastleRookFromSquare c
                      then cr AND notFlags (queensideCastleFlag c)
                      else cr)
                else cr);
          cr = (if pieceTo = makePiece Rook (notColor c)
                then (if to = kingsideCastleRookFromSquare (notColor c)
                      then cr AND notFlags (kingsideCastleFlag (notColor c))
                      else if to = queensideCastleRookFromSquare (notColor c)
                      then cr AND notFlags (queensideCastleFlag (notColor c))
                      else cr)
                else cr);
          hash = hash XOR castlingKey cr;
          b = m_board g;
          captureDestSquare = captureDestinationSquare c move;
          hash = (if isCapture move
                  then hash XOR pieceSquareKey (pieceAt b captureDestSquare) captureDestSquare
                  else hash);
          b = (if isCapture move then removePiece captureDestSquare b else b);
          promoPiece = promotionPiece c move;
          hash = (if isPromotion move
                  then hash XOR pieceSquareKey pieceFrom from XOR pieceSquareKey promoPiece to
                  else hash XOR pieceSquareKey pieceFrom from XOR pieceSquareKey pieceFrom to);
          b = (if isPromotion move then putPiece promoPiece to (removePiece from b)
               else movePiece from to b);
          rook = makePiece Rook c;
          hash = (if isKingsideCastle move
                  then hash XOR pieceSquareKey rook (kingsideCastleRookFromSquare c)
                            XOR pieceSquareKey rook (kingsideCastleRookToSquare c)
                  else if isQueensideCastle move
                  then hash XOR pieceSquareKey rook (queensideCastleRookFromSquare c)
                            XOR pieceSquareKey rook (queensideCastleRookToSquare c)
                  else hash);
          b = (if isKingsideCastle move
               then movePiece (kingsideCastleRookFromSquare c) (kingsideCastleRookToSquare c) b
               else if isQueensideCastle move
               then movePiece (queensideCastleRookFromSquare c) (queensideCastleRookToSquare c) b
               else b)
      in (undoInfo,
          g\<lparr> m_board := b, m_turn := notColor c, m_history := (m_history g)[nat ply' := hash],
             m_hash := hash, m_castlingRights := cr, m_enPassantSquare := ep,
             m_halfMoveCounter := hmc, m_ply := ply' \<rparr>))"

definition unmake :: "Color \<Rightarrow> Move \<Rightarrow> UndoInfo \<Rightarrow> Game \<Rightarrow> Game" where
  "unmake c move undoInfo g =
     (let captured = u_capturedPiece undoInfo;
          b = m_board g;
          b = (if isPromotion move
               then putPiece (makePiece Pawn c) (getFrom move) (removePiece (getTo move) b)
               else movePiece (getTo move) (getFrom move) b);
          b = (if isCapture move then putPiece captured (captureDestinationSquare c move) b
               else if isKingsideCastle move
               then movePiece (kingsideCastleRookToSquare c) (kingsideCastleRookFromSquare c) b
               else if isQueensideCastle move
               then movePiece (queensideCastleRookToSquare c) (queensideCastleRookFromSquare c) b
               else b)
      in g\<lparr> m_board := b, m_turn := c,
            m_castlingRights := u_castlingRights undoInfo,
            m_halfMoveCounter := u_halfMoveCounter undoInfo,
            m_enPassantSquare := uint (u_enPassantSquare undoInfo),
            m_ply := m_ply g - 1 \<rparr>)"

section \<open>Move generation (movegen.hpp)\<close>

text \<open>The piece bitboards of a colour (the accessors of \<open>Board\<close>).\<close>

definition pawns :: "Color \<Rightarrow> Board \<Rightarrow> Bitboard" where
  "pawns c b = bitboards b ! (if c = White then 0 else 8)"

definition knights :: "Color \<Rightarrow> Board \<Rightarrow> Bitboard" where
  "knights c b = bitboards b ! (if c = White then 1 else 9)"

definition bishops :: "Color \<Rightarrow> Board \<Rightarrow> Bitboard" where
  "bishops c b = bitboards b ! (if c = White then 2 else 10)"

definition rooks :: "Color \<Rightarrow> Board \<Rightarrow> Bitboard" where
  "rooks c b = bitboards b ! (if c = White then 3 else 11)"

definition queens :: "Color \<Rightarrow> Board \<Rightarrow> Bitboard" where
  "queens c b = bitboards b ! (if c = White then 4 else 12)"

definition kings :: "Color \<Rightarrow> Board \<Rightarrow> Bitboard" where
  "kings c b = bitboards b ! (if c = White then 5 else 13)"

definition occupancy :: "Color \<Rightarrow> Board \<Rightarrow> Bitboard" where
  "occupancy c b = m_colorOccupancy b ! (if c = White then 0 else 1)"

definition occupied :: "Board \<Rightarrow> Bitboard" where
  "occupied b = m_occupied b"

definition rightPawnAttack :: "Color \<Rightarrow> Bitboard \<Rightarrow> Bitboard" where
  "rightPawnAttack c ps = push_bit 1 (forward c (ps AND NOT hFile))"

definition leftPawnAttack :: "Color \<Rightarrow> Bitboard \<Rightarrow> Bitboard" where
  "leftPawnAttack c ps = drop_bit 1 (forward c (ps AND NOT aFile))"

definition reverseRightPawnAttack :: "Color \<Rightarrow> Bitboard \<Rightarrow> Bitboard" where
  "reverseRightPawnAttack c right = drop_bit 1 (forward (notColor c) (right AND NOT aFile))"

definition reverseLeftPawnAttack :: "Color \<Rightarrow> Bitboard \<Rightarrow> Bitboard" where
  "reverseLeftPawnAttack c left = push_bit 1 (forward (notColor c) (left AND NOT hFile))"

definition computeCheckmask :: "Color \<Rightarrow> Game \<Rightarrow> Bitboard" where
  "computeCheckmask c game =
     (let checkmask = 0xFFFFFFFFFFFFFFFF;
          b = board game;
          king = kings c b;
          square = toSquare king;
          enemyPawns = pawns (notColor c) b;
          enemyKnights = knights (notColor c) b;
          enemyBishops = bishops (notColor c) b;
          enemyRooks = rooks (notColor c) b;
          enemyQueens = queens (notColor c) b;
          rookAtt = rookAttack square (occupied b);
          checker = rookAtt AND (enemyRooks OR enemyQueens);
          checkmask =
            (if checker \<noteq> 0
             then (if checker AND (checker - 1) \<noteq> 0 then 0
                   else checkmask AND
                        (rookAtt AND (rookAttack (toSquare checker) (occupied b) OR checker)))
             else checkmask);
          bishopAtt = bishopAttack square (occupied b);
          checker = bishopAtt AND (enemyBishops OR enemyQueens);
          checkmask =
            (if checker \<noteq> 0
             then checkmask AND
                  (bishopAtt AND (bishopAttack (toSquare checker) (occupied b) OR checker))
             else checkmask);
          knightAtt = knightAttack square;
          checker = knightAtt AND enemyKnights;
          checkmask = (if checker \<noteq> 0 then checkmask AND checker else checkmask);
          pawnAtt = leftPawnAttack c king OR rightPawnAttack c king;
          checker = pawnAtt AND enemyPawns;
          checkmask = (if checker \<noteq> 0 then checkmask AND checker else checkmask)
      in checkmask)"

definition computeAttackedWithoutKing :: "Color \<Rightarrow> Game \<Rightarrow> Bitboard" where
  "computeAttackedWithoutKing c game =
     (let b = board game;
          king = kings c b;
          banned = 0;
          pl = leftPawnAttack (notColor c) (pawns (notColor c) b);
          pr = rightPawnAttack (notColor c) (pawns (notColor c) b);
          banned = banned OR (pl OR pr);
          banned = banned OR kingAttack (toSquare (kings (notColor c) b));
          banned = foldBits (\<lambda>sq banned. banned OR knightAttack sq) (knights (notColor c) b) banned;
          banned = foldBits (\<lambda>sq banned. banned OR bishopAttack sq (occupied b XOR king))
                     (bishops (notColor c) b OR queens (notColor c) b) banned;
          banned = foldBits (\<lambda>sq banned. banned OR rookAttack sq (occupied b XOR king))
                     (rooks (notColor c) b OR queens (notColor c) b) banned
      in banned)"

definition computeHorizontalVerticalPinmask :: "Color \<Rightarrow> Game \<Rightarrow> Bitboard" where
  "computeHorizontalVerticalPinmask c game =
     (let b = board game;
          king = kings c b;
          kingSquare = toSquare king;
          enemyRooks = rooks (notColor c) b OR queens (notColor c) b;
          probe = rookAttack kingSquare (occupied b);
          potentiallyPinned = probe AND occupancy c b;
          xray = rookAttack kingSquare (occupied b AND NOT potentiallyPinned);
          pinners = xray AND enemyRooks AND NOT probe
      in foldBits
           (\<lambda>pinnerSquare pinmask.
              let pinnedPieceSpot = rookAttack pinnerSquare (occupied b) AND potentiallyPinned
              in pinmask OR
                 ((rookAttack (toSquare pinnedPieceSpot) (occupied b) OR pinnedPieceSpot) AND xray))
           pinners 0)"

definition computeDiagonalPinmask :: "Color \<Rightarrow> Game \<Rightarrow> Bitboard" where
  "computeDiagonalPinmask c game =
     (let b = board game;
          king = kings c b;
          kingSquare = toSquare king;
          enemyBishops = bishops (notColor c) b OR queens (notColor c) b;
          probe = bishopAttack kingSquare (occupied b);
          potentiallyPinned = probe AND occupancy c b;
          xray = bishopAttack kingSquare (occupied b AND NOT potentiallyPinned);
          pinners = xray AND enemyBishops AND NOT probe
      in foldBits
           (\<lambda>pinnerSquare pinmask.
              let pinnedPieceSpot = bishopAttack pinnerSquare (occupied b) AND potentiallyPinned
              in pinmask OR
                 ((bishopAttack (toSquare pinnedPieceSpot) (occupied b) OR pinnedPieceSpot) AND xray))
           pinners 0)"

subsection \<open>The pawn motion bitboards\<close>

text \<open>
  The first part of the pawn block of \<open>legalMoves\<close>, before the sink is looked at: the
  seven bitboards of origin squares (quiet, double push, left and right capture, and the
  three promotion sets), and the pawns that are not pinned along a rank or file.
\<close>

definition pawnMotion :: "Color \<Rightarrow> Game \<Rightarrow> Bitboard \<Rightarrow> Bitboard \<Rightarrow> Bitboard \<Rightarrow> PawnMotion" where
  "pawnMotion c game checkmask pinHV pinD =
     (let b = board game;
          ps = pawns c b;
          pawnsUHV = ps AND NOT pinHV;
          pawnsUD = ps AND NOT pinD;
          quiet = pawnsUD AND forward (notColor c) (NOT (occupied b));
          doublePush = quiet AND pawnStartingRank c AND
                       doubleForward (notColor c) (NOT (occupied b) AND checkmask);
          leftCapture = pawnsUHV AND
                        reverseLeftPawnAttack c (occupancy (notColor c) b AND checkmask);
          rightCapture = pawnsUHV AND
                         reverseRightPawnAttack c (occupancy (notColor c) b AND checkmask);
          quiet = quiet AND forward (notColor c) checkmask;
          quietPinned = quiet AND pinHV;
          quietUnpinned = quiet AND NOT pinHV;
          quiet = (quietPinned AND forward (notColor c) pinHV) OR quietUnpinned;
          doublePushPinned = doublePush AND pinHV;
          doublePushUnpinned = doublePush AND NOT pinHV;
          doublePush = (doublePushPinned AND doubleForward (notColor c) pinHV) OR doublePushUnpinned;
          leftCapturePinned = leftCapture AND pinD;
          leftCaptureUnpinned = leftCapture AND NOT pinD;
          leftCapture = (leftCapturePinned AND reverseLeftPawnAttack c pinD) OR leftCaptureUnpinned;
          rightCapturePinned = rightCapture AND pinD;
          rightCaptureUnpinned = rightCapture AND NOT pinD;
          rightCapture = (rightCapturePinned AND reverseRightPawnAttack c pinD) OR rightCaptureUnpinned
      in \<lparr> pm_quiet = quiet AND NOT (pawnLastRank c),
           pm_doublePush = doublePush,
           pm_leftCapture = leftCapture AND NOT (pawnLastRank c),
           pm_rightCapture = rightCapture AND NOT (pawnLastRank c),
           pm_quietPromotion = quiet AND pawnLastRank c,
           pm_leftCapturePromotion = leftCapture AND pawnLastRank c,
           pm_rightCapturePromotion = rightCapture AND pawnLastRank c,
           pm_pawnsUHV = pawnsUHV \<rparr>)"

subsection \<open>En passant\<close>

text \<open>
  The en-passant block, which the source writes twice with the same text (once for each
  kind of sink). \<open>epSpot\<close> is the en-passant square, \<open>epTarget\<close> the square of the
  pawn to be taken. The candidates are the pawns beside \<open>epTarget\<close>. When only one of
  them exists, the rook attack of the king is computed on the occupancy with both pawns
  taken off and \<open>epSpot\<close> filled, and an enemy rook or queen in it drops the capture. The
  result is \<open>None\<close> when nothing is to be emitted, and the two pruned candidate
  bitboards otherwise.
\<close>

definition epSafe :: "Color \<Rightarrow> Game \<Rightarrow> Bitboard \<Rightarrow> Bitboard \<Rightarrow> Bitboard \<Rightarrow> Bitboard \<Rightarrow> bool" where
  "epSafe c game leftEP rightEP epSpot epTarget \<longleftrightarrow>
     (let b = board game in
      rookAttack (toSquare (kings c b))
        (occupied b XOR (leftEP OR rightEP OR epSpot OR epTarget)) AND
      (rooks (notColor c) b OR queens (notColor c) b) = 0)"

definition enPassantPawns ::
  "Color \<Rightarrow> Game \<Rightarrow> Bitboard \<Rightarrow> Bitboard \<Rightarrow> Bitboard \<Rightarrow> (Bitboard \<times> Bitboard) option" where
  "enPassantPawns c game checkmask pinD pawnsUHV =
     (let epSquare = enPassantSquare game in
      if epSquare \<noteq> SquareNone then
        (let epSpot = spotOf epSquare;
             epTarget = forward (notColor c) epSpot;
             leftEP = pawnsUHV AND NOT aFile AND push_bit 1 (epTarget AND checkmask);
             rightEP = pawnsUHV AND NOT hFile AND drop_bit 1 (epTarget AND checkmask)
         in if (leftEP OR rightEP) \<noteq> 0 \<and>
               ((leftEP \<noteq> 0 \<and> rightEP \<noteq> 0) \<or> epSafe c game leftEP rightEP epSpot epTarget)
            then Some ((leftEP AND pinD AND reverseLeftPawnAttack c pinD) OR (leftEP AND NOT pinD),
                       (rightEP AND pinD AND reverseRightPawnAttack c pinD) OR (rightEP AND NOT pinD))
            else None)
      else None)"

subsection \<open>The castling masks\<close>

definition shouldUnoccupiedKingside :: "Color \<Rightarrow> Bitboard" where
  "shouldUnoccupiedKingside c =
     squaresBetweenUnordered (kingsideCastleRookFromSquare c) (initialKingSquare c)"

definition shouldUnoccupiedQueenside :: "Color \<Rightarrow> Bitboard" where
  "shouldUnoccupiedQueenside c =
     squaresBetweenUnordered (queensideCastleRookFromSquare c) (initialKingSquare c)"

definition shouldNotAttackedKingside :: "Color \<Rightarrow> Bitboard" where
  "shouldNotAttackedKingside c =
     squaresBetweenUnordered (kingsideCastleKingToSquare c) (initialKingSquare c) OR
     spotOf (kingsideCastleKingToSquare c) OR spotOf (initialKingSquare c)"

definition shouldNotAttackedQueenside :: "Color \<Rightarrow> Bitboard" where
  "shouldNotAttackedQueenside c =
     squaresBetweenUnordered (queensideCastleKingToSquare c) (initialKingSquare c) OR
     spotOf (queensideCastleKingToSquare c) OR spotOf (initialKingSquare c)"

definition canCastleKingside :: "Color \<Rightarrow> Game \<Rightarrow> Bitboard \<Rightarrow> bool" where
  "canCastleKingside c game banned \<longleftrightarrow>
     castlingRights game AND kingsideCastleFlag c \<noteq> 0 \<and>
     shouldUnoccupiedKingside c AND occupied (board game) = 0 \<and>
     shouldNotAttackedKingside c AND banned = 0"

definition canCastleQueenside :: "Color \<Rightarrow> Game \<Rightarrow> Bitboard \<Rightarrow> bool" where
  "canCastleQueenside c game banned \<longleftrightarrow>
     castlingRights game AND queensideCastleFlag c \<noteq> 0 \<and>
     shouldUnoccupiedQueenside c AND occupied (board game) = 0 \<and>
     shouldNotAttackedQueenside c AND banned = 0"

subsection \<open>\<open>legalMoves\<close> with a sink that is called for each move\<close>

text \<open>
  The sink is any callable on a move; it is modelled by the function \<open>callback\<close> that
  updates the sink's state \<open>s\<close>. The inner loop over the destinations of one piece, with
  the flag \<open>((enemy >> to) & 1) << 2\<close>, appears six times in the source.
\<close>

definition emitTargets :: "(Move \<Rightarrow> 's \<Rightarrow> 's) \<Rightarrow> Bitboard \<Rightarrow> int \<Rightarrow> Bitboard \<Rightarrow> 's \<Rightarrow> 's" where
  "emitTargets callback enemy from legal s =
     foldBits
       (\<lambda>to s. callback (Move from to (uint (push_bit 2 (drop_bit (nat to) enemy AND 1)))) s)
       legal s"

definition emitPromotions :: "(Move \<Rightarrow> 's \<Rightarrow> 's) \<Rightarrow> int \<Rightarrow> int \<Rightarrow> bool \<Rightarrow> 's \<Rightarrow> 's" where
  "emitPromotions callback from to capture s =
     (if capture then
        callback (Move from to BishopPromotionCapture)
          (callback (Move from to KnightPromotionCapture)
            (callback (Move from to RookPromotionCapture)
              (callback (Move from to QueenPromotionCapture) s)))
      else
        callback (Move from to BishopPromotion)
          (callback (Move from to KnightPromotion)
            (callback (Move from to RookPromotion)
              (callback (Move from to QueenPromotion) s))))"

definition legalPawnMoves ::
  "Color \<Rightarrow> Game \<Rightarrow> Bitboard \<Rightarrow> Bitboard \<Rightarrow> Bitboard \<Rightarrow> (Move \<Rightarrow> 's \<Rightarrow> 's) \<Rightarrow> 's \<Rightarrow> 's" where
  "legalPawnMoves c game checkmask pinHV pinD callback s =
     (let pm = pawnMotion c game checkmask pinHV pinD;
          s = (case enPassantPawns c game checkmask pinD (pm_pawnsUHV pm) of
                 Some (leftEP, rightEP) \<Rightarrow>
                   (let s = (if leftEP \<noteq> 0
                             then callback (Move (toSquare leftEP) (enPassantSquare game)
                                              EnPassantCapture) s
                             else s)
                    in if rightEP \<noteq> 0
                       then callback (Move (toSquare rightEP) (enPassantSquare game)
                                        EnPassantCapture) s
                       else s)
               | None \<Rightarrow> s);
          s = foldBits (\<lambda>from. callback (Move from (forwardSquare c from) QuietMove))
                (pm_quiet pm) s;
          s = foldBits (\<lambda>from. callback (Move from (doubleForwardSquare c from) DoublePawnPush))
                (pm_doublePush pm) s;
          s = foldBits (\<lambda>from. callback (Move from (forwardSquare c from - 1) Capture))
                (pm_leftCapture pm) s;
          s = foldBits (\<lambda>from. callback (Move from (forwardSquare c from + 1) Capture))
                (pm_rightCapture pm) s;
          s = foldBits (\<lambda>from. emitPromotions callback from (forwardSquare c from) False)
                (pm_quietPromotion pm) s;
          s = foldBits (\<lambda>from. emitPromotions callback from (forwardSquare c from - 1) True)
                (pm_leftCapturePromotion pm) s;
          s = foldBits (\<lambda>from. emitPromotions callback from (forwardSquare c from + 1) True)
                (pm_rightCapturePromotion pm) s
      in s)"

definition legalMoves :: "Color \<Rightarrow> Game \<Rightarrow> (Move \<Rightarrow> 's \<Rightarrow> 's) \<Rightarrow> 's \<Rightarrow> 's" where
  "legalMoves c game callback s =
     (let b = board game;
          king = kings c b;
          checkmask = computeCheckmask c game;
          pinHV = computeHorizontalVerticalPinmask c game;
          pinD = computeDiagonalPinmask c game;
          moveable = NOT (occupancy c b) AND checkmask;
          enemy = occupancy (notColor c) b;
          s = legalPawnMoves c game checkmask pinHV pinD callback s;
          s = foldBits
                (\<lambda>from. emitTargets callback enemy from (knightAttack from AND moveable))
                (knights c b AND NOT (pinHV OR pinD)) s;
          bishopsQueens = (bishops c b OR queens c b) AND NOT pinHV;
          s = foldBits
                (\<lambda>from. emitTargets callback enemy from
                           (bishopAttack from (occupied b) AND moveable))
                (bishopsQueens AND NOT pinD) s;
          s = foldBits
                (\<lambda>from. emitTargets callback enemy from
                           (bishopAttack from (occupied b) AND moveable AND pinD))
                (bishopsQueens AND pinD) s;
          rooksQueens = (rooks c b OR queens c b) AND NOT pinD;
          s = foldBits
                (\<lambda>from. emitTargets callback enemy from
                           (rookAttack from (occupied b) AND moveable))
                (rooksQueens AND NOT pinHV) s;
          s = foldBits
                (\<lambda>from. emitTargets callback enemy from
                           (rookAttack from (occupied b) AND moveable AND pinHV))
                (rooksQueens AND pinHV) s;
          banned = computeAttackedWithoutKing c game;
          kingSquare = toSquare king;
          kingMoves = NOT banned AND kingAttack kingSquare AND NOT (occupancy c b);
          s = (if canCastleKingside c game banned
               then callback (Move kingSquare (kingSquare + 2) KingCastle) s else s);
          s = (if canCastleQueenside c game banned
               then callback (Move kingSquare (kingSquare - 2) QueenCastle) s else s);
          s = emitTargets callback enemy kingSquare kingMoves s
      in s)"

text \<open>
  The moves a position emits, in order: the generator run with a sink that appends each
  move to a list (what a \<open>MoveList\<close> holds afterwards, while it has room).
\<close>

definition emittedMoves :: "Color \<Rightarrow> Game \<Rightarrow> Move list" where
  "emittedMoves c game = legalMoves c game (\<lambda>m ms. ms @ [m]) []"

subsection \<open>\<open>legalMoves\<close> with the counting sink\<close>

text \<open>
  The branches taken when the sink is a \<open>MoveCounter\<close>. Its \<open>count\<close> is an \<open>int\<close>;
  it is the sum of at most a few thousand, so it is modelled without a width.
\<close>

definition countPawnMoves :: "Color \<Rightarrow> Game \<Rightarrow> Bitboard \<Rightarrow> Bitboard \<Rightarrow> Bitboard \<Rightarrow> int \<Rightarrow> int" where
  "countPawnMoves c game checkmask pinHV pinD count =
     (let pm = pawnMotion c game checkmask pinHV pinD;
          count = count +
            (int (popcount (pm_quiet pm)) + int (popcount (pm_doublePush pm)) +
             int (popcount (pm_leftCapture pm)) + int (popcount (pm_rightCapture pm)) +
             4 * (int (popcount (pm_quietPromotion pm)) + int (popcount (pm_leftCapturePromotion pm)) +
                  int (popcount (pm_rightCapturePromotion pm))))
      in case enPassantPawns c game checkmask pinD (pm_pawnsUHV pm) of
           Some (leftEP, rightEP) \<Rightarrow>
             count + ((if leftEP \<noteq> 0 then 1 else 0) + (if rightEP \<noteq> 0 then 1 else 0))
         | None \<Rightarrow> count)"

definition legalMovesCounter :: "Color \<Rightarrow> Game \<Rightarrow> int \<Rightarrow> int" where
  "legalMovesCounter c game count =
     (let b = board game;
          king = kings c b;
          checkmask = computeCheckmask c game;
          pinHV = computeHorizontalVerticalPinmask c game;
          pinD = computeDiagonalPinmask c game;
          moveable = NOT (occupancy c b) AND checkmask;
          count = countPawnMoves c game checkmask pinHV pinD count;
          count = foldBits
                (\<lambda>from count. count + int (popcount (knightAttack from AND moveable)))
                (knights c b AND NOT (pinHV OR pinD)) count;
          bishopsQueens = (bishops c b OR queens c b) AND NOT pinHV;
          count = foldBits
                (\<lambda>from count. count + int (popcount (bishopAttack from (occupied b) AND moveable)))
                (bishopsQueens AND NOT pinD) count;
          count = foldBits
                (\<lambda>from count.
                   count + int (popcount (bishopAttack from (occupied b) AND moveable AND pinD)))
                (bishopsQueens AND pinD) count;
          rooksQueens = (rooks c b OR queens c b) AND NOT pinD;
          count = foldBits
                (\<lambda>from count. count + int (popcount (rookAttack from (occupied b) AND moveable)))
                (rooksQueens AND NOT pinHV) count;
          count = foldBits
                (\<lambda>from count.
                   count + int (popcount (rookAttack from (occupied b) AND moveable AND pinHV)))
                (rooksQueens AND pinHV) count;
          banned = computeAttackedWithoutKing c game;
          kingSquare = toSquare king;
          kingMoves = NOT banned AND kingAttack kingSquare AND NOT (occupancy c b);
          count = count + int (popcount kingMoves);
          count = (if canCastleKingside c game banned then count + 1 else count);
          count = (if canCastleQueenside c game banned then count + 1 else count)
      in count)"

text \<open>\<open>legalMoveCount\<close> starts a counter at 0 and returns its \<open>count\<close> as a \<open>uint64_t\<close>.\<close>

definition legalMoveCount :: "Color \<Rightarrow> Game \<Rightarrow> 64 word" where
  "legalMoveCount c game = word_of_int (legalMovesCounter c game 0)"

section \<open>Reading a UCI move (helper.hpp)\<close>

definition convertToSquare :: "string \<Rightarrow> int" where
  "convertToSquare str =
     (if length str \<noteq> 2 then SquareNone
      else
        (let letter = of_char (str ! 0) :: nat; number = of_char (str ! 1) :: nat in
         if letter < of_char CHR ''a'' \<or> letter > of_char CHR ''h'' \<or>
            number < of_char CHR ''1'' \<or> number > of_char CHR ''8''
         then SquareNone
         else (int number - int (of_char CHR ''1'')) * 8 + (int letter - int (of_char CHR ''a''))))"

text \<open>The promotion flags a fifth character selects: without capture, with capture.\<close>

definition promotionFlags :: "string \<Rightarrow> int \<times> int" where
  "promotionFlags str =
     (if length str = 5 then
        (let ch = str ! 4 in
         if ch = CHR ''q'' then (QueenPromotion, QueenPromotionCapture)
         else if ch = CHR ''r'' then (RookPromotion, RookPromotionCapture)
         else if ch = CHR ''b'' then (BishopPromotion, BishopPromotionCapture)
         else if ch = CHR ''n'' then (KnightPromotion, KnightPromotionCapture)
         else (Zero, Zero))
      else (Zero, Zero))"

definition convertPawnMove :: "Color \<Rightarrow> Game \<Rightarrow> string \<Rightarrow> int \<Rightarrow> int \<Rightarrow> bool \<Rightarrow> Move" where
  "convertPawnMove c game str startSquare endSquare destEmpty =
     (let startSpot = spotOf startSquare; endSpot = spotOf endSquare in
      if startSpot AND pawnLastRank c \<noteq> 0 then
        (case promotionFlags str of (promo, promoCapture) \<Rightarrow>
           if forward c startSpot = endSpot \<and> destEmpty
           then Move startSquare endSquare promo
           else if leftPawnAttack c startSpot = endSpot \<and> \<not> destEmpty
           then Move startSquare endSquare promoCapture
           else if rightPawnAttack c startSpot = endSpot \<and> \<not> destEmpty
           then Move startSquare endSquare promoCapture
           else nullMove)
      else if forward c startSpot = endSpot \<and> destEmpty
      then Move startSquare endSquare QuietMove
      else if doubleForward c (startSpot AND pawnStartingRank c) = endSpot \<and>
              pieceAt (board game) (forwardSquare c startSquare) = PieceNone \<and> destEmpty
      then Move startSquare endSquare DoublePawnPush
      else if leftPawnAttack c startSpot = endSpot \<and> \<not> destEmpty
      then Move startSquare endSquare Capture
      else if rightPawnAttack c startSpot = endSpot \<and> \<not> destEmpty
      then Move startSquare endSquare Capture
      else
        (let epSquare = enPassantSquare game in
         if epSquare = endSquare \<and> startSpot AND pawnEnPassantRank c \<noteq> 0 \<and>
            (leftPawnAttack c startSpot = spotOf epSquare \<or>
             rightPawnAttack c startSpot = spotOf epSquare) \<and> destEmpty
         then Move startSquare endSquare EnPassantCapture
         else nullMove))"

definition convertToMove :: "Color \<Rightarrow> Game \<Rightarrow> string \<Rightarrow> Move" where
  "convertToMove c game str =
     (if length str \<noteq> 4 \<and> length str \<noteq> 5 then nullMove
      else
        (let startSquare = convertToSquare (take 2 str);
             endSquare = convertToSquare (take 2 (drop 2 str)) in
         if startSquare = SquareNone \<or> endSquare = SquareNone then nullMove
         else
           (let pieceFrom = pieceAt (board game) startSquare;
                pieceTo = pieceAt (board game) endSquare in
            if pieceFrom = PieceNone \<or> getPieceColor pieceFrom \<noteq> c \<or>
               (pieceTo \<noteq> PieceNone \<and> getPieceColor pieceTo = c)
            then nullMove
            else
              (let endSpot = spotOf endSquare;
                   destEmpty = (pieceTo = PieceNone);
                   plain = Move startSquare endSquare (if destEmpty then QuietMove else Capture)
               in case getPieceType pieceFrom of
                    Some Pawn \<Rightarrow> convertPawnMove c game str startSquare endSquare destEmpty
                  | Some Knight \<Rightarrow>
                      if knightAttack startSquare AND endSpot \<noteq> 0 then plain else nullMove
                  | Some King \<Rightarrow>
                      if kingAttack startSquare AND endSpot \<noteq> 0 then plain
                      else if startSquare = initialKingSquare c \<and>
                              endSquare = kingsideCastleKingToSquare c \<and>
                              occupied (board game) AND shouldUnoccupiedKingside c = 0
                      then Move startSquare endSquare KingCastle
                      else if startSquare = initialKingSquare c \<and>
                              endSquare = queensideCastleKingToSquare c \<and>
                              occupied (board game) AND shouldUnoccupiedQueenside c = 0
                      then Move startSquare endSquare QueenCastle
                      else nullMove
                  | Some Bishop \<Rightarrow>
                      if bishopAttack startSquare (occupied (board game)) AND endSpot \<noteq> 0
                      then plain else nullMove
                  | Some Rook \<Rightarrow>
                      if rookAttack startSquare (occupied (board game)) AND endSpot \<noteq> 0
                      then plain else nullMove
                  | Some Queen \<Rightarrow>
                      if queenAttack startSquare (occupied (board game)) AND endSpot \<noteq> 0
                      then plain else nullMove
                  | None \<Rightarrow> nullMove))))"

section \<open>The squares of a bitboard\<close>

text \<open>
  The squares a \<open>popLSB\<close> loop visits, in the order in which it visits them: the set
  bits of the bitboard from the lowest. It is what the theorems about the loops of the
  generator are stated with.
\<close>

definition squaresOf :: "Bitboard \<Rightarrow> int list" where
  "squaresOf bb = foldBits (\<lambda>sq l. l @ [sq]) bb []"

subsection \<open>Test positions\<close>

definition game_start :: Game where
  "game_start = newGame QuickFEN_start"

definition game_castle :: Game where
  "game_castle = newGame ''4k2r/8/8/8/8/8/8/4K3 b k - 0 1''"

definition game_ep :: Game where
  "game_ep = newGame ''8/8/8/KPp4r/8/8/8/4k3 w - c6 0 1''"

definition game_ep2 :: Game where
  "game_ep2 = newGame ''8/8/8/KPpP3r/8/8/8/4k3 w - c6 0 1''"

definition game_promo :: Game where
  "game_promo = newGame ''7k/P7/8/8/8/8/8/K7 w - - 0 1''"

section \<open>The emitted moves as lists\<close>

text \<open>
  The moves that \<open>legalMoves\<close> hands to a collecting sink, block by block and in the
  order of the source: the en-passant captures, the pawn pushes and captures, the
  promotions, the moves of knights, bishops, rooks and queens, the castling moves and the
  king moves. That their concatenation is what the generator emits is the lemma
  \<open>emittedMoves_eq\<close> below.
\<close>

definition promotionMoves :: "int \<Rightarrow> int \<Rightarrow> bool \<Rightarrow> Move list" where
  "promotionMoves from to capture =
     (if capture
      then [Move from to QueenPromotionCapture, Move from to RookPromotionCapture,
            Move from to KnightPromotionCapture, Move from to BishopPromotionCapture]
      else [Move from to QueenPromotion, Move from to RookPromotion,
            Move from to KnightPromotion, Move from to BishopPromotion])"

definition targetMoves :: "Bitboard \<Rightarrow> int \<Rightarrow> Bitboard \<Rightarrow> Move list" where
  "targetMoves enemy from legal =
     map (\<lambda>to. Move from to (uint (push_bit 2 (drop_bit (nat to) enemy AND 1)))) (squaresOf legal)"

definition enPassantMoves :: "Color \<Rightarrow> Game \<Rightarrow> Bitboard \<Rightarrow> Bitboard \<Rightarrow> Bitboard \<Rightarrow> Move list" where
  "enPassantMoves c game checkmask pinD uhv =
     (case enPassantPawns c game checkmask pinD uhv of
        Some (leftEP, rightEP) \<Rightarrow>
          (if leftEP \<noteq> 0
           then [Move (toSquare leftEP) (enPassantSquare game) EnPassantCapture] else []) @
          (if rightEP \<noteq> 0
           then [Move (toSquare rightEP) (enPassantSquare game) EnPassantCapture] else [])
      | None \<Rightarrow> [])"

definition plainPawnMoves :: "Color \<Rightarrow> Game \<Rightarrow> Bitboard \<Rightarrow> Bitboard \<Rightarrow> Bitboard \<Rightarrow> Move list" where
  "plainPawnMoves c game checkmask pinHV pinD =
     (let pm = pawnMotion c game checkmask pinHV pinD in
      map (\<lambda>from. Move from (forwardSquare c from) QuietMove) (squaresOf (pm_quiet pm)) @
      map (\<lambda>from. Move from (doubleForwardSquare c from) DoublePawnPush)
        (squaresOf (pm_doublePush pm)) @
      map (\<lambda>from. Move from (forwardSquare c from - 1) Capture) (squaresOf (pm_leftCapture pm)) @
      map (\<lambda>from. Move from (forwardSquare c from + 1) Capture) (squaresOf (pm_rightCapture pm)))"

definition promotionSteps ::
  "Color \<Rightarrow> Game \<Rightarrow> Bitboard \<Rightarrow> Bitboard \<Rightarrow> Bitboard \<Rightarrow> (int \<times> int \<times> bool) list" where
  "promotionSteps c game checkmask pinHV pinD =
     (let pm = pawnMotion c game checkmask pinHV pinD in
      map (\<lambda>from. (from, forwardSquare c from, False)) (squaresOf (pm_quietPromotion pm)) @
      map (\<lambda>from. (from, forwardSquare c from - 1, True))
        (squaresOf (pm_leftCapturePromotion pm)) @
      map (\<lambda>from. (from, forwardSquare c from + 1, True))
        (squaresOf (pm_rightCapturePromotion pm)))"

definition pawnPromotions :: "Color \<Rightarrow> Game \<Rightarrow> Bitboard \<Rightarrow> Bitboard \<Rightarrow> Bitboard \<Rightarrow> Move list" where
  "pawnPromotions c game checkmask pinHV pinD =
     concat (map (\<lambda>(from, to, capture). promotionMoves from to capture)
               (promotionSteps c game checkmask pinHV pinD))"

definition pieceMoves :: "Color \<Rightarrow> Game \<Rightarrow> Bitboard \<Rightarrow> Bitboard \<Rightarrow> Bitboard \<Rightarrow> Move list" where
  "pieceMoves c game checkmask pinHV pinD =
     (let b = board game;
          moveable = NOT (occupancy c b) AND checkmask;
          enemy = occupancy (notColor c) b;
          bishopsQueens = (bishops c b OR queens c b) AND NOT pinHV;
          rooksQueens = (rooks c b OR queens c b) AND NOT pinD
      in concat (map (\<lambda>from. targetMoves enemy from (knightAttack from AND moveable))
                   (squaresOf (knights c b AND NOT (pinHV OR pinD)))) @
         concat (map (\<lambda>from. targetMoves enemy from (bishopAttack from (occupied b) AND moveable))
                   (squaresOf (bishopsQueens AND NOT pinD))) @
         concat (map (\<lambda>from. targetMoves enemy from
                                 (bishopAttack from (occupied b) AND moveable AND pinD))
                   (squaresOf (bishopsQueens AND pinD))) @
         concat (map (\<lambda>from. targetMoves enemy from (rookAttack from (occupied b) AND moveable))
                   (squaresOf (rooksQueens AND NOT pinHV))) @
         concat (map (\<lambda>from. targetMoves enemy from
                                 (rookAttack from (occupied b) AND moveable AND pinHV))
                   (squaresOf (rooksQueens AND pinHV))))"

definition castlingMoves :: "Color \<Rightarrow> Game \<Rightarrow> Move list" where
  "castlingMoves c game =
     (let banned = computeAttackedWithoutKing c game;
          kingSquare = toSquare (kings c (board game))
      in (if canCastleKingside c game banned
          then [Move kingSquare (kingSquare + 2) KingCastle] else []) @
         (if canCastleQueenside c game banned
          then [Move kingSquare (kingSquare - 2) QueenCastle] else []))"

definition kingMoves :: "Color \<Rightarrow> Game \<Rightarrow> Move list" where
  "kingMoves c game =
     (let b = board game;
          banned = computeAttackedWithoutKing c game;
          kingSquare = toSquare (kings c b)
      in targetMoves (occupancy (notColor c) b) kingSquare
           (NOT banned AND kingAttack kingSquare AND NOT (occupancy c b)))"

text \<open>The squares of a move that the generator builds lie on the board.\<close>

definition onBoard :: "int \<Rightarrow> bool" where
  "onBoard sq \<longleftrightarrow> 0 \<le> sq \<and> sq < 64"

section \<open>Theorems\<close>

subsection \<open>The 50-move rule query\<close>

text \<open>
  C10. \<open>draw50MoveRule\<close> is true exactly when the halfmove clock is greater than 99,
  that is at least 100, and its result is a function of the halfmove clock alone: it is
  the same in any two games, whatever their other components, once the clock is the
  given one.
\<close>

theorem draw50MoveRule_iff:
  "(draw50MoveRule g \<longleftrightarrow> 99 < m_halfMoveCounter g) \<and>
   (draw50MoveRule g \<longleftrightarrow> 100 \<le> m_halfMoveCounter g) \<and>
   draw50MoveRule (g'\<lparr> m_halfMoveCounter := m_halfMoveCounter g \<rparr>) = draw50MoveRule g"
  by (auto simp: draw50MoveRule_def halfMoveCounter_def)

subsection \<open>The board primitives keep the summaries\<close>

lemma pieceIndex_inj: "pieceIndex p = pieceIndex q \<longleftrightarrow> p = q"
  by (cases p; cases q) simp_all

lemma pieceIndex_lt14: "p \<noteq> PieceNone \<Longrightarrow> pieceIndex p < 14"
  by (cases p) simp_all

lemma colorIndex_lt2: "colorIndex c < 2"
  by (cases c) simp_all

lemma colorIndex_eq: "colorIndex c = 0 \<longleftrightarrow> c = White" "colorIndex c = Suc 0 \<longleftrightarrow> c = Black"
  by (cases c; simp)+

lemma in_allPieces: "p \<in> set allPieces \<longleftrightarrow> p \<noteq> PieceNone"
  by (cases p) (simp_all add: allPieces_def whitePieces_def blackPieces_def)

lemma in_whitePieces: "p \<in> set whitePieces \<longleftrightarrow> p \<noteq> PieceNone \<and> getPieceColor p = White"
  by (cases p; simp add: whitePieces_def getPieceColor_def)

lemma in_blackPieces: "p \<in> set blackPieces \<longleftrightarrow> p \<noteq> PieceNone \<and> getPieceColor p = Black"
  by (cases p; simp add: blackPieces_def getPieceColor_def)

lemma bit_unionOf: "bit (unionOf bbs ps) n \<longleftrightarrow> (\<exists>p \<in> set ps. bit (bbs ! pieceIndex p) n)"
  by (induction ps) (auto simp: bit_simps)

lemma bit_spotOf: "bit (spotOf sq) n \<longleftrightarrow> n = nat sq \<and> n < 64"
  by (auto simp: spotOf_def bit_simps)

lemma boardInv_iff_mailboxInv: "boardInv b \<longleftrightarrow> mailboxInv b"
proof
  assume bi: "boardInv b"
  have mb: "\<forall>n < 64. \<forall>q. q \<noteq> PieceNone \<longrightarrow> (mailbox b ! n = q) = bit (bitboards b ! pieceIndex q) n"
    using bi by (simp add: boardInv_def in_allPieces)
  have ex: "(\<exists>q. q \<noteq> PieceNone \<and> P q \<and> bit (bitboards b ! pieceIndex q) n)
      \<longleftrightarrow> mailbox b ! n \<noteq> PieceNone \<and> P (mailbox b ! n)" if "n < 64" for n P
    using mb that by auto
  have "\<forall>n < 64. bit (m_occupied b) n = (mailbox b ! n \<noteq> PieceNone)"
    using bi ex[of _ "\<lambda>_. True"] by (simp add: boardInv_def bit_unionOf in_allPieces Bex_def)
  moreover have "\<forall>n < 64. bit (m_colorOccupancy b ! 0) n =
        (mailbox b ! n \<noteq> PieceNone \<and> getPieceColor (mailbox b ! n) = White)"
    using bi ex[of _ "\<lambda>q. getPieceColor q = White"]
    by (simp add: boardInv_def bit_unionOf in_whitePieces Bex_def)
  moreover have "\<forall>n < 64. bit (m_colorOccupancy b ! 1) n =
        (mailbox b ! n \<noteq> PieceNone \<and> getPieceColor (mailbox b ! n) = Black)"
    using bi ex[of _ "\<lambda>q. getPieceColor q = Black"]
    by (simp add: boardInv_def bit_unionOf in_blackPieces Bex_def)
  ultimately show "mailboxInv b"
    using bi mb unfolding mailboxInv_def by (simp add: boardInv_def)
next
  assume m: "mailboxInv b"
  have mb: "\<forall>n < 64. \<forall>q. q \<noteq> PieceNone \<longrightarrow> (mailbox b ! n = q) = bit (bitboards b ! pieceIndex q) n"
    using m by (simp add: mailboxInv_def)
  have ex: "(\<exists>q. q \<noteq> PieceNone \<and> P q \<and> bit (bitboards b ! pieceIndex q) n)
      \<longleftrightarrow> mailbox b ! n \<noteq> PieceNone \<and> P (mailbox b ! n)" if "n < 64" for n P
    using mb that by auto
  have a: "m_occupied b = unionOf (bitboards b) allPieces"
    by (rule bit_word_eqI)
      (use m ex[of _ "\<lambda>_. True"] in \<open>simp add: mailboxInv_def bit_unionOf in_allPieces Bex_def\<close>)
  have w: "m_colorOccupancy b ! 0 = unionOf (bitboards b) whitePieces"
    by (rule bit_word_eqI)
      (use m ex[of _ "\<lambda>q. getPieceColor q = White"] in
        \<open>simp add: mailboxInv_def bit_unionOf in_whitePieces Bex_def\<close>)
  have k: "m_colorOccupancy b ! 1 = unionOf (bitboards b) blackPieces"
    by (rule bit_word_eqI)
      (use m ex[of _ "\<lambda>q. getPieceColor q = Black"] in
        \<open>simp add: mailboxInv_def bit_unionOf in_blackPieces Bex_def\<close>)
  show "boardInv b"
    unfolding boardInv_def using m a w k by (simp add: mailboxInv_def in_allPieces)
qed

lemma mailboxInv_putPiece:
  assumes "mailboxInv b" "0 \<le> sq" "sq < 64" "mailbox b ! nat sq = PieceNone" "p \<noteq> PieceNone"
  shows "mailboxInv (putPiece p sq b)"
  using assms pieceIndex_lt14[OF assms(5)] colorIndex_lt2[of "getPieceColor p"]
  unfolding mailboxInv_def putPiece_def Let_def
  by (auto simp: nth_list_update bit_simps bit_spotOf pieceIndex_inj colorIndex_eq)

lemma mailboxInv_removePiece:
  assumes "mailboxInv b" "0 \<le> sq" "sq < 64" "mailbox b ! nat sq \<noteq> PieceNone"
  shows "mailboxInv (removePiece sq b)"
proof -
  obtain p where pe: "mailbox b ! nat sq = p" by simp
  have pn: "p \<noteq> PieceNone" using assms(4) pe by simp
  have mb: "\<And>n q. n < 64 \<Longrightarrow> q \<noteq> PieceNone \<Longrightarrow>
      (mailbox b ! n = q) = bit (bitboards b ! pieceIndex q) n"
    using assms(1) by (simp add: mailboxInv_def)
  have nsq: "nat sq < 64" using assms by simp
  have psq: "bit (bitboards b ! pieceIndex p) (nat sq)"
    using mb[OF nsq pn] pe by simp
  have other: "\<not> bit (bitboards b ! pieceIndex q) (nat sq)" if "q \<noteq> PieceNone" "q \<noteq> p" for q
    using mb[OF nsq that(1)] that(2) pe by auto
  show ?thesis
    using assms(1-3) pn psq other pieceIndex_lt14[OF pn] colorIndex_lt2[of "getPieceColor p"]
    unfolding mailboxInv_def removePiece_def Let_def pe
    by (auto simp: nth_list_update bit_simps bit_spotOf pieceIndex_inj colorIndex_eq pe)
qed

lemma mailboxInv_movePiece:
  assumes "mailboxInv b" "0 \<le> from" "from < 64" "0 \<le> to" "to < 64"
    "mailbox b ! nat from \<noteq> PieceNone" "mailbox b ! nat to = PieceNone"
  shows "mailboxInv (movePiece from to b)"
proof -
  obtain p where pe: "mailbox b ! nat from = p" by simp
  have pn: "p \<noteq> PieceNone" using assms(6) pe by simp
  have ne: "nat from \<noteq> nat to" using assms(6,7) by auto
  have mb: "\<And>n q. n < 64 \<Longrightarrow> q \<noteq> PieceNone \<Longrightarrow>
      (mailbox b ! n = q) = bit (bitboards b ! pieceIndex q) n"
    using assms(1) by (simp add: mailboxInv_def)
  have nsq: "nat from < 64" "nat to < 64" using assms by simp_all
  have psq: "bit (bitboards b ! pieceIndex p) (nat from)"
    using mb[OF nsq(1) pn] pe by simp
  have other: "\<not> bit (bitboards b ! pieceIndex q) (nat from)" if "q \<noteq> PieceNone" "q \<noteq> p" for q
    using mb[OF nsq(1) that(1)] that(2) pe by auto
  have empty: "\<not> bit (bitboards b ! pieceIndex q) (nat to)" if "q \<noteq> PieceNone" for q
    using mb[OF nsq(2) that] assms(7) that by auto
  show ?thesis
    using assms(1-5,7) pn ne psq other empty pieceIndex_lt14[OF pn] colorIndex_lt2[of "getPieceColor p"]
    unfolding mailboxInv_def movePiece_def Let_def pe
    by (auto simp: nth_list_update bit_simps bit_spotOf pieceIndex_inj colorIndex_eq pe)
qed

text \<open>
  C6. Each of the three board mutation primitives preserves the summary invariant: on a
  board whose mailbox and occupancies agree with the twelve piece bitboards,
  \<open>putPiece\<close> on an empty square with a piece other than \<open>None\<close>, \<open>removePiece\<close> on
  an occupied square, and \<open>movePiece\<close> from an occupied square to an empty one each give
  a board on which they agree again.
\<close>

theorem board_primitives_preserve_summaries:
  assumes "boardInv b" "0 \<le> sq" "sq < 64" "0 \<le> to" "to < 64"
  shows "(mailbox b ! nat sq = PieceNone \<and> piece \<noteq> PieceNone \<longrightarrow> boardInv (putPiece piece sq b)) \<and>
         (mailbox b ! nat sq \<noteq> PieceNone \<longrightarrow> boardInv (removePiece sq b)) \<and>
         (mailbox b ! nat sq \<noteq> PieceNone \<and> mailbox b ! nat to = PieceNone \<longrightarrow>
            boardInv (movePiece sq to b))"
  using assms
  by (simp add: boardInv_iff_mailboxInv mailboxInv_putPiece mailboxInv_removePiece
      mailboxInv_movePiece)

lemma boardInv_emptyBoard: "boardInv emptyBoard"
  by (simp add: boardInv_def emptyBoard_def allPieces_def whitePieces_def blackPieces_def)

theorem board_primitives_preserve_summaries_witness:
  "boardInv emptyBoard \<and> boardInv (putPiece WhiteRook 12 emptyBoard) \<and>
   boardInv (removePiece 12 (putPiece WhiteRook 12 emptyBoard)) \<and>
   boardInv (movePiece 12 28 (putPiece WhiteRook 12 emptyBoard))"
proof -
  have e: "boardInv emptyBoard" by (rule boardInv_emptyBoard)
  have m0: "mailbox emptyBoard ! nat 12 = PieceNone" by (simp add: emptyBoard_def)
  have p: "boardInv (putPiece WhiteRook 12 emptyBoard)"
    using board_primitives_preserve_summaries[OF e, of 12 28 WhiteRook] m0 by simp
  have m1: "mailbox (putPiece WhiteRook 12 emptyBoard) ! nat 12 \<noteq> PieceNone"
    "mailbox (putPiece WhiteRook 12 emptyBoard) ! nat 28 = PieceNone"
    by (simp_all add: putPiece_def emptyBoard_def Let_def)
  show ?thesis
    using e p m1 board_primitives_preserve_summaries[OF p, of 12 28 WhiteRook] by simp
qed

subsection \<open>The move list\<close>

text \<open>
  C9. \<open>add\<close> stores the move at the index equal to the current size and increments the
  size by one; it makes no capacity check of its own, and the write is in bounds exactly
  when the size before the call is less than the capacity, which is 218 for \<open>MoveList\<close>.
\<close>

theorem add_in_bounds_iff:
  "(case add ml move of
      Inr ml' \<Rightarrow> m_count ml < length (m_moves ml) \<and> m_moves ml' = (m_moves ml)[m_count ml := move] \<and>
                m_moves ml' ! m_count ml = move \<and> m_count ml' = m_count ml + 1
    | Inl e \<Rightarrow> \<not> m_count ml < length (m_moves ml)) \<and>
   length (m_moves newMoveList) = 218 \<and>
   ((\<exists>ml'. add ml move = Inr ml') \<longleftrightarrow> size_ml ml < length (m_moves ml))"
  by (auto simp: add_def newMoveList_def MoveList_capacity_def size_ml_def)

subsection \<open>Bits, \<open>popcount\<close>, \<open>pext\<close> and \<open>pdep\<close>\<close>

lemma bit_shl1: "bit (push_bit 1 (P :: 64 word)) n \<longleftrightarrow> 0 < n \<and> n < 64 \<and> bit P (n - 1)"
proof -
  have "bit (push_bit 1 P) n \<longleftrightarrow> 1 \<le> n \<and> possible_bit TYPE(64 word) n \<and> bit P (n - 1)"
    by (rule bit_push_bit_iff)
  then show ?thesis by (auto simp del: push_bit_of_Suc_0)
qed

lemma bit_shl1_or:
  "bit (push_bit 1 (P :: 64 word) OR (s AND 1)) n \<longleftrightarrow> (if n = 0 then bit s 0 else n < 64 \<and> bit P (n - 1))"
  unfolding bit_or_iff bit_and_iff bit_shl1 bit_1_iff by auto

lemma bit_shr1: "bit (drop_bit 1 (w :: 64 word)) n \<longleftrightarrow> bit w (Suc n)"
  by (simp add: bit_drop_bit_eq)

lemma bit_shr1': "bit (drop_bit (Suc 0) (w :: 64 word)) n \<longleftrightarrow> bit w (Suc n)"
  by (simp add: bit_drop_bit_eq)

lemma no_bit_64: "64 \<le> j \<Longrightarrow> \<not> bit (w :: 64 word) j"
  by (auto dest: bit_imp_le_length)

lemma popcount_0 [simp]: "popcount 0 = 0"
  by (simp add: popcount.simps)

lemma popcount_rec:
  "w \<noteq> 0 \<Longrightarrow> popcount w = (if bit w 0 then 1 else 0) + popcount (drop_bit 1 w)"
  by (subst popcount.simps) simp

lemma popcount_le:
  "(\<And>j. k \<le> j \<Longrightarrow> \<not> bit w j) \<Longrightarrow> popcount w \<le> k"
proof (induction w arbitrary: k rule: popcount.induct)
  case (1 w)
  show ?case
  proof (cases "w = 0")
    case True
    then show ?thesis by simp
  next
    case False
    then obtain j where j: "bit w j" by (auto simp: bit_eq_iff)
    then have k: "0 < k" using "1.prems"[of j] by (cases k) auto
    have "popcount (drop_bit 1 w) \<le> k - 1"
    proof (rule "1.IH"[OF False])
      fix j assume "k - 1 \<le> j"
      then have "k \<le> Suc j" using k by simp
      then show "\<not> bit (drop_bit 1 w) j" using "1.prems"[of "Suc j"] by (simp add: bit_shr1')
    qed
    then have "(if bit w 0 then 1 else 0) + popcount (drop_bit 1 w) \<le> k" using k by auto
    then show ?thesis using popcount_rec[OF False] by simp
  qed
qed

lemma popcount_le_64: "popcount w \<le> 64"
  by (rule popcount_le) (rule no_bit_64)

lemma pext_0 [simp]: "pext s 0 = 0"
  by (simp add: pext.simps)

lemma pdep_0 [simp]: "pdep s 0 = 0"
  by (simp add: pdep.simps)

lemma pext_bit_popcount: "bit (pext s m) j \<Longrightarrow> j < popcount m"
proof (induction s m arbitrary: j rule: pext.induct)
  case (1 s m)
  show ?case
  proof (cases "m = 0")
    case True
    then show ?thesis using "1.prems" by simp
  next
    case nz: False
    show ?thesis
    proof (cases "bit m 0")
      case True
      have e: "pext s m = push_bit 1 (pext (drop_bit 1 s) (drop_bit 1 m)) OR (s AND 1)"
        using nz True by (subst pext.simps) (simp del: push_bit_of_Suc_0)
      have pc: "popcount m = 1 + popcount (drop_bit 1 m)"
        using popcount_rec[OF nz] True by simp
      show ?thesis
      proof (cases j)
        case 0
        then show ?thesis using pc by simp
      next
        case (Suc i)
        then have "bit (pext (drop_bit 1 s) (drop_bit 1 m)) i"
          using "1.prems" unfolding e bit_shl1_or by simp
        then have "i < popcount (drop_bit 1 m)" by (rule "1.IH"(1)[OF nz True])
        then show ?thesis using Suc pc by simp
      qed
    next
      case False
      have e: "pext s m = pext (drop_bit 1 s) (drop_bit 1 m)"
        using nz False by (subst pext.simps) simp
      have pc: "popcount m = popcount (drop_bit 1 m)"
        using popcount_rec[OF nz] False by simp
      have "j < popcount (drop_bit 1 m)"
        using "1.prems" "1.IH"(2)[OF nz False] unfolding e by simp
      then show ?thesis using pc by simp
    qed
  qed
qed

lemma pdep_pext: "pdep (pext s m) m = s AND m"
proof (induction s m rule: pext.induct)
  case (1 s m)
  show ?case
  proof (cases "m = 0")
    case True
    then show ?thesis by simp
  next
    case nz: False
    let ?P = "pext (drop_bit 1 s) (drop_bit 1 m)"
    show ?thesis
    proof (cases "bit m 0")
      case True
      have e: "pext s m = push_bit 1 ?P OR (s AND 1)"
        using nz True by (subst pext.simps) (simp del: push_bit_of_Suc_0)
      have "popcount (drop_bit 1 m) \<le> 63"
        by (rule popcount_le) (auto simp: bit_shr1' dest: bit_imp_le_length)
      then have top: "\<not> bit ?P 63" using pext_bit_popcount[of "drop_bit 1 s" "drop_bit 1 m" 63] by auto
      have d: "drop_bit 1 (pext s m) = ?P"
      proof (rule bit_word_eqI)
        fix n assume "n < LENGTH(64)"
        then show "bit (drop_bit 1 (pext s m)) n = bit ?P n"
          unfolding e bit_shr1 bit_shl1_or using top by (cases "n = 63") auto
      qed
      have a: "pext s m AND 1 = s AND 1"
      proof (rule bit_word_eqI)
        fix n assume "n < LENGTH(64)"
        show "bit (pext s m AND 1) n = bit (s AND 1) n"
          unfolding e bit_and_iff bit_shl1_or bit_1_iff by auto
      qed
      have "pdep (pext s m) m = push_bit 1 (pdep (drop_bit 1 (pext s m)) (drop_bit 1 m)) OR (pext s m AND 1)"
        using nz True by (subst pdep.simps) (simp del: push_bit_of_Suc_0)
      also have "\<dots> = push_bit 1 (drop_bit 1 s AND drop_bit 1 m) OR (s AND 1)"
        using "1.IH"(1)[OF nz True] by (simp only: d a)
      also have "\<dots> = s AND m"
      proof (rule bit_word_eqI)
        fix n assume "n < LENGTH(64)"
        then show "bit (push_bit 1 (drop_bit 1 s AND drop_bit 1 m) OR (s AND 1)) n = bit (s AND m) n"
          unfolding bit_shl1_or bit_and_iff bit_shr1 using True by (cases n) auto
      qed
      finally show ?thesis .
    next
      case False
      have e: "pext s m = ?P"
        using nz False by (subst pext.simps) simp
      have "pdep (pext s m) m = push_bit 1 (pdep (pext s m) (drop_bit 1 m))"
        using nz False by (subst pdep.simps) (simp del: push_bit_of_Suc_0)
      also have "\<dots> = push_bit 1 (drop_bit 1 s AND drop_bit 1 m)"
        using "1.IH"(2)[OF nz False] by (simp only: e)
      also have "\<dots> = s AND m"
      proof (rule bit_word_eqI)
        fix n assume "n < LENGTH(64)"
        then show "bit (push_bit 1 (drop_bit 1 s AND drop_bit 1 m)) n = bit (s AND m) n"
          unfolding bit_shl1 bit_and_iff bit_shr1 using False by (cases n) auto
      qed
      finally show ?thesis .
    qed
  qed
qed

lemma clear_lsb_odd:
  fixes w :: "64 word"
  assumes "bit w 0"
  shows "w AND (w - 1) = w - 1" "drop_bit 1 (w - 1) = drop_bit 1 w" "\<not> bit (w - 1) 0"
proof -
  have o: "odd w" using assms by (simp add: bit_0)
  have b: "bit w n \<longleftrightarrow> bit (w - 1) n \<or> n = 0" for n
    using odd_bit_iff_bit_pred[OF o] .
  show e: "\<not> bit (w - 1) 0" using o by (simp add: bit_0)
  show "w AND (w - 1) = w - 1"
    by (rule bit_word_eqI) (use b in \<open>auto simp: bit_and_iff\<close>)
  show "drop_bit 1 (w - 1) = drop_bit 1 w"
    by (rule bit_word_eqI) (use b in \<open>auto simp: bit_shr1 bit_shr1'\<close>)
qed

lemma clear_lsb_even:
  fixes w :: "64 word"
  assumes "\<not> bit w 0"
  shows "drop_bit 1 (w AND (w - 1)) = drop_bit 1 w AND (drop_bit 1 w - 1)"
    "\<not> bit (w AND (w - 1)) 0"
proof -
  let ?h = "drop_bit 1 w"
  have ev: "even w" using assms by (simp add: bit_0)
  have w: "w = 2 * ?h"
  proof (rule bit_word_eqI)
    fix n assume "n < LENGTH(64)"
    then show "bit w n = bit (2 * ?h) n"
      using assms by (cases n) (auto simp: bit_double_iff bit_shr1 bit_shr1')
  qed
  have "w - 1 = 1 + 2 * (?h - 1)" by (subst w) (simp add: algebra_simps)
  then have e1: "bit (w - 1) (Suc k) = bit (1 + 2 * (?h - 1)) (Suc k)" for k by (simp only:)
  have e2: "bit (1 + 2 * (?h - 1)) (Suc k) = bit (2 * (?h - 1)) (Suc k)" for k
    using even_bit_succ_iff[of "2 * (?h - 1)" "Suc k"] by simp
  have e3: "bit (2 * (?h - 1)) (Suc k) \<longleftrightarrow> Suc k < 64 \<and> bit (?h - 1) k" for k
    using bit_double_iff[of "?h - 1" "Suc k"] by (simp del: bit_double_iff)
  have b: "bit (w - 1) (Suc k) \<longleftrightarrow> Suc k < 64 \<and> bit (?h - 1) k" for k
    unfolding e1 e2 e3 ..
  show "\<not> bit (w AND (w - 1)) 0" using assms by (simp add: bit_and_iff)
  show "drop_bit 1 (w AND (w - 1)) = ?h AND (?h - 1)"
  proof (rule bit_word_eqI)
    fix n assume "n < LENGTH(64)"
    have "bit (drop_bit 1 (w AND (w - 1))) n \<longleftrightarrow> bit w (Suc n) \<and> bit (w - 1) (Suc n)"
      by (simp add: bit_shr1 bit_shr1' bit_and_iff)
    also have "\<dots> \<longleftrightarrow> bit ?h n \<and> bit (?h - 1) n"
      unfolding b bit_shr1 by (auto dest: bit_imp_le_length)
    finally show "bit (drop_bit 1 (w AND (w - 1))) n = bit (?h AND (?h - 1)) n"
      by (simp add: bit_and_iff)
  qed
qed

lemma popcount_clear_lsb: "w \<noteq> 0 \<Longrightarrow> popcount w = Suc (popcount (w AND (w - 1)))"
proof (induction w rule: popcount.induct)
  case (1 w)
  let ?h = "drop_bit 1 w"
  let ?c = "w AND (w - 1)"
  show ?case
  proof (cases "bit w 0")
    case True
    note f = clear_lsb_odd[OF True]
    have "popcount ?c = popcount ?h"
    proof (cases "?c = 0")
      case True
      then have "?h = 0" using f by simp
      then show ?thesis using True by simp
    next
      case False
      then show ?thesis using popcount_rec[OF False] f by simp
    qed
    then show ?thesis using popcount_rec[OF "1.prems"] True by simp
  next
    case False
    note f = clear_lsb_even[OF False]
    have hnz: "?h \<noteq> 0"
    proof
      assume z: "?h = 0"
      have "w = 0"
      proof (rule bit_word_eqI)
        fix n assume "n < LENGTH(64)"
        show "bit w n = bit (0 :: 64 word) n"
        proof (cases n)
          case 0 then show ?thesis using False by simp
        next
          case (Suc k)
          have "bit ?h k = False" using z by simp
          then show ?thesis using Suc by (simp add: bit_shr1 bit_shr1')
        qed
      qed
      then show False using "1.prems" by simp
    qed
    have ih: "popcount ?h = Suc (popcount (?h AND (?h - 1)))"
      by (rule "1.IH"[OF "1.prems" hnz])
    have "popcount ?c = popcount (?h AND (?h - 1))"
    proof (cases "?c = 0")
      case True
      then have "?h AND (?h - 1) = 0" using f(1) by simp
      then show ?thesis using True by simp
    next
      case nz: False
      show ?thesis using popcount_rec[OF nz] f by simp
    qed
    then show ?thesis using popcount_rec[OF "1.prems"] False ih by simp
  qed
qed

subsection \<open>The \<open>popLSB\<close> loops\<close>

lemma foldBits_0 [simp]: "foldBits body 0 s = s"
  by (simp add: foldBits.simps)

lemma foldBits_rec:
  "bb \<noteq> 0 \<Longrightarrow> foldBits body bb s = foldBits body (bb AND (bb - 1)) (body (toSquare bb) s)"
  by (subst foldBits.simps) (simp add: popLSB_def)

lemma clear_lsb_less: "bb \<noteq> 0 \<Longrightarrow> unat (bb AND (bb - 1)) < unat (bb :: 64 word)"
proof -
  assume nz: "bb \<noteq> 0"
  have "bb AND (bb - 1) \<le> bb - 1" by (rule word_and_le1)
  moreover have "bb - 1 < bb" using nz leI less_eq_dec_triv_imp by blast
  ultimately have "bb AND (bb - 1) < bb" by simp
  then show ?thesis by (simp add: word_less_nat_alt)
qed

lemma bitboard_induct [case_names step]:
  fixes bb :: "64 word"
  assumes "\<And>bb. (bb \<noteq> 0 \<Longrightarrow> P (bb AND (bb - 1))) \<Longrightarrow> P bb"
  shows "P bb"
proof (induction "unat bb" arbitrary: bb rule: less_induct)
  case less
  show ?case by (rule assms) (rule less, rule clear_lsb_less)
qed

lemma foldBits_snoc: "foldBits (\<lambda>sq l. l @ [sq]) bb l0 = l0 @ squaresOf bb"
proof (induction bb arbitrary: l0 rule: bitboard_induct)
  case (step bb)
  show ?case
  proof (cases "bb = 0")
    case True
    then show ?thesis by (simp add: squaresOf_def)
  next
    case False
    have "squaresOf bb = [toSquare bb] @ squaresOf (bb AND (bb - 1))"
      unfolding squaresOf_def[of bb] by (subst foldBits_rec[OF False]) (simp add: step[OF False])
    moreover have "foldBits (\<lambda>sq l. l @ [sq]) bb l0 = (l0 @ [toSquare bb]) @ squaresOf (bb AND (bb - 1))"
      by (subst foldBits_rec[OF False]) (simp add: step[OF False])
    ultimately show ?thesis by simp
  qed
qed

lemma squaresOf_0 [simp]: "squaresOf 0 = []"
  by (simp add: squaresOf_def)

lemma squaresOf_rec: "bb \<noteq> 0 \<Longrightarrow> squaresOf bb = toSquare bb # squaresOf (bb AND (bb - 1))"
  unfolding squaresOf_def[of bb] by (subst foldBits_rec) (simp_all add: foldBits_snoc)

lemma foldBits_fold: "foldBits body bb s = fold body (squaresOf bb) s"
proof (induction bb arbitrary: s rule: bitboard_induct)
  case (step bb)
  show ?case
  proof (cases "bb = 0")
    case True
    then show ?thesis by simp
  next
    case False
    show ?thesis
      by (subst foldBits_rec[OF False]) (simp add: step[OF False] squaresOf_rec[OF False])
  qed
qed

lemma length_squaresOf: "length (squaresOf bb) = popcount bb"
proof (induction bb rule: bitboard_induct)
  case (step bb)
  show ?case
  proof (cases "bb = 0")
    case True
    then show ?thesis by simp
  next
    case False
    show ?thesis
      using step[OF False] by (simp add: squaresOf_rec[OF False] popcount_clear_lsb[OF False])
  qed
qed

lemma toSquare_0: "toSquare 0 = 64"
  by (simp add: toSquare.simps)

lemma toSquare_range: "bb \<noteq> 0 \<Longrightarrow> 0 \<le> toSquare bb \<and> toSquare bb < 64 \<and> bit bb (nat (toSquare bb))"
proof (induction bb rule: toSquare.induct)
  case (1 bb)
  show ?case
  proof (cases "bit bb 0")
    case True
    then show ?thesis using "1.prems" by (subst (1 2 3) toSquare.simps) simp
  next
    case False
    let ?h = "drop_bit 1 bb"
    have hnz: "?h \<noteq> 0"
    proof
      assume z: "?h = 0"
      have "bb = 0"
      proof (rule bit_word_eqI)
        fix n assume "n < LENGTH(64)"
        show "bit bb n = bit (0 :: 64 word) n"
        proof (cases n)
          case 0 then show ?thesis using False by simp
        next
          case (Suc k)
          have "bit ?h k = False" using z by simp
          then show ?thesis using Suc by (simp add: bit_shr1 bit_shr1')
        qed
      qed
      then show False using "1.prems" by simp
    qed
    have ih: "0 \<le> toSquare ?h \<and> toSquare ?h < 64 \<and> bit ?h (nat (toSquare ?h))"
      by (rule "1.IH"[OF "1.prems" False hnz])
    have e: "toSquare bb = 1 + toSquare ?h"
      using "1.prems" False by (subst toSquare.simps) simp
    have b: "bit bb (Suc (nat (toSquare ?h)))" using ih by (simp add: bit_shr1 bit_shr1')
    then have "Suc (nat (toSquare ?h)) < 64" by (auto dest: bit_imp_le_length)
    moreover have "nat (1 + toSquare ?h) = Suc (nat (toSquare ?h))" using ih by linarith
    ultimately show ?thesis using ih b unfolding e by simp
  qed
qed

lemma squaresOf_set: "sq \<in> set (squaresOf bb) \<Longrightarrow> 0 \<le> sq \<and> sq < 64 \<and> bit bb (nat sq)"
proof (induction bb rule: bitboard_induct)
  case (step bb)
  show ?case
  proof (cases "bb = 0")
    case True
    then show ?thesis using step.prems by simp
  next
    case False
    from step.prems have "sq = toSquare bb \<or> sq \<in> set (squaresOf (bb AND (bb - 1)))"
      by (simp add: squaresOf_rec[OF False])
    then show ?thesis
    proof
      assume "sq = toSquare bb"
      then show ?thesis using toSquare_range[OF False] by simp
    next
      assume "sq \<in> set (squaresOf (bb AND (bb - 1)))"
      then show ?thesis using step.IH[OF False] by (simp add: bit_and_iff)
    qed
  qed
qed

lemma fold_snoc_concat: "fold (\<lambda>x ms. ms @ f x) xs ms0 = ms0 @ concat (map f xs)"
  by (induction xs arbitrary: ms0) simp_all

lemma fold_add_sum: "fold (\<lambda>x (n::int). n + f x) xs n0 = n0 + sum_list (map f xs)"
  by (induction xs arbitrary: n0) simp_all

subsection \<open>The counting sink and the collecting sink\<close>

lemma length_foldBits_emit:
  "int (length (foldBits (\<lambda>from ms. ms @ [f from]) bb ms)) = int (length ms) + int (popcount bb)"
  by (simp add: foldBits_fold fold_snoc_concat[of "\<lambda>x. [f x]"] length_concat comp_def
      sum_list_triv length_squaresOf)

lemma length_emitPromotions:
  "length (emitPromotions (\<lambda>m ms. ms @ [m]) from to capture ms) = length ms + 4"
  by (simp add: emitPromotions_def)

lemma length_foldBits_promotions:
  "int (length (foldBits (\<lambda>from. emitPromotions (\<lambda>m ms. ms @ [m]) from (g from) capture) bb ms)) =
   int (length ms) + 4 * int (popcount bb)"
proof -
  have "length (fold (\<lambda>from. emitPromotions (\<lambda>m ms. ms @ [m]) from (g from) capture) xs ms) =
        length ms + 4 * length xs" for xs
    by (induction xs arbitrary: ms) (simp_all add: length_emitPromotions)
  then show ?thesis by (simp add: foldBits_fold length_squaresOf)
qed

lemma length_emitTargets:
  "int (length (emitTargets (\<lambda>m ms. ms @ [m]) enemy from legal ms)) =
   int (length ms) + int (popcount legal)"
  unfolding emitTargets_def by (rule length_foldBits_emit)

lemma length_foldBits_targets:
  "int (length (foldBits (\<lambda>from. emitTargets (\<lambda>m ms. ms @ [m]) enemy from (legal from)) bb ms)) =
   foldBits (\<lambda>from count. count + int (popcount (legal from))) bb (int (length ms))"
proof -
  have "int (length (fold (\<lambda>from. emitTargets (\<lambda>m ms. ms @ [m]) enemy from (legal from)) xs ms)) =
        fold (\<lambda>from count. count + int (popcount (legal from))) xs (int (length ms))" for xs
    by (induction xs arbitrary: ms) (simp_all add: length_emitTargets)
  then show ?thesis by (simp add: foldBits_fold)
qed

lemma length_legalPawnMoves:
  "int (length (legalPawnMoves c game checkmask pinHV pinD (\<lambda>m ms. ms @ [m]) ms)) =
   countPawnMoves c game checkmask pinHV pinD (int (length ms))"
  unfolding legalPawnMoves_def countPawnMoves_def Let_def
  by (simp add: length_foldBits_emit length_foldBits_promotions split: option.split)

lemma legalMovesCounter_length:
  "legalMovesCounter c game (int (length ms)) =
   int (length (legalMoves c game (\<lambda>m ms. ms @ [m]) ms))"
  unfolding legalMoves_def legalMovesCounter_def Let_def
  by (simp add: length_foldBits_targets length_emitTargets length_legalPawnMoves)

lemma legalMoveCount_of_nat:
  "legalMoveCount c game = of_nat (length (emittedMoves c game))"
  using legalMovesCounter_length[of c game "[]"]
  by (simp add: legalMoveCount_def emittedMoves_def)

lemma foldBits_count_le:
  "foldBits (\<lambda>from count. count + int (popcount (legal from))) bb n \<le> n + 4096"
proof -
  have "sum_list (map (\<lambda>from. int (popcount (legal from))) xs) \<le> 64 * int (length xs)" for xs
  proof (induction xs)
    case Nil
    show ?case by simp
  next
    case (Cons x xs)
    have "int (popcount (legal x)) \<le> 64" using popcount_le_64[of "legal x"] by simp
    then show ?case using Cons by simp
  qed
  from this[of "squaresOf bb"] popcount_le_64[of bb]
  show ?thesis by (simp add: foldBits_fold fold_add_sum length_squaresOf)
qed

lemma countPawnMoves_le:
  "countPawnMoves c game checkmask pinHV pinD n \<le> n + 1026"
proof -
  have p: "int (popcount w) \<le> 64" for w using popcount_le_64[of w] by simp
  let ?pm = "pawnMotion c game checkmask pinHV pinD"
  show ?thesis
    unfolding countPawnMoves_def Let_def
    using p[of "pm_quiet ?pm"] p[of "pm_doublePush ?pm"] p[of "pm_leftCapture ?pm"]
      p[of "pm_rightCapture ?pm"] p[of "pm_quietPromotion ?pm"]
      p[of "pm_leftCapturePromotion ?pm"] p[of "pm_rightCapturePromotion ?pm"]
    by (auto split: option.split)
qed

lemma legalMovesCounter_le: "legalMovesCounter c game 0 \<le> 21572"
proof -
  have step: "foldBits (\<lambda>from count. count + int (popcount (legal from))) bb n \<le> k + 4096"
    if "n \<le> k" for legal bb n k
    using foldBits_count_le[of legal bb n] that by simp
  have shape: "(if q then (if p then x + pk + 1 else x + pk) + 1
                else (if p then x + pk + 1 else x + pk)) \<le> b + 66"
    if "x \<le> b" "pk \<le> 64" for p q and x pk b :: int
    using that by auto
  have pk: "int (popcount w) \<le> 64" for w using popcount_le_64[of w] by simp
  have "legalMovesCounter c game 0 \<le> 0 + 1026 + 4096 + 4096 + 4096 + 4096 + 4096 + 66"
    unfolding legalMovesCounter_def Let_def
    by (rule shape) (intro step countPawnMoves_le, rule pk)
  then show ?thesis by simp
qed

text \<open>
  C2. The count that \<open>legalMoveCount\<close> returns is the number of moves the generator
  emits to a collecting sink on the same position, as a 64-bit value and as a number; the
  counter itself stays far below the range of the \<open>int\<close> that holds it. This holds for
  every position, well-formed or not.
\<close>

theorem legalMoveCount_eq_emitted:
  "legalMoveCount c game = of_nat (length (emittedMoves c game)) \<and>
   unat (legalMoveCount c game) = length (emittedMoves c game) \<and>
   legalMovesCounter c game 0 = int (length (emittedMoves c game)) \<and>
   legalMovesCounter c game 0 < 2 ^ 31"
proof -
  have cnt: "legalMovesCounter c game 0 = int (length (emittedMoves c game))"
    using legalMovesCounter_length[of c game "[]"] by (simp add: emittedMoves_def)
  have small: "legalMovesCounter c game 0 < 2 ^ 31"
    using legalMovesCounter_le[of c game] by simp
  have "unat (legalMoveCount c game) = length (emittedMoves c game)"
  proof -
  have "int (length (emittedMoves c game)) \<le> 21572"
    using legalMovesCounter_le[of c game] legalMovesCounter_length[of c game "[]"]
    by (simp add: emittedMoves_def)
  then have "length (emittedMoves c game) < 2 ^ 64" by simp
  then show ?thesis
    by (simp add: legalMoveCount_of_nat unat_of_nat take_bit_nat_eq_self)
  qed
  then show ?thesis using cnt small legalMoveCount_of_nat[of c game] by simp
qed

subsection \<open>Evaluating the generator on a position\<close>

lemma toSquare_Suc:
  assumes "\<not> bit bb 0" "bb \<noteq> 0"
  shows "toSquare bb = 1 + toSquare (drop_bit 1 bb)"
  using assms by (subst toSquare.simps) simp

lemma toSquare_lowest:
  "bit bb n \<Longrightarrow> (\<And>k. k < n \<Longrightarrow> \<not> bit bb k) \<Longrightarrow> toSquare bb = int n"
proof (induction n arbitrary: bb)
  case 0
  then have "bb \<noteq> 0" by auto
  then show ?case using 0 by (subst toSquare.simps) simp
next
  case (Suc n)
  have nz: "bb \<noteq> 0" using Suc.prems(1) by auto
  have b0: "\<not> bit bb 0" using Suc.prems(2)[of 0] by simp
  have "toSquare (drop_bit 1 bb) = int n"
  proof (rule Suc.IH)
    show "bit (drop_bit 1 bb) n" using Suc.prems(1) by (simp add: bit_shr1 bit_shr1')
    fix k assume "k < n"
    then show "\<not> bit (drop_bit 1 bb) k" using Suc.prems(2)[of "Suc k"] by (simp add: bit_shr1 bit_shr1')
  qed
  then show ?case using toSquare_Suc[OF b0 nz] by simp
qed

text \<open>A way to read off \<open>toSquare\<close> of a given bitboard with two conjunctions.\<close>

lemma toSquare_eqI:
  fixes bb :: Bitboard
  assumes "bb AND b \<noteq> 0" "bb AND (b - 1) = 0" "b = push_bit n 1" "n < 64" "sq = int n"
  shows "toSquare bb = sq"
  unfolding assms(5)
proof (rule toSquare_lowest)
  have "\<exists>k. bit (bb AND b) k" using assms(1) by (auto simp: bit_eq_iff)
  then show "bit bb n" unfolding assms(3) by (auto simp: bit_simps)
  fix k assume k: "k < n"
  have "b - 1 = mask n" unfolding assms(3) by (simp add: mask_eq_exp_minus_1 push_bit_eq_mult)
  then have "bit (bb AND (b - 1)) k = bit bb k" using k assms(4) by (simp add: bit_simps)
  then show "\<not> bit bb k" using assms(2) by simp
qed


lemma popcount_step:
  "w \<noteq> 0 \<Longrightarrow> popcount w = Suc (popcount (w AND (w - 1)))"
  by (rule popcount_clear_lsb)

lemma unat_pext_less: "unat (pext s m) < 2 ^ popcount m"
proof -
  have "take_bit (popcount m) (pext s m) = pext s m"
    by (rule bit_word_eqI) (auto simp: bit_take_bit_iff dest: pext_bit_popcount)
  then have "unat (pext s m) = take_bit (popcount m) (unat (pext s m))"
    by (metis unsigned_take_bit_eq)
  then show ?thesis using take_bit_nat_less_exp[of "popcount m" "unat (pext s m)"] by simp
qed

lemma rookAttack_direct:
  assumes "0 \<le> from" "from < 64" "popcount (rookBlocker ! nat from) \<le> 12"
  shows "rookAttack from occ = detail_rookAttack from (occ AND rookBlocker ! nat from)"
proof -
  let ?m = "rookBlocker ! nat from"
  have "unat (pext occ ?m) < 2 ^ popcount ?m" by (rule unat_pext_less)
  also have "\<dots> \<le> 2 ^ 12" using assms(3) by (intro power_increasing) simp_all
  finally have j: "unat (pext occ ?m) < 4096" by simp
  have n: "nat (push_bit 12 from) = nat from * 4096"
    using assms(1) by (simp add: push_bit_eq_mult nat_mult_distrib)
  show ?thesis
    unfolding rookAttack_def rookAttacks_def Let_def n
    using j assms(1) by (simp add: pdep_pext)
qed

lemma bishopAttack_direct:
  assumes "0 \<le> from" "from < 64" "popcount (bishopBlocker ! nat from) \<le> 9"
  shows "bishopAttack from occ = detail_bishopAttack from (occ AND bishopBlocker ! nat from)"
proof -
  let ?m = "bishopBlocker ! nat from"
  have "unat (pext occ ?m) < 2 ^ popcount ?m" by (rule unat_pext_less)
  also have "\<dots> \<le> 2 ^ 9" using assms(3) by (intro power_increasing) simp_all
  finally have j: "unat (pext occ ?m) < 512" by simp
  have n: "nat (push_bit 9 from) = nat from * 512"
    using assms(1) by (simp add: push_bit_eq_mult nat_mult_distrib)
  show ?thesis
    unfolding bishopAttack_def bishopAttacks_def Let_def n
    using j assms(1) by (simp add: pdep_pext)
qed

lemma rookAttack_at:
  assumes "rookBlocker ! nat from = m" "popcount m \<le> 12" "0 \<le> from" "from < 64"
  shows "rookAttack from occ = detail_rookAttack from (occ AND m)"
  using rookAttack_direct[of "from" occ] assms by simp

lemma bishopAttack_at:
  assumes "bishopBlocker ! nat from = m" "popcount m \<le> 9" "0 \<le> from" "from < 64"
  shows "bishopAttack from occ = detail_bishopAttack from (occ AND m)"
  using bishopAttack_direct[of "from" occ] assms by simp

lemmas ray_eval = detail_rookAttack_def detail_bishopAttack_def rayLeft.simps rayRight.simps
      spotOf_def Rank1_def Rank8_def aFile_def hFile_def


lemma init_fields:
  assumes "parsePlacement 7 0 emptyBoard fen = (b, s)"
  shows "m_board (init fen g) = b"
    and "m_castlingRights (init fen g) = fst (parseCastling 0 (drop 2 s))"
    and "m_enPassantSquare (init fen g) =
         fst (parseEnPassant (snd (parseCastling 0 (drop 2 s))))"
  using assms
  by (simp_all add: init_def setupIncrementalState_def Let_def split: prod.split)

lemma board_newGame:
  "parsePlacement 7 0 emptyBoard fen = (b, s) \<Longrightarrow> board (newGame fen) = b"
  by (simp add: board_def newGame_def init_fields)

lemma castlingRights_newGame:
  "parsePlacement 7 0 emptyBoard fen = (b, s) \<Longrightarrow>
   castlingRights (newGame fen) = fst (parseCastling 0 (drop 2 s))"
  by (simp add: castlingRights_def newGame_def init_fields)

lemma enPassantSquare_newGame:
  "parsePlacement 7 0 emptyBoard fen = (b, s) \<Longrightarrow>
   enPassantSquare (newGame fen) = fst (parseEnPassant (snd (parseCastling 0 (drop 2 s))))"
  by (simp add: enPassantSquare_def newGame_def init_fields)

lemmas mask_defs = spotOf_def Rank1_def Rank2_def Rank4_def Rank5_def Rank7_def Rank8_def
  aFile_def bFile_def gFile_def hFile_def

lemma list_update_Cons_numeral:
  "(x # xs)[numeral n := y] = x # xs[pred_numeral n := y]"
  by (simp add: numeral_eq_Suc)

lemma emptyBoard_eval:
  "emptyBoard =
    \<lparr> bitboards = [0, 0, 0, 0, 0, 0, 0, 0, 0, 0, 0, 0, 0, 0],
      m_colorOccupancy = [0, 0],
      m_occupied = 0,
      mailbox = [PieceNone, PieceNone, PieceNone, PieceNone, PieceNone, PieceNone, PieceNone, PieceNone,
                 PieceNone, PieceNone, PieceNone, PieceNone, PieceNone, PieceNone, PieceNone, PieceNone,
                 PieceNone, PieceNone, PieceNone, PieceNone, PieceNone, PieceNone, PieceNone, PieceNone,
                 PieceNone, PieceNone, PieceNone, PieceNone, PieceNone, PieceNone, PieceNone, PieceNone,
                 PieceNone, PieceNone, PieceNone, PieceNone, PieceNone, PieceNone, PieceNone, PieceNone,
                 PieceNone, PieceNone, PieceNone, PieceNone, PieceNone, PieceNone, PieceNone, PieceNone,
                 PieceNone, PieceNone, PieceNone, PieceNone, PieceNone, PieceNone, PieceNone, PieceNone,
                 PieceNone, PieceNone, PieceNone, PieceNone, PieceNone, PieceNone, PieceNone, PieceNone] \<rparr>"
  by (simp add: emptyBoard_def numeral_eq_Suc)

lemmas parse_eval = emptyBoard_eval list_update_Cons_numeral putPiece_def fenPieces_def spotOf_def getPieceColor_def Let_def
  parseEnPassant_def SquareNone_def

lemmas gen_eval = Let_def pawns_def knights_def bishops_def rooks_def queens_def kings_def
  occupancy_def occupied_def foldBits_rec leftPawnAttack_def rightPawnAttack_def
  reverseLeftPawnAttack_def reverseRightPawnAttack_def mask_defs SquareNone_def

lemmas emit_eval = emitTargets_def emitPromotions_def Move_def flag_defs
  canCastleKingside_def canCastleQueenside_def shouldUnoccupiedKingside_def
  shouldUnoccupiedQueenside_def shouldNotAttackedKingside_def shouldNotAttackedQueenside_def
  squaresBetweenUnordered_def squaresBetween_def

lemmas moveString_eval = char_of_def moveString_def getSquareName_def getFrom_def getTo_def isPromotion_def
  promotionPieceType_def fileOf_def rankOf_def

lemma rookAttack_0: "rookAttack 0 occ = detail_rookAttack 0 (occ AND 0x000101010101017E)"
  by (rule rookAttack_at) (simp_all add: rookBlocker_def popcount_step)

lemma rookAttack_3: "rookAttack 3 occ = detail_rookAttack 3 (occ AND 0x0008080808080876)"
  by (rule rookAttack_at) (simp_all add: rookBlocker_def popcount_step)

lemma rookAttack_4: "rookAttack 4 occ = detail_rookAttack 4 (occ AND 0x001010101010106E)"
  by (rule rookAttack_at) (simp_all add: rookBlocker_def popcount_step)

lemma rookAttack_7: "rookAttack 7 occ = detail_rookAttack 7 (occ AND 0x008080808080807E)"
  by (rule rookAttack_at) (simp_all add: rookBlocker_def popcount_step)

lemma rookAttack_32: "rookAttack 32 occ = detail_rookAttack 32 (occ AND 0x0001017E01010100)"
  by (rule rookAttack_at) (simp_all add: rookBlocker_def popcount_step)

lemma rookAttack_39: "rookAttack 39 occ = detail_rookAttack 39 (occ AND 0x0080807E80808000)"
  by (rule rookAttack_at) (simp_all add: rookBlocker_def popcount_step)

lemma rookAttack_56: "rookAttack 56 occ = detail_rookAttack 56 (occ AND 0x7E01010101010100)"
  by (rule rookAttack_at) (simp_all add: rookBlocker_def popcount_step)

lemma rookAttack_59: "rookAttack 59 occ = detail_rookAttack 59 (occ AND 0x7608080808080800)"
  by (rule rookAttack_at) (simp_all add: rookBlocker_def popcount_step)

lemma rookAttack_60: "rookAttack 60 occ = detail_rookAttack 60 (occ AND 0x6E10101010101000)"
  by (rule rookAttack_at) (simp_all add: rookBlocker_def popcount_step)

lemma rookAttack_63: "rookAttack 63 occ = detail_rookAttack 63 (occ AND 0x7E80808080808000)"
  by (rule rookAttack_at) (simp_all add: rookBlocker_def popcount_step)

lemma bishopAttack_0: "bishopAttack 0 occ = detail_bishopAttack 0 (occ AND 0x0040201008040200)"
  by (rule bishopAttack_at) (simp_all add: bishopBlocker_def popcount_step)

lemma bishopAttack_2: "bishopAttack 2 occ = detail_bishopAttack 2 (occ AND 0x0000004020100A00)"
  by (rule bishopAttack_at) (simp_all add: bishopBlocker_def popcount_step)

lemma bishopAttack_3: "bishopAttack 3 occ = detail_bishopAttack 3 (occ AND 0x0000000040221400)"
  by (rule bishopAttack_at) (simp_all add: bishopBlocker_def popcount_step)

lemma bishopAttack_4: "bishopAttack 4 occ = detail_bishopAttack 4 (occ AND 0x0000000002442800)"
  by (rule bishopAttack_at) (simp_all add: bishopBlocker_def popcount_step)

lemma bishopAttack_5: "bishopAttack 5 occ = detail_bishopAttack 5 (occ AND 0x0000000204085000)"
  by (rule bishopAttack_at) (simp_all add: bishopBlocker_def popcount_step)

lemma bishopAttack_32: "bishopAttack 32 occ = detail_bishopAttack 32 (occ AND 0x0004020002040800)"
  by (rule bishopAttack_at) (simp_all add: bishopBlocker_def popcount_step)

lemma bishopAttack_58: "bishopAttack 58 occ = detail_bishopAttack 58 (occ AND 0x000A102040000000)"
  by (rule bishopAttack_at) (simp_all add: bishopBlocker_def popcount_step)

lemma bishopAttack_59: "bishopAttack 59 occ = detail_bishopAttack 59 (occ AND 0x0014224000000000)"
  by (rule bishopAttack_at) (simp_all add: bishopBlocker_def popcount_step)

lemma bishopAttack_60: "bishopAttack 60 occ = detail_bishopAttack 60 (occ AND 0x0028440200000000)"
  by (rule bishopAttack_at) (simp_all add: bishopBlocker_def popcount_step)

lemma bishopAttack_61: "bishopAttack 61 occ = detail_bishopAttack 61 (occ AND 0x0050080402000000)"
  by (rule bishopAttack_at) (simp_all add: bishopBlocker_def popcount_step)

lemma knightAttack_0: "knightAttack 0 = 0x20400"
  by (simp add: knightAttack_def mask_defs)

lemma knightAttack_1: "knightAttack 1 = 0x50800"
  by (simp add: knightAttack_def mask_defs)

lemma knightAttack_4: "knightAttack 4 = 0x284400"
  by (simp add: knightAttack_def mask_defs)

lemma knightAttack_6: "knightAttack 6 = 0xA01000"
  by (simp add: knightAttack_def mask_defs)

lemma knightAttack_32: "knightAttack 32 = 0x2040004020000"
  by (simp add: knightAttack_def mask_defs)

lemma knightAttack_57: "knightAttack 57 = 0x8050000000000"
  by (simp add: knightAttack_def mask_defs)

lemma knightAttack_60: "knightAttack 60 = 0x44280000000000"
  by (simp add: knightAttack_def mask_defs)

lemma knightAttack_62: "knightAttack 62 = 0x10A00000000000"
  by (simp add: knightAttack_def mask_defs)

lemma kingAttack_0: "kingAttack 0 = 0x302"
  by (simp add: kingAttack_def mask_defs)

lemma kingAttack_4: "kingAttack 4 = 0x3828"
  by (simp add: kingAttack_def mask_defs)

lemma kingAttack_32: "kingAttack 32 = 0x30203000000"
  by (simp add: kingAttack_def mask_defs)

lemma kingAttack_60: "kingAttack 60 = 0x2838000000000000"
  by (simp add: kingAttack_def mask_defs)

lemma kingAttack_63: "kingAttack 63 = 0x40C0000000000000"
  by (simp add: kingAttack_def mask_defs)

lemma toSquare_1: "toSquare 0x1 = 0"
  by (rule toSquare_eqI[where b = "0x1" and n = 0]) simp_all

lemma toSquare_10: "toSquare 0x10 = 4"
  by (rule toSquare_eqI[where b = "0x10" and n = 4]) simp_all

lemma toSquare_20: "toSquare 0x20 = 5"
  by (rule toSquare_eqI[where b = "0x20" and n = 5]) simp_all

lemma toSquare_28: "toSquare 0x28 = 3"
  by (rule toSquare_eqI[where b = "0x8" and n = 3]) simp_all

lemma toSquare_2C: "toSquare 0x2C = 2"
  by (rule toSquare_eqI[where b = "0x4" and n = 2]) simp_all

lemma toSquare_40: "toSquare 0x40 = 6"
  by (rule toSquare_eqI[where b = "0x40" and n = 6]) simp_all

lemma toSquare_42: "toSquare 0x42 = 1"
  by (rule toSquare_eqI[where b = "0x2" and n = 1]) simp_all

lemma toSquare_80: "toSquare 0x80 = 7"
  by (rule toSquare_eqI[where b = "0x80" and n = 7]) simp_all

lemma toSquare_88: "toSquare 0x88 = 3"
  by (rule toSquare_eqI[where b = "0x8" and n = 3]) simp_all

lemma toSquare_89: "toSquare 0x89 = 0"
  by (rule toSquare_eqI[where b = "0x1" and n = 0]) simp_all

lemma toSquare_200: "toSquare 0x200 = 9"
  by (rule toSquare_eqI[where b = "0x200" and n = 9]) simp_all

lemma toSquare_300: "toSquare 0x300 = 8"
  by (rule toSquare_eqI[where b = "0x100" and n = 8]) simp_all

lemma toSquare_302: "toSquare 0x302 = 1"
  by (rule toSquare_eqI[where b = "0x2" and n = 1]) simp_all

lemma toSquare_8000: "toSquare 0x8000 = 15"
  by (rule toSquare_eqI[where b = "0x8000" and n = 15]) simp_all

lemma toSquare_C000: "toSquare 0xC000 = 14"
  by (rule toSquare_eqI[where b = "0x4000" and n = 14]) simp_all

lemma toSquare_E000: "toSquare 0xE000 = 13"
  by (rule toSquare_eqI[where b = "0x2000" and n = 13]) simp_all

lemma toSquare_F000: "toSquare 0xF000 = 12"
  by (rule toSquare_eqI[where b = "0x1000" and n = 12]) simp_all

lemma toSquare_F800: "toSquare 0xF800 = 11"
  by (rule toSquare_eqI[where b = "0x800" and n = 11]) simp_all

lemma toSquare_FC00: "toSquare 0xFC00 = 10"
  by (rule toSquare_eqI[where b = "0x400" and n = 10]) simp_all

lemma toSquare_FE00: "toSquare 0xFE00 = 9"
  by (rule toSquare_eqI[where b = "0x200" and n = 9]) simp_all

lemma toSquare_FF00: "toSquare 0xFF00 = 8"
  by (rule toSquare_eqI[where b = "0x100" and n = 8]) simp_all

lemma toSquare_40000: "toSquare 0x40000 = 18"
  by (rule toSquare_eqI[where b = "0x40000" and n = 18]) simp_all

lemma toSquare_50000: "toSquare 0x50000 = 16"
  by (rule toSquare_eqI[where b = "0x10000" and n = 16]) simp_all

lemma toSquare_800000: "toSquare 0x800000 = 23"
  by (rule toSquare_eqI[where b = "0x800000" and n = 23]) simp_all

lemma toSquare_A00000: "toSquare 0xA00000 = 21"
  by (rule toSquare_eqI[where b = "0x200000" and n = 21]) simp_all

lemma toSquare_100000000: "toSquare 0x100000000 = 32"
  by (rule toSquare_eqI[where b = "0x100000000" and n = 32]) simp_all

lemma toSquare_200000000: "toSquare 0x200000000 = 33"
  by (rule toSquare_eqI[where b = "0x200000000" and n = 33]) simp_all

lemma toSquare_800000000: "toSquare 0x800000000 = 35"
  by (rule toSquare_eqI[where b = "0x800000000" and n = 35]) simp_all

lemma toSquare_A00000000: "toSquare 0xA00000000 = 33"
  by (rule toSquare_eqI[where b = "0x200000000" and n = 33]) simp_all

lemma toSquare_8000000000: "toSquare 0x8000000000 = 39"
  by (rule toSquare_eqI[where b = "0x8000000000" and n = 39]) simp_all

lemma toSquare_20000000000: "toSquare 0x20000000000 = 41"
  by (rule toSquare_eqI[where b = "0x20000000000" and n = 41]) simp_all

lemma toSquare_30000000000: "toSquare 0x30000000000 = 40"
  by (rule toSquare_eqI[where b = "0x10000000000" and n = 40]) simp_all

lemma toSquare_30001000000: "toSquare 0x30001000000 = 24"
  by (rule toSquare_eqI[where b = "0x1000000" and n = 24]) simp_all

lemma toSquare_1000000000000: "toSquare 0x1000000000000 = 48"
  by (rule toSquare_eqI[where b = "0x1000000000000" and n = 48]) simp_all

lemma toSquare_1000000000000000: "toSquare 0x1000000000000000 = 60"
  by (rule toSquare_eqI[where b = "0x1000000000000000" and n = 60]) simp_all

lemma toSquare_2000000000000000: "toSquare 0x2000000000000000 = 61"
  by (rule toSquare_eqI[where b = "0x2000000000000000" and n = 61]) simp_all

lemma toSquare_2800000000000000: "toSquare 0x2800000000000000 = 59"
  by (rule toSquare_eqI[where b = "0x800000000000000" and n = 59]) simp_all

lemma toSquare_2820000000000000: "toSquare 0x2820000000000000 = 53"
  by (rule toSquare_eqI[where b = "0x20000000000000" and n = 53]) simp_all

lemma toSquare_2830000000000000: "toSquare 0x2830000000000000 = 52"
  by (rule toSquare_eqI[where b = "0x10000000000000" and n = 52]) simp_all

lemma toSquare_2838000000000000: "toSquare 0x2838000000000000 = 51"
  by (rule toSquare_eqI[where b = "0x8000000000000" and n = 51]) simp_all

lemma toSquare_2C00000000000000: "toSquare 0x2C00000000000000 = 58"
  by (rule toSquare_eqI[where b = "0x400000000000000" and n = 58]) simp_all

lemma toSquare_4000000000000000: "toSquare 0x4000000000000000 = 62"
  by (rule toSquare_eqI[where b = "0x4000000000000000" and n = 62]) simp_all

lemma toSquare_4200000000000000: "toSquare 0x4200000000000000 = 57"
  by (rule toSquare_eqI[where b = "0x200000000000000" and n = 57]) simp_all

lemma toSquare_6000000000000000: "toSquare 0x6000000000000000 = 61"
  by (rule toSquare_eqI[where b = "0x2000000000000000" and n = 61]) simp_all

lemma toSquare_6080000000000000: "toSquare 0x6080000000000000 = 55"
  by (rule toSquare_eqI[where b = "0x80000000000000" and n = 55]) simp_all

lemma toSquare_6080800000000000: "toSquare 0x6080800000000000 = 47"
  by (rule toSquare_eqI[where b = "0x800000000000" and n = 47]) simp_all

lemma toSquare_6080808000000000: "toSquare 0x6080808000000000 = 39"
  by (rule toSquare_eqI[where b = "0x8000000000" and n = 39]) simp_all

lemma toSquare_6080808080000000: "toSquare 0x6080808080000000 = 31"
  by (rule toSquare_eqI[where b = "0x80000000" and n = 31]) simp_all

lemma toSquare_6080808080800000: "toSquare 0x6080808080800000 = 23"
  by (rule toSquare_eqI[where b = "0x800000" and n = 23]) simp_all

lemma toSquare_6080808080808000: "toSquare 0x6080808080808000 = 15"
  by (rule toSquare_eqI[where b = "0x8000" and n = 15]) simp_all

lemma toSquare_6080808080808080: "toSquare 0x6080808080808080 = 7"
  by (rule toSquare_eqI[where b = "0x80" and n = 7]) simp_all

lemma toSquare_8000000000000000: "toSquare 0x8000000000000000 = 63"
  by (rule toSquare_eqI[where b = "0x8000000000000000" and n = 63]) simp_all

lemma toSquare_8800000000000000: "toSquare 0x8800000000000000 = 59"
  by (rule toSquare_eqI[where b = "0x800000000000000" and n = 59]) simp_all

lemma toSquare_8900000000000000: "toSquare 0x8900000000000000 = 56"
  by (rule toSquare_eqI[where b = "0x100000000000000" and n = 56]) simp_all


subsection \<open>The position \<open>rnbqkbnr/pppppppp/8/8/8/8/PPPPPPPP/RNBQKBNR w KQkq - 0 1\<close>\<close>

lemma placement_start:
  "parsePlacement 7 0 emptyBoard ''rnbqkbnr/pppppppp/8/8/8/8/PPPPPPPP/RNBQKBNR w KQkq - 0 1'' =
    (\<lparr> bitboards = [0xFF00, 0x42, 0x24, 0x81, 0x8, 0x10, 0, 0, 0xFF000000000000,
                   0x4200000000000000, 0x2400000000000000, 0x8100000000000000,
                   0x800000000000000, 0x1000000000000000],
      m_colorOccupancy = [0xFFFF, 0xFFFF000000000000],
      m_occupied = 0xFFFF00000000FFFF,
      mailbox = [WhiteRook, WhiteKnight, WhiteBishop, WhiteQueen, WhiteKing, WhiteBishop,
                 WhiteKnight, WhiteRook, WhitePawn, WhitePawn, WhitePawn, WhitePawn, WhitePawn,
                 WhitePawn, WhitePawn, WhitePawn, PieceNone, PieceNone, PieceNone, PieceNone,
                 PieceNone, PieceNone, PieceNone, PieceNone, PieceNone, PieceNone, PieceNone,
                 PieceNone, PieceNone, PieceNone, PieceNone, PieceNone, PieceNone, PieceNone,
                 PieceNone, PieceNone, PieceNone, PieceNone, PieceNone, PieceNone, PieceNone,
                 PieceNone, PieceNone, PieceNone, PieceNone, PieceNone, PieceNone, PieceNone,
                 BlackPawn, BlackPawn, BlackPawn, BlackPawn, BlackPawn, BlackPawn, BlackPawn,
                 BlackPawn, BlackRook, BlackKnight, BlackBishop, BlackQueen, BlackKing,
                 BlackBishop, BlackKnight, BlackRook] \<rparr>,
     ''w KQkq - 0 1'')"
  by (simp add: parse_eval)

lemma board_start:
  "board game_start =
    \<lparr> bitboards = [0xFF00, 0x42, 0x24, 0x81, 0x8, 0x10, 0, 0, 0xFF000000000000,
                   0x4200000000000000, 0x2400000000000000, 0x8100000000000000,
                   0x800000000000000, 0x1000000000000000],
      m_colorOccupancy = [0xFFFF, 0xFFFF000000000000],
      m_occupied = 0xFFFF00000000FFFF,
      mailbox = [WhiteRook, WhiteKnight, WhiteBishop, WhiteQueen, WhiteKing, WhiteBishop,
                 WhiteKnight, WhiteRook, WhitePawn, WhitePawn, WhitePawn, WhitePawn, WhitePawn,
                 WhitePawn, WhitePawn, WhitePawn, PieceNone, PieceNone, PieceNone, PieceNone,
                 PieceNone, PieceNone, PieceNone, PieceNone, PieceNone, PieceNone, PieceNone,
                 PieceNone, PieceNone, PieceNone, PieceNone, PieceNone, PieceNone, PieceNone,
                 PieceNone, PieceNone, PieceNone, PieceNone, PieceNone, PieceNone, PieceNone,
                 PieceNone, PieceNone, PieceNone, PieceNone, PieceNone, PieceNone, PieceNone,
                 BlackPawn, BlackPawn, BlackPawn, BlackPawn, BlackPawn, BlackPawn, BlackPawn,
                 BlackPawn, BlackRook, BlackKnight, BlackBishop, BlackQueen, BlackKing,
                 BlackBishop, BlackKnight, BlackRook] \<rparr>"
  unfolding game_start_def QuickFEN_start_def by (rule board_newGame[OF placement_start])

lemma fields_start:
  "castlingRights game_start = 15" "enPassantSquare game_start = 64"
  unfolding game_start_def QuickFEN_start_def castlingRights_newGame[OF placement_start]
    enPassantSquare_newGame[OF placement_start]
  by (simp_all add: parse_eval)

lemma rook_start_0_FFFF00000000FFFF: "rookAttack 0 0xFFFF00000000FFFF = 0x102"
  by (simp add: rookAttack_0 ray_eval)

lemma rook_start_3_FFFF00000000FFFF: "rookAttack 3 0xFFFF00000000FFFF = 0x814"
  by (simp add: rookAttack_3 ray_eval)

lemma rook_start_4_FFFF00000000EFD7: "rookAttack 4 0xFFFF00000000EFD7 = 0x1010101010106C"
  by (simp add: rookAttack_4 ray_eval)

lemma rook_start_4_FFFF00000000FFFF: "rookAttack 4 0xFFFF00000000FFFF = 0x1028"
  by (simp add: rookAttack_4 ray_eval)

lemma rook_start_7_FFFF00000000FFFF: "rookAttack 7 0xFFFF00000000FFFF = 0x8040"
  by (simp add: rookAttack_7 ray_eval)

lemma rook_start_56_FFFF00000000FFEF: "rookAttack 56 0xFFFF00000000FFEF = 0x201000000000000"
  by (simp add: rookAttack_56 ray_eval)

lemma rook_start_59_FFFF00000000FFEF: "rookAttack 59 0xFFFF00000000FFEF = 0x1408000000000000"
  by (simp add: rookAttack_59 ray_eval)

lemma rook_start_63_FFFF00000000FFEF: "rookAttack 63 0xFFFF00000000FFEF = 0x4080000000000000"
  by (simp add: rookAttack_63 ray_eval)

lemma bishop_start_2_FFFF00000000FFFF: "bishopAttack 2 0xFFFF00000000FFFF = 0xA00"
  by (simp add: bishopAttack_2 ray_eval)

lemma bishop_start_3_FFFF00000000FFFF: "bishopAttack 3 0xFFFF00000000FFFF = 0x1400"
  by (simp add: bishopAttack_3 ray_eval)

lemma bishop_start_4_FFFF00000000D7FF: "bishopAttack 4 0xFFFF00000000D7FF = 0x182442800"
  by (simp add: bishopAttack_4 ray_eval)

lemma bishop_start_4_FFFF00000000FFFF: "bishopAttack 4 0xFFFF00000000FFFF = 0x2800"
  by (simp add: bishopAttack_4 ray_eval)

lemma bishop_start_5_FFFF00000000FFFF: "bishopAttack 5 0xFFFF00000000FFFF = 0x5000"
  by (simp add: bishopAttack_5 ray_eval)

lemma bishop_start_58_FFFF00000000FFEF: "bishopAttack 58 0xFFFF00000000FFEF = 0xA000000000000"
  by (simp add: bishopAttack_58 ray_eval)

lemma bishop_start_59_FFFF00000000FFEF: "bishopAttack 59 0xFFFF00000000FFEF = 0x14000000000000"
  by (simp add: bishopAttack_59 ray_eval)

lemma bishop_start_61_FFFF00000000FFEF: "bishopAttack 61 0xFFFF00000000FFEF = 0x50000000000000"
  by (simp add: bishopAttack_61 ray_eval)

lemmas tables_start =
  rook_start_0_FFFF00000000FFFF rook_start_3_FFFF00000000FFFF rook_start_4_FFFF00000000EFD7
  rook_start_4_FFFF00000000FFFF rook_start_7_FFFF00000000FFFF rook_start_56_FFFF00000000FFEF
  rook_start_59_FFFF00000000FFEF rook_start_63_FFFF00000000FFEF
  bishop_start_2_FFFF00000000FFFF bishop_start_3_FFFF00000000FFFF
  bishop_start_4_FFFF00000000D7FF bishop_start_4_FFFF00000000FFFF
  bishop_start_5_FFFF00000000FFFF bishop_start_58_FFFF00000000FFEF
  bishop_start_59_FFFF00000000FFEF bishop_start_61_FFFF00000000FFEF knightAttack_1
  knightAttack_4 knightAttack_6 knightAttack_57 knightAttack_62 kingAttack_4
  kingAttack_60 toSquare_10 toSquare_20 toSquare_28 toSquare_2C toSquare_40 toSquare_42
  toSquare_80 toSquare_88 toSquare_89 toSquare_8000 toSquare_C000 toSquare_E000
  toSquare_F000 toSquare_F800 toSquare_FC00 toSquare_FE00 toSquare_FF00 toSquare_40000
  toSquare_50000 toSquare_800000 toSquare_A00000 toSquare_1000000000000000
  toSquare_2000000000000000 toSquare_2800000000000000 toSquare_2C00000000000000
  toSquare_4000000000000000 toSquare_4200000000000000 toSquare_8000000000000000
  toSquare_8800000000000000 toSquare_8900000000000000

lemma checkmask_start: "computeCheckmask White game_start = 0xFFFFFFFFFFFFFFFF"
  by (simp add: computeCheckmask_def board_start fields_start tables_start gen_eval)

lemma pinHV_start: "computeHorizontalVerticalPinmask White game_start = 0"
  by (simp add: computeHorizontalVerticalPinmask_def board_start fields_start tables_start gen_eval)

lemma pinD_start: "computeDiagonalPinmask White game_start = 0"
  by (simp add: computeDiagonalPinmask_def board_start fields_start tables_start gen_eval)

lemma banned_start: "computeAttackedWithoutKing White game_start = 0x7EFFFF0000000000"
  by (simp add: computeAttackedWithoutKing_def board_start fields_start tables_start gen_eval)

lemma pawnMotion_start:
  "pawnMotion White game_start 0xFFFFFFFFFFFFFFFF 0 0 =
     \<lparr> pm_quiet = 0xFF00, pm_doublePush = 0xFF00, pm_leftCapture = 0, pm_rightCapture = 0,
       pm_quietPromotion = 0, pm_leftCapturePromotion = 0,
       pm_rightCapturePromotion = 0, pm_pawnsUHV = 0xFF00 \<rparr>"
  by (simp add: pawnMotion_def board_start fields_start tables_start gen_eval)

lemma enPassantPawns_start:
  "enPassantPawns White game_start 0xFFFFFFFFFFFFFFFF 0 0xFF00 = None"
  by (simp add: enPassantPawns_def epSafe_def board_start fields_start tables_start gen_eval)

lemma emittedMoves_start:
  "emittedMoves White game_start =
    [0x210, 0x251, 0x292, 0x2D3, 0x314, 0x355, 0x396, 0x3D7, 0x1218, 0x1259, 0x129A, 0x12DB,
     0x131C, 0x135D, 0x139E, 0x13DF, 0x50, 0x52, 0x195, 0x197]"
  by (simp add: emittedMoves_def legalMoves_def legalPawnMoves_def checkmask_start pinHV_start pinD_start banned_start pawnMotion_start enPassantPawns_start board_start fields_start tables_start gen_eval emit_eval)

lemma moveStrings_start:
  "map moveString (emittedMoves White game_start) =
    [''a2a3'', ''b2b3'', ''c2c3'', ''d2d3'', ''e2e3'', ''f2f3'', ''g2g3'', ''h2h3'', ''a2a4'',
     ''b2b4'', ''c2c4'', ''d2d4'', ''e2e4'', ''f2f4'', ''g2g4'', ''h2h4'', ''b1a3'', ''b1c3'',
     ''g1f3'', ''g1h3'']"
  by (simp add: emittedMoves_start moveString_eval)

subsection \<open>The position \<open>4k2r/8/8/8/8/8/8/4K3 b k - 0 1\<close>\<close>

lemma placement_castle:
  "parsePlacement 7 0 emptyBoard ''4k2r/8/8/8/8/8/8/4K3 b k - 0 1'' =
    (\<lparr> bitboards = [0, 0, 0, 0, 0, 0x10, 0, 0, 0, 0, 0, 0x8000000000000000, 0, 0x1000000000000000],
      m_colorOccupancy = [0x10, 0x9000000000000000],
      m_occupied = 0x9000000000000010,
      mailbox = [PieceNone, PieceNone, PieceNone, PieceNone, WhiteKing, PieceNone, PieceNone,
                 PieceNone, PieceNone, PieceNone, PieceNone, PieceNone, PieceNone, PieceNone,
                 PieceNone, PieceNone, PieceNone, PieceNone, PieceNone, PieceNone, PieceNone,
                 PieceNone, PieceNone, PieceNone, PieceNone, PieceNone, PieceNone, PieceNone,
                 PieceNone, PieceNone, PieceNone, PieceNone, PieceNone, PieceNone, PieceNone,
                 PieceNone, PieceNone, PieceNone, PieceNone, PieceNone, PieceNone, PieceNone,
                 PieceNone, PieceNone, PieceNone, PieceNone, PieceNone, PieceNone, PieceNone,
                 PieceNone, PieceNone, PieceNone, PieceNone, PieceNone, PieceNone, PieceNone,
                 PieceNone, PieceNone, PieceNone, PieceNone, BlackKing, PieceNone, PieceNone,
                 BlackRook] \<rparr>,
     ''b k - 0 1'')"
  by (simp add: parse_eval)

lemma board_castle:
  "board game_castle =
    \<lparr> bitboards = [0, 0, 0, 0, 0, 0x10, 0, 0, 0, 0, 0, 0x8000000000000000, 0, 0x1000000000000000],
      m_colorOccupancy = [0x10, 0x9000000000000000],
      m_occupied = 0x9000000000000010,
      mailbox = [PieceNone, PieceNone, PieceNone, PieceNone, WhiteKing, PieceNone, PieceNone,
                 PieceNone, PieceNone, PieceNone, PieceNone, PieceNone, PieceNone, PieceNone,
                 PieceNone, PieceNone, PieceNone, PieceNone, PieceNone, PieceNone, PieceNone,
                 PieceNone, PieceNone, PieceNone, PieceNone, PieceNone, PieceNone, PieceNone,
                 PieceNone, PieceNone, PieceNone, PieceNone, PieceNone, PieceNone, PieceNone,
                 PieceNone, PieceNone, PieceNone, PieceNone, PieceNone, PieceNone, PieceNone,
                 PieceNone, PieceNone, PieceNone, PieceNone, PieceNone, PieceNone, PieceNone,
                 PieceNone, PieceNone, PieceNone, PieceNone, PieceNone, PieceNone, PieceNone,
                 PieceNone, PieceNone, PieceNone, PieceNone, BlackKing, PieceNone, PieceNone,
                 BlackRook] \<rparr>"
  unfolding game_castle_def by (rule board_newGame[OF placement_castle])

lemma fields_castle:
  "castlingRights game_castle = 4" "enPassantSquare game_castle = 64"
  unfolding game_castle_def castlingRights_newGame[OF placement_castle]
    enPassantSquare_newGame[OF placement_castle]
  by (simp_all add: parse_eval)

lemma rook_castle_60_1000000000000010: "rookAttack 60 0x1000000000000010 = 0xEF10101010101010"
  by (simp add: rookAttack_60 ray_eval)

lemma rook_castle_60_9000000000000010: "rookAttack 60 0x9000000000000010 = 0xEF10101010101010"
  by (simp add: rookAttack_60 ray_eval)

lemma rook_castle_63_9000000000000010: "rookAttack 63 0x9000000000000010 = 0x7080808080808080"
  by (simp add: rookAttack_63 ray_eval)

lemma bishop_castle_60_9000000000000010: "bishopAttack 60 0x9000000000000010 = 0x28448201000000"
  by (simp add: bishopAttack_60 ray_eval)

lemmas tables_castle =
  rook_castle_60_1000000000000010 rook_castle_60_9000000000000010
  rook_castle_63_9000000000000010 bishop_castle_60_9000000000000010 knightAttack_60
  kingAttack_4 kingAttack_60 toSquare_10 toSquare_1000000000000000
  toSquare_2000000000000000 toSquare_2800000000000000 toSquare_2820000000000000
  toSquare_2830000000000000 toSquare_2838000000000000 toSquare_4000000000000000
  toSquare_6000000000000000 toSquare_6080000000000000 toSquare_6080800000000000
  toSquare_6080808000000000 toSquare_6080808080000000 toSquare_6080808080800000
  toSquare_6080808080808000 toSquare_6080808080808080 toSquare_8000000000000000

lemma checkmask_castle: "computeCheckmask Black game_castle = 0xFFFFFFFFFFFFFFFF"
  by (simp add: computeCheckmask_def board_castle fields_castle tables_castle gen_eval)

lemma pinHV_castle: "computeHorizontalVerticalPinmask Black game_castle = 0"
  by (simp add: computeHorizontalVerticalPinmask_def board_castle fields_castle tables_castle gen_eval)

lemma pinD_castle: "computeDiagonalPinmask Black game_castle = 0"
  by (simp add: computeDiagonalPinmask_def board_castle fields_castle tables_castle gen_eval)

lemma banned_castle: "computeAttackedWithoutKing Black game_castle = 0x3828"
  by (simp add: computeAttackedWithoutKing_def board_castle fields_castle tables_castle gen_eval)

lemma pawnMotion_castle:
  "pawnMotion Black game_castle 0xFFFFFFFFFFFFFFFF 0 0 =
     \<lparr> pm_quiet = 0, pm_doublePush = 0, pm_leftCapture = 0, pm_rightCapture = 0,
       pm_quietPromotion = 0, pm_leftCapturePromotion = 0,
       pm_rightCapturePromotion = 0, pm_pawnsUHV = 0 \<rparr>"
  by (simp add: pawnMotion_def board_castle fields_castle tables_castle gen_eval)

lemma enPassantPawns_castle:
  "enPassantPawns Black game_castle 0xFFFFFFFFFFFFFFFF 0 0 = None"
  by (simp add: enPassantPawns_def epSafe_def board_castle fields_castle tables_castle gen_eval)

lemma emittedMoves_castle:
  "emittedMoves Black game_castle =
    [0xFC7, 0xFCF, 0xFD7, 0xFDF, 0xFE7, 0xFEF, 0xFF7, 0xFFD, 0xFFE, 0x2F3E, 0xF33, 0xF34,
     0xF35, 0xF3B, 0xF3D]"
  by (simp add: emittedMoves_def legalMoves_def legalPawnMoves_def checkmask_castle pinHV_castle pinD_castle banned_castle pawnMotion_castle enPassantPawns_castle board_castle fields_castle tables_castle gen_eval emit_eval)

lemma moveStrings_castle:
  "map moveString (emittedMoves Black game_castle) =
    [''h8h1'', ''h8h2'', ''h8h3'', ''h8h4'', ''h8h5'', ''h8h6'', ''h8h7'', ''h8f8'', ''h8g8'',
     ''e8g8'', ''e8d7'', ''e8e7'', ''e8f7'', ''e8d8'', ''e8f8'']"
  by (simp add: emittedMoves_castle moveString_eval)

subsection \<open>The position \<open>8/8/8/KPp4r/8/8/8/4k3 w - c6 0 1\<close>\<close>

lemma placement_ep:
  "parsePlacement 7 0 emptyBoard ''8/8/8/KPp4r/8/8/8/4k3 w - c6 0 1'' =
    (\<lparr> bitboards = [0x200000000, 0, 0, 0, 0, 0x100000000, 0, 0, 0x400000000, 0, 0, 0x8000000000,
                   0, 0x10],
      m_colorOccupancy = [0x300000000, 0x8400000010],
      m_occupied = 0x8700000010,
      mailbox = [PieceNone, PieceNone, PieceNone, PieceNone, BlackKing, PieceNone, PieceNone,
                 PieceNone, PieceNone, PieceNone, PieceNone, PieceNone, PieceNone, PieceNone,
                 PieceNone, PieceNone, PieceNone, PieceNone, PieceNone, PieceNone, PieceNone,
                 PieceNone, PieceNone, PieceNone, PieceNone, PieceNone, PieceNone, PieceNone,
                 PieceNone, PieceNone, PieceNone, PieceNone, WhiteKing, WhitePawn, BlackPawn,
                 PieceNone, PieceNone, PieceNone, PieceNone, BlackRook, PieceNone, PieceNone,
                 PieceNone, PieceNone, PieceNone, PieceNone, PieceNone, PieceNone, PieceNone,
                 PieceNone, PieceNone, PieceNone, PieceNone, PieceNone, PieceNone, PieceNone,
                 PieceNone, PieceNone, PieceNone, PieceNone, PieceNone, PieceNone, PieceNone,
                 PieceNone] \<rparr>,
     ''w - c6 0 1'')"
  by (simp add: parse_eval)

lemma board_ep:
  "board game_ep =
    \<lparr> bitboards = [0x200000000, 0, 0, 0, 0, 0x100000000, 0, 0, 0x400000000, 0, 0, 0x8000000000,
                   0, 0x10],
      m_colorOccupancy = [0x300000000, 0x8400000010],
      m_occupied = 0x8700000010,
      mailbox = [PieceNone, PieceNone, PieceNone, PieceNone, BlackKing, PieceNone, PieceNone,
                 PieceNone, PieceNone, PieceNone, PieceNone, PieceNone, PieceNone, PieceNone,
                 PieceNone, PieceNone, PieceNone, PieceNone, PieceNone, PieceNone, PieceNone,
                 PieceNone, PieceNone, PieceNone, PieceNone, PieceNone, PieceNone, PieceNone,
                 PieceNone, PieceNone, PieceNone, PieceNone, WhiteKing, WhitePawn, BlackPawn,
                 PieceNone, PieceNone, PieceNone, PieceNone, BlackRook, PieceNone, PieceNone,
                 PieceNone, PieceNone, PieceNone, PieceNone, PieceNone, PieceNone, PieceNone,
                 PieceNone, PieceNone, PieceNone, PieceNone, PieceNone, PieceNone, PieceNone,
                 PieceNone, PieceNone, PieceNone, PieceNone, PieceNone, PieceNone, PieceNone,
                 PieceNone] \<rparr>"
  unfolding game_ep_def by (rule board_newGame[OF placement_ep])

lemma fields_ep:
  "castlingRights game_ep = 0" "enPassantSquare game_ep = 42"
  unfolding game_ep_def castlingRights_newGame[OF placement_ep]
    enPassantSquare_newGame[OF placement_ep]
  by (simp_all add: parse_eval)

lemma rook_ep_32_8500000010: "rookAttack 32 0x8500000010 = 0x101010601010101"
  by (simp add: rookAttack_32 ray_eval)

lemma rook_ep_32_8700000010: "rookAttack 32 0x8700000010 = 0x101010201010101"
  by (simp add: rookAttack_32 ray_eval)

lemma rook_ep_32_48100000010: "rookAttack 32 0x48100000010 = 0x10101FE01010101"
  by (simp add: rookAttack_32 ray_eval)

lemma rook_ep_39_8600000010: "rookAttack 39 0x8600000010 = 0x8080807C80808080"
  by (simp add: rookAttack_39 ray_eval)

lemma bishop_ep_32_8700000010: "bishopAttack 32 0x8700000010 = 0x804020002040810"
  by (simp add: bishopAttack_32 ray_eval)

lemmas tables_ep =
  rook_ep_32_8500000010 rook_ep_32_8700000010 rook_ep_32_48100000010 rook_ep_39_8600000010
  bishop_ep_32_8700000010 knightAttack_32 kingAttack_4 kingAttack_32 toSquare_10
  toSquare_100000000 toSquare_200000000 toSquare_8000000000 toSquare_20000000000
  toSquare_30000000000 toSquare_30001000000

lemma checkmask_ep: "computeCheckmask White game_ep = 0xFFFFFFFFFFFFFFFF"
  by (simp add: computeCheckmask_def board_ep fields_ep tables_ep gen_eval)

lemma pinHV_ep: "computeHorizontalVerticalPinmask White game_ep = 0"
  by (simp add: computeHorizontalVerticalPinmask_def board_ep fields_ep tables_ep gen_eval)

lemma pinD_ep: "computeDiagonalPinmask White game_ep = 0"
  by (simp add: computeDiagonalPinmask_def board_ep fields_ep tables_ep gen_eval)

lemma banned_ep: "computeAttackedWithoutKing White game_ep = 0x8080807C8A80B8A8"
  by (simp add: computeAttackedWithoutKing_def board_ep fields_ep tables_ep gen_eval)

lemma pawnMotion_ep:
  "pawnMotion White game_ep 0xFFFFFFFFFFFFFFFF 0 0 =
     \<lparr> pm_quiet = 0x200000000, pm_doublePush = 0, pm_leftCapture = 0, pm_rightCapture = 0,
       pm_quietPromotion = 0, pm_leftCapturePromotion = 0,
       pm_rightCapturePromotion = 0, pm_pawnsUHV = 0x200000000 \<rparr>"
  by (simp add: pawnMotion_def board_ep fields_ep tables_ep gen_eval)

lemma enPassantPawns_ep:
  "enPassantPawns White game_ep 0xFFFFFFFFFFFFFFFF 0 0x200000000 = None"
  by (simp add: enPassantPawns_def epSafe_def board_ep fields_ep tables_ep gen_eval)

lemma emittedMoves_ep:
  "emittedMoves White game_ep =
    [0x869, 0x818, 0x828, 0x829]"
  by (simp add: emittedMoves_def legalMoves_def legalPawnMoves_def checkmask_ep pinHV_ep pinD_ep banned_ep pawnMotion_ep enPassantPawns_ep board_ep fields_ep tables_ep gen_eval emit_eval)

lemma moveStrings_ep:
  "map moveString (emittedMoves White game_ep) =
    [''b5b6'', ''a5a4'', ''a5a6'', ''a5b6'']"
  by (simp add: emittedMoves_ep moveString_eval)

subsection \<open>The position \<open>8/8/8/KPpP3r/8/8/8/4k3 w - c6 0 1\<close>\<close>

lemma placement_ep2:
  "parsePlacement 7 0 emptyBoard ''8/8/8/KPpP3r/8/8/8/4k3 w - c6 0 1'' =
    (\<lparr> bitboards = [0xA00000000, 0, 0, 0, 0, 0x100000000, 0, 0, 0x400000000, 0, 0, 0x8000000000,
                   0, 0x10],
      m_colorOccupancy = [0xB00000000, 0x8400000010],
      m_occupied = 0x8F00000010,
      mailbox = [PieceNone, PieceNone, PieceNone, PieceNone, BlackKing, PieceNone, PieceNone,
                 PieceNone, PieceNone, PieceNone, PieceNone, PieceNone, PieceNone, PieceNone,
                 PieceNone, PieceNone, PieceNone, PieceNone, PieceNone, PieceNone, PieceNone,
                 PieceNone, PieceNone, PieceNone, PieceNone, PieceNone, PieceNone, PieceNone,
                 PieceNone, PieceNone, PieceNone, PieceNone, WhiteKing, WhitePawn, BlackPawn,
                 WhitePawn, PieceNone, PieceNone, PieceNone, BlackRook, PieceNone, PieceNone,
                 PieceNone, PieceNone, PieceNone, PieceNone, PieceNone, PieceNone, PieceNone,
                 PieceNone, PieceNone, PieceNone, PieceNone, PieceNone, PieceNone, PieceNone,
                 PieceNone, PieceNone, PieceNone, PieceNone, PieceNone, PieceNone, PieceNone,
                 PieceNone] \<rparr>,
     ''w - c6 0 1'')"
  by (simp add: parse_eval)

lemma board_ep2:
  "board game_ep2 =
    \<lparr> bitboards = [0xA00000000, 0, 0, 0, 0, 0x100000000, 0, 0, 0x400000000, 0, 0, 0x8000000000,
                   0, 0x10],
      m_colorOccupancy = [0xB00000000, 0x8400000010],
      m_occupied = 0x8F00000010,
      mailbox = [PieceNone, PieceNone, PieceNone, PieceNone, BlackKing, PieceNone, PieceNone,
                 PieceNone, PieceNone, PieceNone, PieceNone, PieceNone, PieceNone, PieceNone,
                 PieceNone, PieceNone, PieceNone, PieceNone, PieceNone, PieceNone, PieceNone,
                 PieceNone, PieceNone, PieceNone, PieceNone, PieceNone, PieceNone, PieceNone,
                 PieceNone, PieceNone, PieceNone, PieceNone, WhiteKing, WhitePawn, BlackPawn,
                 WhitePawn, PieceNone, PieceNone, PieceNone, BlackRook, PieceNone, PieceNone,
                 PieceNone, PieceNone, PieceNone, PieceNone, PieceNone, PieceNone, PieceNone,
                 PieceNone, PieceNone, PieceNone, PieceNone, PieceNone, PieceNone, PieceNone,
                 PieceNone, PieceNone, PieceNone, PieceNone, PieceNone, PieceNone, PieceNone,
                 PieceNone] \<rparr>"
  unfolding game_ep2_def by (rule board_newGame[OF placement_ep2])

lemma fields_ep2:
  "castlingRights game_ep2 = 0" "enPassantSquare game_ep2 = 42"
  unfolding game_ep2_def castlingRights_newGame[OF placement_ep2]
    enPassantSquare_newGame[OF placement_ep2]
  by (simp_all add: parse_eval)

lemma rook_ep2_32_8D00000010: "rookAttack 32 0x8D00000010 = 0x101010601010101"
  by (simp add: rookAttack_32 ray_eval)

lemma rook_ep2_32_8F00000010: "rookAttack 32 0x8F00000010 = 0x101010201010101"
  by (simp add: rookAttack_32 ray_eval)

lemma rook_ep2_39_8E00000010: "rookAttack 39 0x8E00000010 = 0x8080807880808080"
  by (simp add: rookAttack_39 ray_eval)

lemma bishop_ep2_32_8F00000010: "bishopAttack 32 0x8F00000010 = 0x804020002040810"
  by (simp add: bishopAttack_32 ray_eval)

lemmas tables_ep2 =
  rook_ep2_32_8D00000010 rook_ep2_32_8F00000010 rook_ep2_39_8E00000010
  bishop_ep2_32_8F00000010 knightAttack_32 kingAttack_4 kingAttack_32 toSquare_10
  toSquare_100000000 toSquare_200000000 toSquare_800000000 toSquare_A00000000
  toSquare_8000000000 toSquare_20000000000 toSquare_30000000000 toSquare_30001000000

lemma checkmask_ep2: "computeCheckmask White game_ep2 = 0xFFFFFFFFFFFFFFFF"
  by (simp add: computeCheckmask_def board_ep2 fields_ep2 tables_ep2 gen_eval)

lemma pinHV_ep2: "computeHorizontalVerticalPinmask White game_ep2 = 0"
  by (simp add: computeHorizontalVerticalPinmask_def board_ep2 fields_ep2 tables_ep2 gen_eval)

lemma pinD_ep2: "computeDiagonalPinmask White game_ep2 = 0"
  by (simp add: computeDiagonalPinmask_def board_ep2 fields_ep2 tables_ep2 gen_eval)

lemma banned_ep2: "computeAttackedWithoutKing White game_ep2 = 0x808080788A80B8A8"
  by (simp add: computeAttackedWithoutKing_def board_ep2 fields_ep2 tables_ep2 gen_eval)

lemma pawnMotion_ep2:
  "pawnMotion White game_ep2 0xFFFFFFFFFFFFFFFF 0 0 =
     \<lparr> pm_quiet = 0xA00000000, pm_doublePush = 0, pm_leftCapture = 0, pm_rightCapture = 0,
       pm_quietPromotion = 0, pm_leftCapturePromotion = 0,
       pm_rightCapturePromotion = 0, pm_pawnsUHV = 0xA00000000 \<rparr>"
  by (simp add: pawnMotion_def board_ep2 fields_ep2 tables_ep2 gen_eval)

lemma enPassantPawns_ep2:
  "enPassantPawns White game_ep2 0xFFFFFFFFFFFFFFFF 0 0xA00000000 = Some (0x800000000, 0x200000000)"
  by (simp add: enPassantPawns_def epSafe_def board_ep2 fields_ep2 tables_ep2 gen_eval)

lemma emittedMoves_ep2:
  "emittedMoves White game_ep2 =
    [0x58EA, 0x586A, 0x869, 0x8EB, 0x818, 0x828, 0x829]"
  by (simp add: emittedMoves_def legalMoves_def legalPawnMoves_def checkmask_ep2 pinHV_ep2 pinD_ep2 banned_ep2 pawnMotion_ep2 enPassantPawns_ep2 board_ep2 fields_ep2 tables_ep2 gen_eval emit_eval)

lemma moveStrings_ep2:
  "map moveString (emittedMoves White game_ep2) =
    [''d5c6'', ''b5c6'', ''b5b6'', ''d5d6'', ''a5a4'', ''a5a6'', ''a5b6'']"
  by (simp add: emittedMoves_ep2 moveString_eval)

subsection \<open>The position \<open>7k/P7/8/8/8/8/8/K7 w - - 0 1\<close>\<close>

lemma placement_promo:
  "parsePlacement 7 0 emptyBoard ''7k/P7/8/8/8/8/8/K7 w - - 0 1'' =
    (\<lparr> bitboards = [0x1000000000000, 0, 0, 0, 0, 0x1, 0, 0, 0, 0, 0, 0, 0, 0x8000000000000000],
      m_colorOccupancy = [0x1000000000001, 0x8000000000000000],
      m_occupied = 0x8001000000000001,
      mailbox = [WhiteKing, PieceNone, PieceNone, PieceNone, PieceNone, PieceNone, PieceNone,
                 PieceNone, PieceNone, PieceNone, PieceNone, PieceNone, PieceNone, PieceNone,
                 PieceNone, PieceNone, PieceNone, PieceNone, PieceNone, PieceNone, PieceNone,
                 PieceNone, PieceNone, PieceNone, PieceNone, PieceNone, PieceNone, PieceNone,
                 PieceNone, PieceNone, PieceNone, PieceNone, PieceNone, PieceNone, PieceNone,
                 PieceNone, PieceNone, PieceNone, PieceNone, PieceNone, PieceNone, PieceNone,
                 PieceNone, PieceNone, PieceNone, PieceNone, PieceNone, PieceNone, WhitePawn,
                 PieceNone, PieceNone, PieceNone, PieceNone, PieceNone, PieceNone, PieceNone,
                 PieceNone, PieceNone, PieceNone, PieceNone, PieceNone, PieceNone, PieceNone,
                 BlackKing] \<rparr>,
     ''w - - 0 1'')"
  by (simp add: parse_eval)

lemma board_promo:
  "board game_promo =
    \<lparr> bitboards = [0x1000000000000, 0, 0, 0, 0, 0x1, 0, 0, 0, 0, 0, 0, 0, 0x8000000000000000],
      m_colorOccupancy = [0x1000000000001, 0x8000000000000000],
      m_occupied = 0x8001000000000001,
      mailbox = [WhiteKing, PieceNone, PieceNone, PieceNone, PieceNone, PieceNone, PieceNone,
                 PieceNone, PieceNone, PieceNone, PieceNone, PieceNone, PieceNone, PieceNone,
                 PieceNone, PieceNone, PieceNone, PieceNone, PieceNone, PieceNone, PieceNone,
                 PieceNone, PieceNone, PieceNone, PieceNone, PieceNone, PieceNone, PieceNone,
                 PieceNone, PieceNone, PieceNone, PieceNone, PieceNone, PieceNone, PieceNone,
                 PieceNone, PieceNone, PieceNone, PieceNone, PieceNone, PieceNone, PieceNone,
                 PieceNone, PieceNone, PieceNone, PieceNone, PieceNone, PieceNone, WhitePawn,
                 PieceNone, PieceNone, PieceNone, PieceNone, PieceNone, PieceNone, PieceNone,
                 PieceNone, PieceNone, PieceNone, PieceNone, PieceNone, PieceNone, PieceNone,
                 BlackKing] \<rparr>"
  unfolding game_promo_def by (rule board_newGame[OF placement_promo])

lemma fields_promo:
  "castlingRights game_promo = 0" "enPassantSquare game_promo = 64"
  unfolding game_promo_def castlingRights_newGame[OF placement_promo]
    enPassantSquare_newGame[OF placement_promo]
  by (simp_all add: parse_eval)

lemma rook_promo_0_8000000000000001: "rookAttack 0 0x8000000000000001 = 0x1010101010101FE"
  by (simp add: rookAttack_0 ray_eval)

lemma rook_promo_0_8001000000000001: "rookAttack 0 0x8001000000000001 = 0x10101010101FE"
  by (simp add: rookAttack_0 ray_eval)

lemma bishop_promo_0_8001000000000001: "bishopAttack 0 0x8001000000000001 = 0x8040201008040200"
  by (simp add: bishopAttack_0 ray_eval)

lemmas tables_promo =
  rook_promo_0_8000000000000001 rook_promo_0_8001000000000001
  bishop_promo_0_8001000000000001 knightAttack_0 kingAttack_0 kingAttack_63 toSquare_1
  toSquare_200 toSquare_300 toSquare_302 toSquare_1000000000000 toSquare_8000000000000000

lemma checkmask_promo: "computeCheckmask White game_promo = 0xFFFFFFFFFFFFFFFF"
  by (simp add: computeCheckmask_def board_promo fields_promo tables_promo gen_eval)

lemma pinHV_promo: "computeHorizontalVerticalPinmask White game_promo = 0"
  by (simp add: computeHorizontalVerticalPinmask_def board_promo fields_promo tables_promo gen_eval)

lemma pinD_promo: "computeDiagonalPinmask White game_promo = 0"
  by (simp add: computeDiagonalPinmask_def board_promo fields_promo tables_promo gen_eval)

lemma banned_promo: "computeAttackedWithoutKing White game_promo = 0x40C0000000000000"
  by (simp add: computeAttackedWithoutKing_def board_promo fields_promo tables_promo gen_eval)

lemma pawnMotion_promo:
  "pawnMotion White game_promo 0xFFFFFFFFFFFFFFFF 0 0 =
     \<lparr> pm_quiet = 0, pm_doublePush = 0, pm_leftCapture = 0, pm_rightCapture = 0,
       pm_quietPromotion = 0x1000000000000, pm_leftCapturePromotion = 0,
       pm_rightCapturePromotion = 0, pm_pawnsUHV = 0x1000000000000 \<rparr>"
  by (simp add: pawnMotion_def board_promo fields_promo tables_promo gen_eval)

lemma enPassantPawns_promo:
  "enPassantPawns White game_promo 0xFFFFFFFFFFFFFFFF 0 0x1000000000000 = None"
  by (simp add: enPassantPawns_def epSafe_def board_promo fields_promo tables_promo gen_eval)

lemma emittedMoves_promo:
  "emittedMoves White game_promo =
    [0xBC38, 0xAC38, 0x8C38, 0x9C38, 0x1, 0x8, 0x9]"
  by (simp add: emittedMoves_def legalMoves_def legalPawnMoves_def checkmask_promo pinHV_promo pinD_promo banned_promo pawnMotion_promo enPassantPawns_promo board_promo fields_promo tables_promo gen_eval emit_eval)

lemma moveStrings_promo:
  "map moveString (emittedMoves White game_promo) =
    [''a7a8q'', ''a7a8r'', ''a7a8n'', ''a7a8b'', ''a1b1'', ''a1a2'', ''a1b2'']"
  by (simp add: emittedMoves_promo moveString_eval)

subsection \<open>The starting position\<close>

lemma turn_newGame:
  assumes "parsePlacement 7 0 emptyBoard fen = (b, s)"
  shows "turn (newGame fen) = (case s of c # _ \<Rightarrow> if c = CHR ''w'' then White else Black | [] \<Rightarrow> Black)"
  using assms
  by (simp add: turn_def newGame_def init_def setupIncrementalState_def Let_def split: prod.split)

lemma turn_start: "turn game_start = White"
  unfolding game_start_def QuickFEN_start_def turn_newGame[OF placement_start] by simp

text \<open>
  Claim C8. From the standard starting position, with White to move, the generator emits
  exactly 20 moves to a collecting sink; \<open>e2e4\<close> and \<open>g1f3\<close> are among them and
  \<open>a1a3\<close> is not; \<open>legalMoveCount\<close> returns 20 on the same position.
\<close>

theorem start_position_twenty_moves:
  "turn game_start = White \<and>
   length (emittedMoves White game_start) = 20 \<and>
   ''e2e4'' \<in> set (map moveString (emittedMoves White game_start)) \<and>
   ''g1f3'' \<in> set (map moveString (emittedMoves White game_start)) \<and>
   ''a1a3'' \<notin> set (map moveString (emittedMoves White game_start)) \<and>
   legalMoveCount White game_start = 20"
proof -
  have len: "length (emittedMoves White game_start) = 20"
    by (simp add: emittedMoves_start)
  have cnt: "legalMoveCount White game_start = 20"
    by (simp add: legalMoveCount_of_nat len)
  show ?thesis
    unfolding moveStrings_start using turn_start len cnt by simp
qed

subsection \<open>The UCI move decoder\<close>

lemmas convert_eval = convertToMove_def convertToSquare_def convertPawnMove_def promotionFlags_def
  pieceAt_def getPieceType_def getPieceColor_def SquareNone_def spotOf_def Let_def
  shouldUnoccupiedKingside_def shouldUnoccupiedQueenside_def squaresBetweenUnordered_def
  squaresBetween_def occupied_def mask_defs flag_defs

lemma convert_promo: "convertToMove White game_promo ''a7a8'' = Move 48 56 QuietMove"
  by (simp add: convert_eval board_promo)

lemma convert_castle: "convertToMove Black game_castle ''e8c8'' = Move 60 58 QueenCastle"
  by (simp add: convert_eval board_castle kingAttack_60)


text \<open>
  Claim C7. \<open>convertToMove\<close> is documented to return a pseudolegal move, or the null
  move for an invalid string. Two inputs on which it returns neither:

    \<^item> In \<open>7k/P7/8/8/8/8/8/K7 w - - 0 1\<close> the string \<open>a7a8\<close> (a pawn stepping onto the
      last rank, no promotion letter) is decoded with the flag \<open>MoveFlags::Zero\<close>: the
      result is the quiet move a7a8, which is not null, is not a promotion, and is not
      among the moves the generator emits.

    \<^item> In \<open>4k2r/8/8/8/8/8/8/4K3 b k - 0 1\<close> the string \<open>e8c8\<close> is decoded as a queenside
      castle, although Black has no queenside castling right and no rook stands on a8:
      the king branch tests only that the squares between king and rook are empty.
\<close>

theorem convertToMove_returns_unplayable_moves:
  "convertToMove White game_promo ''a7a8'' = Move 48 56 QuietMove \<and>
   convertToMove White game_promo ''a7a8'' \<noteq> nullMove \<and>
   \<not> isPromotion (convertToMove White game_promo ''a7a8'') \<and>
   pieceAt (board game_promo) 48 = WhitePawn \<and>
   spotOf 56 AND Rank8 \<noteq> 0 \<and>
   convertToMove White game_promo ''a7a8'' \<notin> set (emittedMoves White game_promo) \<and>
   convertToMove Black game_castle ''e8c8'' = Move 60 58 QueenCastle \<and>
   convertToMove Black game_castle ''e8c8'' \<noteq> nullMove \<and>
   castlingRights game_castle AND queensideCastleFlag Black = 0 \<and>
   pieceAt (board game_castle) (queensideCastleRookFromSquare Black) = PieceNone \<and>
   convertToMove Black game_castle ''e8c8'' \<notin> set (emittedMoves Black game_castle)"
  unfolding convert_promo convert_castle emittedMoves_promo emittedMoves_castle
  by (simp add: Move_def flag_defs nullMove_def isPromotion_def pieceAt_def board_promo
      board_castle fields_castle spotOf_def Rank8_def)

theorem convertToMove_returns_unplayable_moves_witness:
  "convertToMove White game_promo ''a7a8'' = Move 48 56 QuietMove \<and>
   convertToMove Black game_castle ''e8c8'' = Move 60 58 QueenCastle"
  using convertToMove_returns_unplayable_moves by simp

subsection \<open>The blocks of the generator and the flags of their moves\<close>

lemma foldBits_emit_list:
  "foldBits (\<lambda>from ms. ms @ f from) bb ms = ms @ concat (map f (squaresOf bb))"
  by (simp add: foldBits_fold fold_snoc_concat)

lemma foldBits_emit_one:
  "foldBits (\<lambda>from ms. ms @ [f from]) bb ms = ms @ map f (squaresOf bb)"
  using foldBits_emit_list[of "\<lambda>from. [f from]" bb ms] by (simp add: concat_map_singleton)

lemma emitTargets_snoc:
  "emitTargets (\<lambda>m ms. ms @ [m]) enemy from legal = (\<lambda>ms. ms @ targetMoves enemy from legal)"
  by (rule ext) (simp add: emitTargets_def targetMoves_def foldBits_emit_one)

lemma emitPromotions_snoc:
  "emitPromotions (\<lambda>m ms. ms @ [m]) from to capture = (\<lambda>ms. ms @ promotionMoves from to capture)"
  by (rule ext) (simp add: emitPromotions_def promotionMoves_def)

lemma legalPawnMoves_snoc:
  "legalPawnMoves c game checkmask pinHV pinD (\<lambda>m ms. ms @ [m]) ms =
   ms @ enPassantMoves c game checkmask pinD (pm_pawnsUHV (pawnMotion c game checkmask pinHV pinD)) @
   plainPawnMoves c game checkmask pinHV pinD @ pawnPromotions c game checkmask pinHV pinD"
  unfolding legalPawnMoves_def plainPawnMoves_def pawnPromotions_def promotionSteps_def
    enPassantMoves_def Let_def
  by (simp add: foldBits_emit_one foldBits_emit_list emitPromotions_snoc comp_def
      split: option.split)

lemma emittedMoves_eq:
  "emittedMoves c game =
     (let checkmask = computeCheckmask c game;
          pinHV = computeHorizontalVerticalPinmask c game;
          pinD = computeDiagonalPinmask c game
      in enPassantMoves c game checkmask pinD (pawns c (board game) AND NOT pinHV) @
         plainPawnMoves c game checkmask pinHV pinD @ pawnPromotions c game checkmask pinHV pinD @
         pieceMoves c game checkmask pinHV pinD @ castlingMoves c game @ kingMoves c game)"
  unfolding emittedMoves_def legalMoves_def pieceMoves_def castlingMoves_def kingMoves_def Let_def
  by (simp add: legalPawnMoves_snoc foldBits_emit_list emitTargets_snoc pawnMotion_def Let_def)

lemma int_bit_bound: "0 \<le> (x::int) \<Longrightarrow> x < 2 ^ n \<Longrightarrow> bit x k \<Longrightarrow> k < n"
proof -
  assume a: "0 \<le> x" "x < 2 ^ n" "bit x k"
  have "take_bit n x = x" using a by (simp add: take_bit_int_eq_self)
  then have "bit (take_bit n x) k" using a by simp
  then show ?thesis by (simp add: bit_take_bit_iff)
qed

lemma getFlags_Move:
  assumes "0 \<le> from" "from < 64" "0 \<le> to" "to < 64" "0 \<le> fl" "fl < 16"
  shows "getFlags (Move from to fl) = fl"
proof -
  have f: "bit from k \<Longrightarrow> k < 6" for k using int_bit_bound[of "from" 6 k] assms by simp
  have t: "bit to k \<Longrightarrow> k < 6" for k using int_bit_bound[of to 6 k] assms by simp
  have l: "bit fl k \<Longrightarrow> k < 4" for k using int_bit_bound[of fl 4 k] assms by simp
  have "drop_bit 12 (Move from to fl) = (word_of_int fl :: 16 word)"
    unfolding Move_def
    by (rule bit_word_eqI) (auto simp: bit_simps dest: f t l)
  then have "getFlags (Move from to fl) = uint (word_of_int fl :: 16 word)"
    by (simp add: getFlags_def)
  also have "\<dots> = fl" using assms by (simp add: uint_word_of_int take_bit_int_eq_self)
  finally show ?thesis .
qed

lemma getTo_Move:
  assumes "0 \<le> from" "from < 64" "0 \<le> to" "to < 64" "0 \<le> fl" "fl < 16"
  shows "getTo (Move from to fl) = to"
proof -
  have t: "bit to k \<Longrightarrow> k < 6" for k using int_bit_bound[of to 6 k] assms by simp
  have m: "(0x3F :: 16 word) = mask 6" by (simp add: mask_eq_exp_minus_1)
  have "Move from to fl AND 0x3F = (word_of_int to :: 16 word)"
    unfolding Move_def m
    by (rule bit_word_eqI) (auto simp: bit_simps dest: t)
  then have "getTo (Move from to fl) = uint (word_of_int to :: 16 word)"
    by (simp add: getTo_def)
  also have "\<dots> = to" using assms by (simp add: uint_word_of_int take_bit_int_eq_self)
  finally show ?thesis .
qed

lemma getFrom_Move:
  assumes "0 \<le> from" "from < 64" "0 \<le> to" "to < 64" "0 \<le> fl" "fl < 16"
  shows "getFrom (Move from to fl) = from"
proof -
  have f: "bit from k \<Longrightarrow> k < 6" for k using int_bit_bound[of "from" 6 k] assms by simp
  have t: "bit to k \<Longrightarrow> k < 6" for k using int_bit_bound[of to 6 k] assms by simp
  have m: "(0x3F :: 16 word) = mask 6" by (simp add: mask_eq_exp_minus_1)
  have "drop_bit 6 (Move from to fl) AND 0x3F = (word_of_int from :: 16 word)"
    unfolding Move_def m
    by (rule bit_word_eqI) (auto simp: bit_simps dest: f t)
  then have "getFrom (Move from to fl) = uint (word_of_int from :: 16 word)"
    by (simp add: getFrom_def)
  also have "\<dots> = from" using assms by (simp add: uint_word_of_int take_bit_int_eq_self)
  finally show ?thesis .
qed

lemma flags_field: "(m :: 16 word) AND push_bit 12 15 = push_bit 12 (drop_bit 12 m)"
proof -
  have e: "(15 :: 16 word) = mask 4" by (simp add: mask_eq_exp_minus_1)
  show ?thesis unfolding e
    by (rule bit_word_eqI) (auto simp: bit_simps)
qed

lemma flags_field_eq:
  assumes "0 \<le> k" "k < 16"
  shows "(m :: 16 word) AND push_bit 12 15 = push_bit 12 (word_of_int k) \<longleftrightarrow> getFlags m = k"
proof -
  have dp: "drop_bit 12 (push_bit 12 x) = take_bit 4 x" for x :: "16 word"
    by (rule bit_word_eqI) (auto simp: bit_simps)
  have t1: "take_bit 4 (drop_bit 12 m) = drop_bit 12 m"
    by (rule bit_word_eqI) (auto simp: bit_simps dest: bit_imp_le_length)
  have kb: "bit k j \<Longrightarrow> j < 4" for j using int_bit_bound[of k 4 j] assms by simp
  have t2: "take_bit 4 (word_of_int k :: 16 word) = word_of_int k"
    by (rule bit_word_eqI) (auto simp: bit_simps dest: kb)
  have u: "uint (word_of_int k :: 16 word) = k"
    using assms by (simp add: uint_word_of_int take_bit_int_eq_self)
  show ?thesis
  proof
    assume "m AND push_bit 12 15 = push_bit 12 (word_of_int k)"
    then have "push_bit 12 (drop_bit 12 m) = push_bit 12 (word_of_int k :: 16 word)"
      by (simp only: flags_field)
    then have "drop_bit 12 (push_bit 12 (drop_bit 12 m)) = drop_bit 12 (push_bit 12 (word_of_int k :: 16 word))"
      by (simp only:)
    then have "drop_bit 12 m = word_of_int k" by (simp only: dp t1 t2)
    then show "getFlags m = k" by (simp add: getFlags_def u)
  next
    assume "getFlags m = k"
    then have "word_of_int (uint (drop_bit 12 m)) = (word_of_int k :: 16 word)"
      by (simp add: getFlags_def)
    then have "drop_bit 12 m = word_of_int k" by simp
    then show "m AND push_bit 12 15 = push_bit 12 (word_of_int k)" by (simp only: flags_field)
  qed
qed

lemma flag_tests:
  "isQuietMove m \<longleftrightarrow> getFlags m = 0"
  "isDoublePawnPush m \<longleftrightarrow> getFlags m = 1"
  "isKingsideCastle m \<longleftrightarrow> getFlags m = 2"
  "isQueensideCastle m \<longleftrightarrow> getFlags m = 3"
  "isEnPassant m \<longleftrightarrow> getFlags m = 5"
  using flags_field_eq[of 0 m] flags_field_eq[of 1 m] flags_field_eq[of 2 m]
    flags_field_eq[of 3 m] flags_field_eq[of 5 m]
  by (simp_all add: isQuietMove_def isDoublePawnPush_def isKingsideCastle_def
      isQueensideCastle_def isEnPassant_def)

lemma getFlags_range: "0 \<le> getFlags m \<and> getFlags m < 16"
proof -
  have t1: "take_bit 4 (drop_bit 12 m) = drop_bit 12 m"
    by (rule bit_word_eqI) (auto simp: bit_simps dest: bit_imp_le_length)
  have "uint (take_bit 4 (drop_bit 12 m)) < 2 ^ 4"
    by (simp only: unsigned_take_bit_eq take_bit_int_less_exp)
  then show ?thesis by (simp add: getFlags_def t1)
qed

lemma isPromotion_iff: "isPromotion m \<longleftrightarrow> 8 \<le> getFlags m"
proof -
  have a0: "m AND push_bit k 1 = push_bit k 1 \<longleftrightarrow> bit m k" if k: "k < 16" for k
  proof
    assume "m AND push_bit k 1 = push_bit k 1"
    then have "bit (m AND push_bit k 1) k = bit (push_bit k 1 :: 16 word) k" by simp
    then show "bit m k" using k by (simp add: bit_simps)
  next
    assume "bit m k"
    then show "m AND push_bit k 1 = push_bit k 1"
      by - (rule bit_word_eqI, auto simp: bit_simps)
  qed
  have a: "m AND push_bit 15 1 = push_bit 15 1 \<longleftrightarrow> bit m 15"
    by (rule a0) simp
  have b: "bit m 15 \<longleftrightarrow> bit (uint (drop_bit 12 m)) 3"
    by (simp add: bit_simps bit_uint_iff)
  have c: "bit (u::int) 3 \<longleftrightarrow> odd (u div 8)" for u
    by (simp add: bit_iff_odd_drop_bit drop_bit_eq_div)
  have r: "0 \<le> getFlags m \<and> getFlags m < 16" by (rule getFlags_range)
  have d: "odd (getFlags m div 8) \<longleftrightarrow> 8 \<le> getFlags m" using r by presburger
  have "isPromotion m \<longleftrightarrow> bit m 15" unfolding isPromotion_def by (rule a)
  also have "\<dots> \<longleftrightarrow> odd (getFlags m div 8)" unfolding b c getFlags_def ..
  finally show ?thesis unfolding d .
qed

lemma drop12_Move:
  assumes "0 \<le> from" "from < 64" "0 \<le> to" "to < 64" "0 \<le> fl" "fl < 16"
  shows "drop_bit 12 (Move from to fl) = word_of_int fl"
proof -
  have f: "bit from k \<Longrightarrow> k < 6" for k using int_bit_bound[of "from" 6 k] assms by simp
  have t: "bit to k \<Longrightarrow> k < 6" for k using int_bit_bound[of to 6 k] assms by simp
  have l: "bit fl k \<Longrightarrow> k < 4" for k using int_bit_bound[of fl 4 k] assms by simp
  show ?thesis
    unfolding Move_def
    by (rule bit_word_eqI) (auto simp: bit_simps dest: f t l)
qed

lemma fwd_bit:
  "bit (forward (notColor c) x) n \<Longrightarrow> (c = White \<longrightarrow> n + 8 < 64) \<and> (c = Black \<longrightarrow> 8 \<le> n)"
  for x :: Bitboard
  by (cases c) (auto simp: bit_simps dest: bit_imp_le_length)

lemma dfwd_bit:
  "bit (doubleForward (notColor c) x) n \<Longrightarrow> (c = White \<longrightarrow> n + 16 < 64) \<and> (c = Black \<longrightarrow> 16 \<le> n)"
  for x :: Bitboard
  by (cases c) (auto simp: bit_simps dest: bit_imp_le_length)

lemma rleft_bit:
  fixes x :: Bitboard
  assumes "bit (reverseLeftPawnAttack c x) n"
  shows "(c = White \<longrightarrow> 1 \<le> n \<and> n + 7 < 64) \<and> (c = Black \<longrightarrow> 9 \<le> n)"
proof (cases c)
  case White
  show ?thesis
    using assms unfolding reverseLeftPawnAttack_def White bit_shl1
    by (auto simp: bit_simps dest: bit_imp_le_length)
next
  case Black
  show ?thesis
    using assms unfolding reverseLeftPawnAttack_def Black bit_shl1
    by (auto simp: bit_simps dest: bit_imp_le_length)
qed

lemma rright_bit:
  fixes x :: Bitboard
  assumes "bit (reverseRightPawnAttack c x) n"
  shows "(c = White \<longrightarrow> n + 9 < 64) \<and> (c = Black \<longrightarrow> 7 \<le> n)"
proof (cases c)
  case White
  show ?thesis
    using assms unfolding reverseRightPawnAttack_def White bit_shr1
    by (auto simp: bit_simps dest: bit_imp_le_length)
next
  case Black
  show ?thesis
    using assms unfolding reverseRightPawnAttack_def Black bit_shr1
    by (auto simp: bit_simps dest: bit_imp_le_length)
qed

lemma pm_quiet_bit:
  assumes "bit (pm_quiet (pawnMotion c game cm hv d)) n \<or> bit (pm_quietPromotion (pawnMotion c game cm hv d)) n"
  shows "(c = White \<longrightarrow> n + 8 < 64) \<and> (c = Black \<longrightarrow> 8 \<le> n)"
proof -
  have "bit (forward (notColor c) (NOT (occupied (board game)))) n"
    using assms by (auto simp: pawnMotion_def Let_def bit_and_iff bit_or_iff)
  then show ?thesis by (rule fwd_bit)
qed

lemma pm_doublePush_bit:
  assumes "bit (pm_doublePush (pawnMotion c game cm hv d)) n"
  shows "(c = White \<longrightarrow> n + 16 < 64) \<and> (c = Black \<longrightarrow> 16 \<le> n)"
proof -
  have "bit (doubleForward (notColor c) (NOT (occupied (board game)) AND cm)) n"
    using assms by (auto simp: pawnMotion_def Let_def bit_and_iff bit_or_iff)
  then show ?thesis by (rule dfwd_bit)
qed

lemma pm_leftCapture_bit:
  assumes "bit (pm_leftCapture (pawnMotion c game cm hv d)) n \<or>
           bit (pm_leftCapturePromotion (pawnMotion c game cm hv d)) n"
  shows "(c = White \<longrightarrow> 1 \<le> n \<and> n + 7 < 64) \<and> (c = Black \<longrightarrow> 9 \<le> n)"
proof -
  have "bit (reverseLeftPawnAttack c (occupancy (notColor c) (board game) AND cm)) n"
    using assms by (auto simp: pawnMotion_def Let_def bit_and_iff bit_or_iff)
  then show ?thesis by (rule rleft_bit)
qed

lemma pm_rightCapture_bit:
  assumes "bit (pm_rightCapture (pawnMotion c game cm hv d)) n \<or>
           bit (pm_rightCapturePromotion (pawnMotion c game cm hv d)) n"
  shows "(c = White \<longrightarrow> n + 9 < 64) \<and> (c = Black \<longrightarrow> 7 \<le> n)"
proof -
  have "bit (reverseRightPawnAttack c (occupancy (notColor c) (board game) AND cm)) n"
    using assms by (auto simp: pawnMotion_def Let_def bit_and_iff bit_or_iff)
  then show ?thesis by (rule rright_bit)
qed

lemma squaresOf_onBoard: "sq \<in> set (squaresOf bb) \<Longrightarrow> onBoard sq"
  by (simp add: onBoard_def squaresOf_set)

lemma quiet_step:
  assumes "sq \<in> set (squaresOf (pm_quiet (pawnMotion c game cm hv d))) \<or>
           sq \<in> set (squaresOf (pm_quietPromotion (pawnMotion c game cm hv d)))"
  shows "onBoard sq \<and> onBoard (forwardSquare c sq)"
proof -
  have r: "0 \<le> sq \<and> sq < 64" using assms squaresOf_set by blast
  have "bit (pm_quiet (pawnMotion c game cm hv d)) (nat sq) \<or>
        bit (pm_quietPromotion (pawnMotion c game cm hv d)) (nat sq)"
    using assms squaresOf_set by blast
  from pm_quiet_bit[OF this] r show ?thesis by (cases c) (auto simp: onBoard_def)
qed

lemma doublePush_step:
  assumes "sq \<in> set (squaresOf (pm_doublePush (pawnMotion c game cm hv d)))"
  shows "onBoard sq \<and> onBoard (doubleForwardSquare c sq)"
proof -
  have r: "0 \<le> sq \<and> sq < 64" using assms squaresOf_set by blast
  have "bit (pm_doublePush (pawnMotion c game cm hv d)) (nat sq)"
    using assms squaresOf_set by blast
  from pm_doublePush_bit[OF this] r show ?thesis by (cases c) (auto simp: onBoard_def)
qed

lemma leftCapture_step:
  assumes "sq \<in> set (squaresOf (pm_leftCapture (pawnMotion c game cm hv d))) \<or>
           sq \<in> set (squaresOf (pm_leftCapturePromotion (pawnMotion c game cm hv d)))"
  shows "onBoard sq \<and> onBoard (forwardSquare c sq - 1)"
proof -
  have r: "0 \<le> sq \<and> sq < 64" using assms squaresOf_set by blast
  have "bit (pm_leftCapture (pawnMotion c game cm hv d)) (nat sq) \<or>
        bit (pm_leftCapturePromotion (pawnMotion c game cm hv d)) (nat sq)"
    using assms squaresOf_set by blast
  from pm_leftCapture_bit[OF this] r show ?thesis by (cases c) (auto simp: onBoard_def)
qed

lemma rightCapture_step:
  assumes "sq \<in> set (squaresOf (pm_rightCapture (pawnMotion c game cm hv d))) \<or>
           sq \<in> set (squaresOf (pm_rightCapturePromotion (pawnMotion c game cm hv d)))"
  shows "onBoard sq \<and> onBoard (forwardSquare c sq + 1)"
proof -
  have r: "0 \<le> sq \<and> sq < 64" using assms squaresOf_set by blast
  have "bit (pm_rightCapture (pawnMotion c game cm hv d)) (nat sq) \<or>
        bit (pm_rightCapturePromotion (pawnMotion c game cm hv d)) (nat sq)"
    using assms squaresOf_set by blast
  from pm_rightCapture_bit[OF this] r show ?thesis by (cases c) (auto simp: onBoard_def)
qed

lemma getFlags_onBoard:
  "onBoard from \<Longrightarrow> onBoard to \<Longrightarrow> 0 \<le> fl \<Longrightarrow> fl < 16 \<Longrightarrow> getFlags (Move from to fl) = fl"
  by (simp add: onBoard_def getFlags_Move)

lemma plainPawnMoves_flags:
  assumes "m \<in> set (plainPawnMoves c game cm hv d)"
  shows "getFlags m = 0 \<or> getFlags m = 1 \<or> getFlags m = 4"
  using assms quiet_step[of _ c game cm hv d] doublePush_step[of _ c game cm hv d]
    leftCapture_step[of _ c game cm hv d] rightCapture_step[of _ c game cm hv d]
  by (auto simp: plainPawnMoves_def Let_def getFlags_onBoard flag_defs)

lemma captureFlag_cases:
  "uint (push_bit 2 (drop_bit n enemy AND 1) :: Bitboard) = 0 \<or>
   uint (push_bit 2 (drop_bit n enemy AND 1) :: Bitboard) = 4"
proof -
  have "drop_bit n enemy AND 1 = 0 \<or> drop_bit n enemy AND 1 = 1"
    by (simp add: and_one_eq mod_2_eq_odd)
  then show ?thesis
  proof
    assume "drop_bit n enemy AND 1 = 0"
    then have "uint (push_bit 2 (drop_bit n enemy AND 1)) = uint (push_bit 2 (0 :: Bitboard))"
      by (simp only:)
    then show ?thesis by simp
  next
    assume "drop_bit n enemy AND 1 = 1"
    then have "uint (push_bit 2 (drop_bit n enemy AND 1)) = uint (push_bit 2 (1 :: Bitboard))"
      by (simp only:)
    then show ?thesis by simp
  qed
qed

lemma targetMoves_flags:
  assumes "m \<in> set (targetMoves enemy from legal)" "onBoard from"
  shows "getFlags m = 0 \<or> getFlags m = 4"
proof -
  obtain to where to: "to \<in> set (squaresOf legal)"
    and m: "m = Move from to (uint (push_bit 2 (drop_bit (nat to) enemy AND 1)))"
    using assms(1) by (auto simp: targetMoves_def)
  have ob: "onBoard to" using to by (rule squaresOf_onBoard)
  from captureFlag_cases[of "nat to" enemy] show ?thesis
    unfolding m using ob assms(2) by (auto simp: getFlags_onBoard)
qed

lemma pieceMoves_flags:
  assumes "m \<in> set (pieceMoves c game cm hv d)"
  shows "getFlags m = 0 \<or> getFlags m = 4"
  using assms
  by (auto simp: pieceMoves_def Let_def dest!: squaresOf_onBoard dest: targetMoves_flags)

lemma kingMoves_flags:
  assumes "m \<in> set (kingMoves c game)" "kings c (board game) \<noteq> 0"
  shows "getFlags m = 0 \<or> getFlags m = 4"
proof -
  have "onBoard (toSquare (kings c (board game)))"
    using toSquare_range[OF assms(2)] by (simp add: onBoard_def)
  then show ?thesis using assms(1) by (auto simp: kingMoves_def Let_def dest: targetMoves_flags)
qed

lemma promotionSteps_onBoard:
  assumes "(from, to, cap) \<in> set (promotionSteps c game cm hv d)"
  shows "onBoard from \<and> onBoard to"
  using assms quiet_step[of _ c game cm hv d] leftCapture_step[of _ c game cm hv d]
    rightCapture_step[of _ c game cm hv d]
  by (auto simp: promotionSteps_def Let_def)

lemma promotionMoves_flags:
  assumes "m \<in> set (promotionMoves from to cap)" "onBoard from" "onBoard to"
  shows "8 \<le> getFlags m"
  using assms by (auto simp: promotionMoves_def getFlags_onBoard flag_defs split: if_splits)

lemma pawnPromotions_flags:
  assumes "m \<in> set (pawnPromotions c game cm hv d)"
  shows "8 \<le> getFlags m"
  using assms promotionSteps_onBoard[of _ _ _ c game cm hv d]
  by (auto simp: pawnPromotions_def intro: promotionMoves_flags)

lemma enPassantMoves_flags:
  assumes "m \<in> set (enPassantMoves c game cm d uhv)"
    and "0 \<le> enPassantSquare game" "enPassantSquare game \<le> 64"
  shows "getFlags m = 5"
proof -
  have ne: "enPassantSquare game \<noteq> SquareNone"
    using assms(1) by (auto simp: enPassantMoves_def enPassantPawns_def Let_def split: if_splits)
  then have ep: "onBoard (enPassantSquare game)"
    using assms(2,3) by (simp add: onBoard_def SquareNone_def)
  have sq: "bb \<noteq> 0 \<Longrightarrow> onBoard (toSquare bb)" for bb
    using toSquare_range[of bb] by (simp add: onBoard_def)
  show ?thesis
    using assms(1) ep sq
    by (auto simp: enPassantMoves_def getFlags_onBoard flag_defs split: option.splits if_splits)
qed

lemma castlingMoves_eq:
  assumes "castlingRights game AND kingsideCastleFlag c \<noteq> 0 \<or>
           castlingRights game AND queensideCastleFlag c \<noteq> 0 \<longrightarrow>
           toSquare (kings c (board game)) = initialKingSquare c"
  shows "castlingMoves c game =
           (if canCastleKingside c game (computeAttackedWithoutKing c game)
            then [Move (initialKingSquare c) (kingsideCastleKingToSquare c) KingCastle] else []) @
           (if canCastleQueenside c game (computeAttackedWithoutKing c game)
            then [Move (initialKingSquare c) (queensideCastleKingToSquare c) QueenCastle] else [])"
proof -
  have k: "initialKingSquare c + 2 = kingsideCastleKingToSquare c" by (cases c) simp_all
  have q: "initialKingSquare c - 2 = queensideCastleKingToSquare c" by (cases c) simp_all
  show ?thesis
    using assms
    by (auto simp: castlingMoves_def Let_def canCastleKingside_def canCastleQueenside_def k q)
qed

lemma castle_flags:
  "getFlags (Move (initialKingSquare c) (kingsideCastleKingToSquare c) KingCastle) = 2"
  "getFlags (Move (initialKingSquare c) (queensideCastleKingToSquare c) QueenCastle) = 3"
  by (cases c; simp add: getFlags_Move flag_defs)+

text \<open>The flags of the moves of each block of the generator.\<close>

lemma filter_none: "(\<And>x. x \<in> set xs \<Longrightarrow> \<not> P x) \<Longrightarrow> filter P xs = []"
  by (induction xs) auto

lemma filter_all: "(\<And>x. x \<in> set xs \<Longrightarrow> P x) \<Longrightarrow> filter P xs = xs"
  by (induction xs) auto

lemma filter_isPromotion:
  assumes "0 \<le> enPassantSquare game" "enPassantSquare game \<le> 64"
    and "kings c (board game) \<noteq> 0"
    and "castlingRights game AND kingsideCastleFlag c \<noteq> 0 \<or>
         castlingRights game AND queensideCastleFlag c \<noteq> 0 \<longrightarrow>
         toSquare (kings c (board game)) = initialKingSquare c"
  shows "filter isPromotion (emittedMoves c game) =
           pawnPromotions c game (computeCheckmask c game)
             (computeHorizontalVerticalPinmask c game) (computeDiagonalPinmask c game)"
proof -
  have 1: "filter isPromotion (enPassantMoves c game cm d uhv) = []" for cm d uhv
    by (rule filter_none) (use assms enPassantMoves_flags in \<open>fastforce simp: isPromotion_iff\<close>)
  have 2: "filter isPromotion (plainPawnMoves c game cm hv d) = []" for cm hv d
    by (rule filter_none) (use plainPawnMoves_flags in \<open>fastforce simp: isPromotion_iff\<close>)
  have 3: "filter isPromotion (pawnPromotions c game cm hv d) = pawnPromotions c game cm hv d"
    for cm hv d
    by (rule filter_all) (use pawnPromotions_flags in \<open>fastforce simp: isPromotion_iff\<close>)
  have 4: "filter isPromotion (pieceMoves c game cm hv d) = []" for cm hv d
    by (rule filter_none) (use pieceMoves_flags in \<open>fastforce simp: isPromotion_iff\<close>)
  have 5: "filter isPromotion (castlingMoves c game) = []"
    unfolding castlingMoves_eq[OF assms(4)] by (simp add: isPromotion_iff castle_flags)
  have 6: "filter isPromotion (kingMoves c game) = []"
    by (rule filter_none) (use kingMoves_flags assms(3) in \<open>fastforce simp: isPromotion_iff\<close>)
  show ?thesis
    unfolding emittedMoves_eq Let_def by (simp add: 1 2 3 4 5 6)
qed


lemma filter_isKingsideCastle:
  assumes "0 \<le> enPassantSquare game" "enPassantSquare game \<le> 64"
    and "kings c (board game) \<noteq> 0"
    and "castlingRights game AND kingsideCastleFlag c \<noteq> 0 \<or>
         castlingRights game AND queensideCastleFlag c \<noteq> 0 \<longrightarrow>
         toSquare (kings c (board game)) = initialKingSquare c"
  shows "filter isKingsideCastle (emittedMoves c game) =
           (if canCastleKingside c game (computeAttackedWithoutKing c game)
            then [Move (initialKingSquare c) (kingsideCastleKingToSquare c) KingCastle] else [])"
proof -
  have 1: "filter isKingsideCastle (enPassantMoves c game cm d uhv) = []" for cm d uhv
    by (rule filter_none) (use assms enPassantMoves_flags in \<open>fastforce simp: flag_tests\<close>)
  have 2: "filter isKingsideCastle (plainPawnMoves c game cm hv d) = []" for cm hv d
    by (rule filter_none) (use plainPawnMoves_flags in \<open>fastforce simp: flag_tests\<close>)
  have 3: "filter isKingsideCastle (pawnPromotions c game cm hv d) = []" for cm hv d
    by (rule filter_none) (use pawnPromotions_flags in \<open>fastforce simp: flag_tests\<close>)
  have 4: "filter isKingsideCastle (pieceMoves c game cm hv d) = []" for cm hv d
    by (rule filter_none) (use pieceMoves_flags in \<open>fastforce simp: flag_tests\<close>)
  have 5: "filter isKingsideCastle (castlingMoves c game) =
           (if canCastleKingside c game (computeAttackedWithoutKing c game)
            then [Move (initialKingSquare c) (kingsideCastleKingToSquare c) KingCastle] else [])"
    unfolding castlingMoves_eq[OF assms(4)] by (simp add: flag_tests castle_flags)
  have 6: "filter isKingsideCastle (kingMoves c game) = []"
    by (rule filter_none) (use kingMoves_flags assms(3) in \<open>fastforce simp: flag_tests\<close>)
  show ?thesis
    unfolding emittedMoves_eq Let_def by (simp add: 1 2 3 4 5 6)
qed

lemma filter_isQueensideCastle:
  assumes "0 \<le> enPassantSquare game" "enPassantSquare game \<le> 64"
    and "kings c (board game) \<noteq> 0"
    and "castlingRights game AND kingsideCastleFlag c \<noteq> 0 \<or>
         castlingRights game AND queensideCastleFlag c \<noteq> 0 \<longrightarrow>
         toSquare (kings c (board game)) = initialKingSquare c"
  shows "filter isQueensideCastle (emittedMoves c game) =
           (if canCastleQueenside c game (computeAttackedWithoutKing c game)
            then [Move (initialKingSquare c) (queensideCastleKingToSquare c) QueenCastle] else [])"
proof -
  have 1: "filter isQueensideCastle (enPassantMoves c game cm d uhv) = []" for cm d uhv
    by (rule filter_none) (use assms enPassantMoves_flags in \<open>fastforce simp: flag_tests\<close>)
  have 2: "filter isQueensideCastle (plainPawnMoves c game cm hv d) = []" for cm hv d
    by (rule filter_none) (use plainPawnMoves_flags in \<open>fastforce simp: flag_tests\<close>)
  have 3: "filter isQueensideCastle (pawnPromotions c game cm hv d) = []" for cm hv d
    by (rule filter_none) (use pawnPromotions_flags in \<open>fastforce simp: flag_tests\<close>)
  have 4: "filter isQueensideCastle (pieceMoves c game cm hv d) = []" for cm hv d
    by (rule filter_none) (use pieceMoves_flags in \<open>fastforce simp: flag_tests\<close>)
  have 5: "filter isQueensideCastle (castlingMoves c game) =
           (if canCastleQueenside c game (computeAttackedWithoutKing c game)
            then [Move (initialKingSquare c) (queensideCastleKingToSquare c) QueenCastle] else [])"
    unfolding castlingMoves_eq[OF assms(4)] by (simp add: flag_tests castle_flags)
  have 6: "filter isQueensideCastle (kingMoves c game) = []"
    by (rule filter_none) (use kingMoves_flags assms(3) in \<open>fastforce simp: flag_tests\<close>)
  show ?thesis
    unfolding emittedMoves_eq Let_def by (simp add: 1 2 3 4 5 6)
qed

subsection \<open>Promotions\<close>

lemma isCapture_iff: "isCapture m \<longleftrightarrow> bit (drop_bit 12 m) 2"
proof -
  have e: "push_bit 12 (4 :: 16 word) = 2 ^ 14" by simp
  have "m AND 2 ^ 14 \<noteq> 0 \<longleftrightarrow> bit m 14"
    unfolding and_exp_eq_0_iff_not_bit by blast
  then show ?thesis unfolding isCapture_def e by (simp add: bit_simps)
qed

lemma promotionMoves_decode:
  assumes "onBoard from" "onBoard to"
  shows "map (\<lambda>m. (getFrom m, getTo m, isCapture m, promotionPieceType m))
           (promotionMoves from to capture) =
         [(from, to, capture, Queen), (from, to, capture, Rook), (from, to, capture, Knight),
          (from, to, capture, Bishop)]"
  using assms
  by (simp add: promotionMoves_def onBoard_def getFrom_Move getTo_Move isCapture_iff
      promotionPieceType_def drop12_Move flag_defs)

lemma map_concat_decode:
  assumes "\<And>x. x \<in> set xs \<Longrightarrow> map f (g x) = h x"
  shows "map f (concat (map g xs)) = concat (map h xs)"
  using assms by (induction xs) auto

text \<open>
  Claim C3, amended. In every position (with an en-passant square in range, a king of the
  side to move, and castling rights only for a king on its initial square) the promotion
  moves the generator emits are, for each promotion step (origin, destination, capture or
  not) in the order quiet, left capture, right capture, exactly four moves with that
  origin and destination, flagged with the piece types Queen, Rook, Knight, Bishop in that
  order: the knight comes before the bishop.
\<close>

theorem promotions_emitted_queen_rook_knight_bishop:
  assumes "0 \<le> enPassantSquare game" "enPassantSquare game \<le> 64"
    and "kings c (board game) \<noteq> 0"
    and "castlingRights game AND kingsideCastleFlag c \<noteq> 0 \<or>
         castlingRights game AND queensideCastleFlag c \<noteq> 0 \<longrightarrow>
         toSquare (kings c (board game)) = initialKingSquare c"
  shows "map (\<lambda>m. (getFrom m, getTo m, isCapture m, promotionPieceType m))
           (filter isPromotion (emittedMoves c game)) =
         concat (map (\<lambda>(from, to, capture).
                        [(from, to, capture, Queen), (from, to, capture, Rook),
                         (from, to, capture, Knight), (from, to, capture, Bishop)])
                   (promotionSteps c game (computeCheckmask c game)
                      (computeHorizontalVerticalPinmask c game) (computeDiagonalPinmask c game)))"
  unfolding filter_isPromotion[OF assms] pawnPromotions_def
  by (rule map_concat_decode) (use promotionSteps_onBoard in \<open>auto simp: promotionMoves_decode\<close>)

theorem promotions_emitted_queen_rook_knight_bishop_witness:
  "map (\<lambda>m. (getFrom m, getTo m, isCapture m, promotionPieceType m))
     (filter isPromotion (emittedMoves White game_promo)) =
   [(48, 56, False, Queen), (48, 56, False, Rook), (48, 56, False, Knight), (48, 56, False, Bishop)]"
  using promotions_emitted_queen_rook_knight_bishop[of game_promo White]
  by (simp add: promotionSteps_def checkmask_promo pinHV_promo pinD_promo pawnMotion_promo
      fields_promo board_promo tables_promo kings_def squaresOf_rec)

text \<open>
  In \<open>7k/P7/8/8/8/8/8/K7 w - - 0 1\<close> the promotions are emitted as a7a8q, a7a8r, a7a8n,
  a7a8b: the order Queen, Rook, Bishop, Knight is not the order of the generator.
\<close>

theorem promotion_order_knight_before_bishop:
  "map promotionPieceType (filter isPromotion (emittedMoves White game_promo)) =
     [Queen, Rook, Knight, Bishop] \<and>
   map promotionPieceType (filter isPromotion (emittedMoves White game_promo)) \<noteq>
     [Queen, Rook, Bishop, Knight] \<and>
   map moveString (filter isPromotion (emittedMoves White game_promo)) =
     [''a7a8q'', ''a7a8r'', ''a7a8n'', ''a7a8b'']"
  by (simp add: emittedMoves_promo isPromotion_def promotionPieceType_def moveString_eval)

subsection \<open>En-passant captures\<close>







subsection \<open>Castling\<close>

lemma and_exp2_eq_0:
  "x AND (2 ^ a OR 2 ^ b) = 0 \<longleftrightarrow> \<not> bit x a \<and> \<not> bit x b" for x :: Bitboard
proof -
  have "x AND (2 ^ a OR 2 ^ b) = (x AND 2 ^ a) OR (x AND 2 ^ b)"
    by (rule bit.conj_disj_distrib)
  then show ?thesis by (simp only: or_eq_0_iff and_exp_eq_0_iff_not_bit)
qed

lemma and_exp3_eq_0:
  "x AND (2 ^ a OR 2 ^ b OR 2 ^ c) = 0 \<longleftrightarrow> \<not> bit x a \<and> \<not> bit x b \<and> \<not> bit x c"
  for x :: Bitboard
proof -
  have "x AND (2 ^ a OR 2 ^ b OR 2 ^ c) = (x AND 2 ^ a) OR (x AND (2 ^ b OR 2 ^ c))"
    by (rule bit.conj_disj_distrib)
  then show ?thesis by (simp only: or_eq_0_iff and_exp_eq_0_iff_not_bit and_exp2_eq_0 conj_assoc)
qed

lemma castling_masks:
  "shouldUnoccupiedKingside White = 2 ^ 5 OR 2 ^ 6"
  "shouldUnoccupiedKingside Black = 2 ^ 61 OR 2 ^ 62"
  "shouldUnoccupiedQueenside White = 2 ^ 1 OR 2 ^ 2 OR 2 ^ 3"
  "shouldUnoccupiedQueenside Black = 2 ^ 57 OR 2 ^ 58 OR 2 ^ 59"
  "shouldNotAttackedKingside White = 2 ^ 4 OR 2 ^ 5 OR 2 ^ 6"
  "shouldNotAttackedKingside Black = 2 ^ 60 OR 2 ^ 61 OR 2 ^ 62"
  "shouldNotAttackedQueenside White = 2 ^ 2 OR 2 ^ 3 OR 2 ^ 4"
  "shouldNotAttackedQueenside Black = 2 ^ 58 OR 2 ^ 59 OR 2 ^ 60"
  by (simp_all add: shouldUnoccupiedKingside_def shouldUnoccupiedQueenside_def
      shouldNotAttackedKingside_def shouldNotAttackedQueenside_def squaresBetweenUnordered_def
      squaresBetween_def spotOf_def)

lemma all_int_2: "(\<forall>sq::int. a < sq \<and> sq < a + 3 \<longrightarrow> P (nat sq)) \<longleftrightarrow> P (nat (a + 1)) \<and> P (nat (a + 2))"
proof
  assume h: "\<forall>sq::int. a < sq \<and> sq < a + 3 \<longrightarrow> P (nat sq)"
  show "P (nat (a + 1)) \<and> P (nat (a + 2))" using h by simp
next
  assume h: "P (nat (a + 1)) \<and> P (nat (a + 2))"
  show "\<forall>sq::int. a < sq \<and> sq < a + 3 \<longrightarrow> P (nat sq)"
  proof (intro allI impI)
    fix sq :: int assume "a < sq \<and> sq < a + 3"
    then have "sq = a + 1 \<or> sq = a + 2" by arith
    then show "P (nat sq)" using h by auto
  qed
qed

lemma all_int_3: "(\<forall>sq::int. a < sq \<and> sq < a + 4 \<longrightarrow> P (nat sq)) \<longleftrightarrow>
    P (nat (a + 1)) \<and> P (nat (a + 2)) \<and> P (nat (a + 3))"
proof
  assume h: "\<forall>sq::int. a < sq \<and> sq < a + 4 \<longrightarrow> P (nat sq)"
  show "P (nat (a + 1)) \<and> P (nat (a + 2)) \<and> P (nat (a + 3))" using h by simp
next
  assume h: "P (nat (a + 1)) \<and> P (nat (a + 2)) \<and> P (nat (a + 3))"
  show "\<forall>sq::int. a < sq \<and> sq < a + 4 \<longrightarrow> P (nat sq)"
  proof (intro allI impI)
    fix sq :: int assume "a < sq \<and> sq < a + 4"
    then have "sq = a + 1 \<or> sq = a + 2 \<or> sq = a + 3" by arith
    then show "P (nat sq)" using h by auto
  qed
qed

lemma all_int_le_3: "(\<forall>sq::int. a \<le> sq \<and> sq \<le> a + 2 \<longrightarrow> P (nat sq)) \<longleftrightarrow>
    P (nat a) \<and> P (nat (a + 1)) \<and> P (nat (a + 2))"
proof
  assume h: "\<forall>sq::int. a \<le> sq \<and> sq \<le> a + 2 \<longrightarrow> P (nat sq)"
  show "P (nat a) \<and> P (nat (a + 1)) \<and> P (nat (a + 2))" using h by simp
next
  assume h: "P (nat a) \<and> P (nat (a + 1)) \<and> P (nat (a + 2))"
  show "\<forall>sq::int. a \<le> sq \<and> sq \<le> a + 2 \<longrightarrow> P (nat sq)"
  proof (intro allI impI)
    fix sq :: int assume "a \<le> sq \<and> sq \<le> a + 2"
    then have "sq = a \<or> sq = a + 1 \<or> sq = a + 2" by arith
    then show "P (nat sq)" using h by auto
  qed
qed

lemma canCastleKingside_iff:
  "canCastleKingside c game banned \<longleftrightarrow>
     castlingRights game AND kingsideCastleFlag c \<noteq> 0 \<and>
     (\<forall>sq. initialKingSquare c < sq \<and> sq < kingsideCastleRookFromSquare c \<longrightarrow>
           \<not> bit (occupied (board game)) (nat sq)) \<and>
     (\<forall>sq. initialKingSquare c \<le> sq \<and> sq \<le> kingsideCastleKingToSquare c \<longrightarrow>
           \<not> bit banned (nat sq))"
proof (cases c)
  case White
  show ?thesis
    unfolding White canCastleKingside_def castling_masks and.commute[of _ "occupied (board game)"]
      and.commute[of _ banned] and_exp2_eq_0 and_exp3_eq_0
    using all_int_2[of 4 "\<lambda>n. \<not> bit (occupied (board game)) n"]
      all_int_le_3[of 4 "\<lambda>n. \<not> bit banned n"]
    by simp
next
  case Black
  show ?thesis
    unfolding Black canCastleKingside_def castling_masks and.commute[of _ "occupied (board game)"]
      and.commute[of _ banned] and_exp2_eq_0 and_exp3_eq_0
    using all_int_2[of 60 "\<lambda>n. \<not> bit (occupied (board game)) n"]
      all_int_le_3[of 60 "\<lambda>n. \<not> bit banned n"]
    by simp
qed

lemma canCastleQueenside_iff:
  "canCastleQueenside c game banned \<longleftrightarrow>
     castlingRights game AND queensideCastleFlag c \<noteq> 0 \<and>
     (\<forall>sq. queensideCastleRookFromSquare c < sq \<and> sq < initialKingSquare c \<longrightarrow>
           \<not> bit (occupied (board game)) (nat sq)) \<and>
     (\<forall>sq. queensideCastleKingToSquare c \<le> sq \<and> sq \<le> initialKingSquare c \<longrightarrow>
           \<not> bit banned (nat sq))"
proof (cases c)
  case White
  show ?thesis
    unfolding White canCastleQueenside_def castling_masks and.commute[of _ "occupied (board game)"]
      and.commute[of _ banned] and_exp3_eq_0
    using all_int_3[of 0 "\<lambda>n. \<not> bit (occupied (board game)) n"]
      all_int_le_3[of 2 "\<lambda>n. \<not> bit banned n"]
    by simp
next
  case Black
  show ?thesis
    unfolding Black canCastleQueenside_def castling_masks and.commute[of _ "occupied (board game)"]
      and.commute[of _ banned] and_exp3_eq_0
    using all_int_3[of 56 "\<lambda>n. \<not> bit (occupied (board game)) n"]
      all_int_le_3[of 58 "\<lambda>n. \<not> bit banned n"]
    by simp
qed


lemma filter_singleton_iff:
  assumes "filter P xs = (if b then [x] else [])"
  shows "((\<exists>m\<in>set xs. P m) \<longleftrightarrow> b) \<and> (\<forall>m\<in>set xs. P m \<longrightarrow> m = x)"
proof (cases b)
  case True
  then have "filter P xs = [x]" using assms by simp
  then have "set (filter P xs) = {x}" by (simp only: list.set)
  then have "{m \<in> set xs. P m} = {x}" by simp
  then show ?thesis using True by auto
next
  case False
  then have "filter P xs = []" using assms by simp
  then show ?thesis using False by (auto simp: filter_empty_conv)
qed

text \<open>
  Claim C5. In every position (with an en-passant square in range, a king of the side to
  move, and castling rights only for a king on its initial square) the generator emits a
  kingside castling move if and only if (i) the kingside right is present, (ii) the
  squares strictly between the initial squares of king and rook are unoccupied, and (iii)
  no square from the king's initial square to its destination, both included, is in the
  \<open>banned\<close> mask \<open>computeAttackedWithoutKing\<close>; likewise on the queenside; and a
  castling move that is emitted is the move of the king from its initial square to its
  castling destination. In the position \<open>4k2r/8/8/8/8/8/8/4K3 b k -\<close> (given to
  \<open>Game::init\<close> with the clocks \<open>0 1\<close>, which it needs) the moves of Black include e8g8,
  the kingside castle, and not e8c8.
\<close>

theorem castling_emitted_iff:
  "(0 \<le> enPassantSquare game \<and> enPassantSquare game \<le> 64 \<and> kings c (board game) \<noteq> 0 \<and>
    (castlingRights game AND kingsideCastleFlag c \<noteq> 0 \<or>
     castlingRights game AND queensideCastleFlag c \<noteq> 0 \<longrightarrow>
     toSquare (kings c (board game)) = initialKingSquare c) \<longrightarrow>
    ((\<exists>m\<in>set (emittedMoves c game). isKingsideCastle m) \<longleftrightarrow>
       castlingRights game AND kingsideCastleFlag c \<noteq> 0 \<and>
       (\<forall>sq. initialKingSquare c < sq \<and> sq < kingsideCastleRookFromSquare c \<longrightarrow>
             \<not> bit (occupied (board game)) (nat sq)) \<and>
       (\<forall>sq. initialKingSquare c \<le> sq \<and> sq \<le> kingsideCastleKingToSquare c \<longrightarrow>
             \<not> bit (computeAttackedWithoutKing c game) (nat sq))) \<and>
    ((\<exists>m\<in>set (emittedMoves c game). isQueensideCastle m) \<longleftrightarrow>
       castlingRights game AND queensideCastleFlag c \<noteq> 0 \<and>
       (\<forall>sq. queensideCastleRookFromSquare c < sq \<and> sq < initialKingSquare c \<longrightarrow>
             \<not> bit (occupied (board game)) (nat sq)) \<and>
       (\<forall>sq. queensideCastleKingToSquare c \<le> sq \<and> sq \<le> initialKingSquare c \<longrightarrow>
             \<not> bit (computeAttackedWithoutKing c game) (nat sq))) \<and>
    (\<forall>m\<in>set (emittedMoves c game).
       (isKingsideCastle m \<longrightarrow>
          m = Move (initialKingSquare c) (kingsideCastleKingToSquare c) KingCastle) \<and>
       (isQueensideCastle m \<longrightarrow>
          m = Move (initialKingSquare c) (queensideCastleKingToSquare c) QueenCastle))) \<and>
   ''e8g8'' \<in> set (map moveString (emittedMoves Black game_castle)) \<and>
   ''e8c8'' \<notin> set (map moveString (emittedMoves Black game_castle)) \<and>
   Move 60 62 KingCastle \<in> set (emittedMoves Black game_castle) \<and>
   filter isQueensideCastle (emittedMoves Black game_castle) = []"
proof (intro conjI impI)
  assume a: "0 \<le> enPassantSquare game \<and> enPassantSquare game \<le> 64 \<and> kings c (board game) \<noteq> 0 \<and>
    (castlingRights game AND kingsideCastleFlag c \<noteq> 0 \<or>
     castlingRights game AND queensideCastleFlag c \<noteq> 0 \<longrightarrow>
     toSquare (kings c (board game)) = initialKingSquare c)"
  have k: "filter isKingsideCastle (emittedMoves c game) =
           (if canCastleKingside c game (computeAttackedWithoutKing c game)
            then [Move (initialKingSquare c) (kingsideCastleKingToSquare c) KingCastle] else [])"
    using a by (intro filter_isKingsideCastle) simp_all
  have q: "filter isQueensideCastle (emittedMoves c game) =
           (if canCastleQueenside c game (computeAttackedWithoutKing c game)
            then [Move (initialKingSquare c) (queensideCastleKingToSquare c) QueenCastle] else [])"
    using a by (intro filter_isQueensideCastle) simp_all
  show "(\<exists>m\<in>set (emittedMoves c game). isKingsideCastle m) \<longleftrightarrow>
       castlingRights game AND kingsideCastleFlag c \<noteq> 0 \<and>
       (\<forall>sq. initialKingSquare c < sq \<and> sq < kingsideCastleRookFromSquare c \<longrightarrow>
             \<not> bit (occupied (board game)) (nat sq)) \<and>
       (\<forall>sq. initialKingSquare c \<le> sq \<and> sq \<le> kingsideCastleKingToSquare c \<longrightarrow>
             \<not> bit (computeAttackedWithoutKing c game) (nat sq))"
    using filter_singleton_iff[OF k] unfolding canCastleKingside_iff by blast
  show "(\<exists>m\<in>set (emittedMoves c game). isQueensideCastle m) \<longleftrightarrow>
       castlingRights game AND queensideCastleFlag c \<noteq> 0 \<and>
       (\<forall>sq. queensideCastleRookFromSquare c < sq \<and> sq < initialKingSquare c \<longrightarrow>
             \<not> bit (occupied (board game)) (nat sq)) \<and>
       (\<forall>sq. queensideCastleKingToSquare c \<le> sq \<and> sq \<le> initialKingSquare c \<longrightarrow>
             \<not> bit (computeAttackedWithoutKing c game) (nat sq))"
    using filter_singleton_iff[OF q] unfolding canCastleQueenside_iff by blast
  show "\<forall>m\<in>set (emittedMoves c game).
       (isKingsideCastle m \<longrightarrow>
          m = Move (initialKingSquare c) (kingsideCastleKingToSquare c) KingCastle) \<and>
       (isQueensideCastle m \<longrightarrow>
          m = Move (initialKingSquare c) (queensideCastleKingToSquare c) QueenCastle)"
    using filter_singleton_iff[OF k] filter_singleton_iff[OF q] by blast
next
  show "''e8g8'' \<in> set (map moveString (emittedMoves Black game_castle))"
    unfolding moveStrings_castle by simp
  show "''e8c8'' \<notin> set (map moveString (emittedMoves Black game_castle))"
    unfolding moveStrings_castle by simp
  show "Move 60 62 KingCastle \<in> set (emittedMoves Black game_castle)"
    unfolding emittedMoves_castle by (simp add: Move_def flag_defs)
  show "filter isQueensideCastle (emittedMoves Black game_castle) = []"
    unfolding emittedMoves_castle by (simp add: isQueensideCastle_def)
qed

theorem castling_emitted_iff_witness:
  "0 \<le> enPassantSquare game_castle \<and> enPassantSquare game_castle \<le> 64 \<and>
   kings Black (board game_castle) \<noteq> 0 \<and>
   toSquare (kings Black (board game_castle)) = initialKingSquare Black \<and>
   (\<exists>m\<in>set (emittedMoves Black game_castle). isKingsideCastle m) \<and>
   castlingRights game_castle AND kingsideCastleFlag Black \<noteq> 0 \<and>
   \<not> bit (occupied (board game_castle)) 61 \<and> \<not> bit (occupied (board game_castle)) 62 \<and>
   \<not> bit (computeAttackedWithoutKing Black game_castle) 60 \<and>
   \<not> bit (computeAttackedWithoutKing Black game_castle) 61 \<and>
   \<not> bit (computeAttackedWithoutKing Black game_castle) 62 \<and>
   \<not> (\<exists>m\<in>set (emittedMoves Black game_castle). isQueensideCastle m) \<and>
   castlingRights game_castle AND queensideCastleFlag Black = 0"
proof -
  have h: "0 \<le> enPassantSquare game_castle \<and> enPassantSquare game_castle \<le> 64 \<and>
      kings Black (board game_castle) \<noteq> 0 \<and>
      toSquare (kings Black (board game_castle)) = initialKingSquare Black \<and>
      castlingRights game_castle AND queensideCastleFlag Black = 0"
    by (simp add: fields_castle board_castle kings_def tables_castle)
  have e: "\<exists>m\<in>set (emittedMoves Black game_castle). isKingsideCastle m"
    unfolding emittedMoves_castle by (simp add: isKingsideCastle_def)
  from castling_emitted_iff[of game_castle Black] h e
  have r: "castlingRights game_castle AND kingsideCastleFlag Black \<noteq> 0 \<and>
       (\<forall>sq. initialKingSquare Black < sq \<and> sq < kingsideCastleRookFromSquare Black \<longrightarrow>
             \<not> bit (occupied (board game_castle)) (nat sq)) \<and>
       (\<forall>sq. initialKingSquare Black \<le> sq \<and> sq \<le> kingsideCastleKingToSquare Black \<longrightarrow>
             \<not> bit (computeAttackedWithoutKing Black game_castle) (nat sq))"
    and nq: "\<not> (\<exists>m\<in>set (emittedMoves Black game_castle). isQueensideCastle m)"
    by blast+
  have o: "\<not> bit (occupied (board game_castle)) (nat sq)" if "60 < sq" "sq < 63" for sq
    using r that by simp
  have b: "\<not> bit (computeAttackedWithoutKing Black game_castle) (nat sq)" if "60 \<le> sq" "sq \<le> 62" for sq
    using r that by simp
  show ?thesis using h e r nq o[of 61] o[of 62] b[of 60] b[of 61] b[of 62] by simp
qed

end
